(* ===== verification/Prelude.thy ===== *)
theory Prelude
  imports Main
begin

text \<open>
  Shared vocabulary of the development: the exceptions of the application, the result type of a
  computation that may raise, the Python string operations the code calls, and the lemmas on
  lists of rows (lookup by key, update by key, sorting, paging) that every component uses.
  A \<open>string\<close> holds code points below 256, which is what an HTTP header can carry.
\<close>

section \<open>Collections\<close>

named_theorems handler_defs \<open>definitions of services and request handlers\<close>
named_theorems row_simps \<open>lookup and update of rows in a table\<close>

section \<open>Exceptions and results\<close>

text \<open>
  What a database driver error carries: \<open>exc.orig\<close> of SQLAlchemy's \<open>OperationalError\<close>, with
  the attributes the code reads by \<open>getattr\<close> (\<open>None\<close> when the attribute is missing or is None).
\<close>

record driver_error =
  sqlstate :: "string option"
  pgcode :: "string option"

datatype py_exc =
    HTTPException (exc_status: int) (exc_detail: string) (exc_headers: "(string \<times> string) list")
  | OperationalError (exc_orig: "driver_error option")
  | IntegrityError
  | ValueError
  | TypeError
  | OverflowError
  | IndexError
  | InvalidRequestError
  | ServiceError

type_synonym 'a res = "py_exc + 'a"

abbreviation http :: "int \<Rightarrow> string \<Rightarrow> py_exc" where
  "http code detail \<equiv> HTTPException code detail []"

definition res_bind :: "'a res \<Rightarrow> ('a \<Rightarrow> 'b res) \<Rightarrow> 'b res" where
  "res_bind r f = (case r of Inl e \<Rightarrow> Inl e | Inr a \<Rightarrow> f a)"

lemma res_bind_simps [simp]:
  "res_bind (Inl e) f = Inl e"
  "res_bind (Inr a) f = f a"
  by (simp_all add: res_bind_def)

definition is_ok :: "'a res \<Rightarrow> bool" where
  "is_ok r = (case r of Inl _ \<Rightarrow> False | Inr _ \<Rightarrow> True)"

lemma is_ok_simps [simp]:
  "is_ok (Inl e) = False"
  "is_ok (Inr a) = True"
  by (simp_all add: is_ok_def)

lemma is_ok_E:
  assumes "is_ok r" obtains a where "r = Inr a"
  using assms by (cases r) auto

section \<open>Python strings\<close>

text \<open>\<open>str.isspace\<close>, \<open>str.strip\<close> and \<open>str.lower\<close> on code points below 256.\<close>

definition py_isspace :: "char \<Rightarrow> bool" where
  "py_isspace c = ((of_char c :: nat) \<in> {9, 10, 11, 12, 13, 28, 29, 30, 31, 32, 133, 160})"

definition py_strip :: "string \<Rightarrow> string" where
  "py_strip s = rev (dropWhile py_isspace (rev (dropWhile py_isspace s)))"

definition py_lower_char :: "char \<Rightarrow> char" where
  "py_lower_char c =
     (let n = (of_char c :: nat)
      in if (65 \<le> n \<and> n \<le> 90) \<or> (192 \<le> n \<and> n \<le> 222 \<and> n \<noteq> 215) then char_of (n + 32) else c)"

definition py_lower :: "string \<Rightarrow> string" where
  "py_lower s = map py_lower_char s"

text \<open>\<open>s.split(sep)[0]\<close> for a separator of one character.\<close>

definition py_split_first :: "char \<Rightarrow> string \<Rightarrow> string" where
  "py_split_first sep s = takeWhile (\<lambda>c. c \<noteq> sep) s"

text \<open>\<open>str(n)\<close> of an integer, and \<open>int(s)\<close> of a string: white space at either end, one sign,
  digits with single underscores between them, \<open>ValueError\<close> for anything else.\<close>

fun nat_str :: "nat \<Rightarrow> string" where
  "nat_str n = (if n < 10 then [char_of (48 + n)] else nat_str (n div 10) @ [char_of (48 + n mod 10)])"

declare nat_str.simps [simp del]

definition int_str :: "int \<Rightarrow> string" where
  "int_str i = (if i < 0 then CHR ''-'' # nat_str (nat (- i)) else nat_str (nat i))"

definition is_digit :: "char \<Rightarrow> bool" where
  "is_digit c = (48 \<le> (of_char c :: nat) \<and> (of_char c :: nat) \<le> 57)"

fun digits_val :: "nat \<Rightarrow> bool \<Rightarrow> string \<Rightarrow> nat option" where
  "digits_val acc prev [] = (if prev then Some acc else None)"
| "digits_val acc prev (c # cs) =
     (if is_digit c then digits_val (10 * acc + (of_char c - 48)) True cs
      else if c = CHR ''_'' \<and> prev then digits_val acc False cs
      else None)"

fun signed_val :: "string \<Rightarrow> int option" where
  "signed_val [] = None"
| "signed_val (c # cs) =
     (if c = CHR ''-'' then map_option (\<lambda>n. - int n) (digits_val 0 False cs)
      else if c = CHR ''+'' then map_option int (digits_val 0 False cs)
      else map_option int (digits_val 0 False (c # cs)))"

definition py_int :: "string \<Rightarrow> int res" where
  "py_int s = (case signed_val (py_strip s) of None \<Rightarrow> Inl ValueError | Some i \<Rightarrow> Inr i)"

lemma of_char_less_256: "(of_char c :: nat) < 256"
proof -
  have "(of_char c :: nat) mod 256 = of_char c"
    by (rule of_char_mod_256)
  then show ?thesis
    by (metis mod_less_divisor zero_less_numeral)
qed

lemma of_char_of_nat: "n < 256 \<Longrightarrow> (of_char (char_of n) :: nat) = n"
  by simp

lemma py_lower_char_idem [simp]: "py_lower_char (py_lower_char c) = py_lower_char c"
  by (auto simp: py_lower_char_def Let_def)

lemma py_lower_idem [simp]: "py_lower (py_lower s) = py_lower s"
  by (simp add: py_lower_def)

lemma digits_val_append:
  assumes "\<forall>c \<in> set s. is_digit c" and "s \<noteq> []"
  shows "digits_val acc prev (s @ t)
    = digits_val (foldl (\<lambda>a c. 10 * a + (of_char c - 48)) acc s) True t"
  using assms
proof (induction s arbitrary: acc prev)
  case Nil
  then show ?case by simp
next
  case (Cons c s)
  then show ?case by (cases "s = []") auto
qed

lemma is_digit_char_of: "(d::nat) < 10 \<Longrightarrow> is_digit (char_of (48 + d))"
  by (simp add: is_digit_def)

lemma nat_str_digits: "(\<forall>c \<in> set (nat_str n). is_digit c) \<and> nat_str n \<noteq> []"
proof (induction n rule: nat_str.induct)
  case (1 n)
  then show ?case
    by (subst (1 2) nat_str.simps) (auto simp: is_digit_char_of)
qed

lemma nat_str_value: "foldl (\<lambda>a c. 10 * a + (of_char c - 48)) 0 (nat_str n) = n"
proof (induction n rule: nat_str.induct)
  case (1 n)
  then show ?case
    by (subst nat_str.simps) auto
qed

lemma digits_val_nat_str: "digits_val 0 False (nat_str n) = Some n"
  using digits_val_append [of "nat_str n" 0 False "[]"] nat_str_digits [of n]
  by (simp add: nat_str_value)

lemma not_space_ends:
  assumes "s \<noteq> []" and "\<not> py_isspace (hd s)" and "\<not> py_isspace (last s)"
  shows "py_strip s = s"
proof -
  have "dropWhile py_isspace s = s"
    using assms(1,2) by (cases s) auto
  moreover have "dropWhile py_isspace (rev s) = rev s"
    using assms(1,3) by (cases "rev s") (auto simp: last_rev [symmetric] hd_rev)
  ultimately show ?thesis by (simp add: py_strip_def)
qed

lemma digit_not_space: "is_digit c \<Longrightarrow> \<not> py_isspace c"
  by (auto simp: is_digit_def py_isspace_def)

lemma digit_not_sign: "is_digit c \<Longrightarrow> c \<noteq> CHR ''-'' \<and> c \<noteq> CHR ''+''"
  by (auto simp: is_digit_def)

lemma signed_val_nat_str: "signed_val (nat_str n) = Some (int n)"
proof -
  obtain c cs where c: "nat_str n = c # cs"
    using nat_str_digits [of n] by (cases "nat_str n") auto
  then have "is_digit c"
    using nat_str_digits [of n] by simp
  then have "signed_val (c # cs) = map_option int (digits_val 0 False (c # cs))"
    using digit_not_sign [of c] by simp
  then show ?thesis
    using c digits_val_nat_str [of n] by simp
qed

text \<open>\<open>int(str(n)) = n\<close>.\<close>

lemma py_int_int_str [simp]: "py_int (int_str i) = Inr i"
proof -
  have ds: "\<forall>c \<in> set (nat_str n). is_digit c" and ne: "nat_str n \<noteq> []" for n
    using nat_str_digits by blast+
  have ends: "\<not> py_isspace (hd (nat_str n))" "\<not> py_isspace (last (nat_str n))" for n
    using ds [of n] ne [of n] by (auto intro!: digit_not_space)
  have "\<not> py_isspace CHR ''-''"
    by (simp add: py_isspace_def)
  then have strip: "py_strip (int_str i) = int_str i"
    using ends ne by (intro not_space_ends) (auto simp: int_str_def)
  show ?thesis
    using strip by (cases "i < 0")
      (simp_all add: py_int_def int_str_def digits_val_nat_str signed_val_nat_str)
qed

section \<open>Division\<close>

text \<open>A multiple lies below a number exactly when its factor lies below the quotient.\<close>

lemma mult_le_iff_le_div:
  assumes "0 < (n::int)"
  shows "a * n \<le> t \<longleftrightarrow> a \<le> t div n"
proof
  assume "a * n \<le> t"
  then have "a * n div n \<le> t div n"
    using assms by (intro zdiv_mono1)
  then show "a \<le> t div n"
    using assms by simp
next
  assume "a \<le> t div n"
  then have "a * n \<le> t div n * n"
    using assms by (intro mult_right_mono) auto
  also have "\<dots> \<le> t"
    using assms by (metis div_mult_mod_eq le_add_same_cancel1 pos_mod_sign)
  finally show "a * n \<le> t" .
qed

section \<open>Rows of a table\<close>

text \<open>
  A table is the list of its rows, in the order the database happens to return them. \<open>find_by\<close> is
  \<open>db.scalar(select(T).where(T.key == i))\<close>; \<open>update_by\<close> is the \<open>UPDATE\<close> by primary key that the
  session emits for a changed object; \<open>page\<close> is \<open>.limit(l).offset(o)\<close>; \<open>dict_of\<close> is a dictionary
  built by a comprehension, where a later binding of a key replaces an earlier one.
\<close>

definition find_by :: "('a \<Rightarrow> 'k) \<Rightarrow> 'k \<Rightarrow> 'a list \<Rightarrow> 'a option" where
  "find_by key i xs = find (\<lambda>x. key x = i) xs"

definition update_by :: "('a \<Rightarrow> 'k) \<Rightarrow> 'k \<Rightarrow> ('a \<Rightarrow> 'a) \<Rightarrow> 'a list \<Rightarrow> 'a list" where
  "update_by key i f xs = map (\<lambda>x. if key x = i then f x else x) xs"

definition delete_by :: "('a \<Rightarrow> 'k) \<Rightarrow> 'k \<Rightarrow> 'a list \<Rightarrow> 'a list" where
  "delete_by key i xs = filter (\<lambda>x. key x \<noteq> i) xs"

definition page :: "int \<Rightarrow> int \<Rightarrow> 'a list \<Rightarrow> 'a list" where
  "page l offs xs = take (nat l) (drop (nat offs) xs)"

definition dict_of :: "('k \<times> 'v) list \<Rightarrow> 'k \<rightharpoonup> 'v" where
  "dict_of kvs = map_of (rev kvs)"

definition holds_for :: "('a \<Rightarrow> bool) \<Rightarrow> 'a list \<Rightarrow> bool" where
  "holds_for P xs = (find P xs \<noteq> None)"

lemma find_by_SomeD: "find_by key i xs = Some x \<Longrightarrow> x \<in> set xs \<and> key x = i"
  by (auto simp: find_by_def find_Some_iff)

lemma find_by_NoneD: "find_by key i xs = None \<Longrightarrow> x \<in> set xs \<Longrightarrow> key x \<noteq> i"
  by (auto simp: find_by_def find_None_iff)

lemma find_by_mem_None: "find_by key i xs = None \<longleftrightarrow> i \<notin> key ` set xs"
  by (auto simp: find_by_def find_None_iff)

lemma find_by_distinct:
  assumes "distinct (map key xs)"
  shows "find_by key i xs = Some x \<longleftrightarrow> x \<in> set xs \<and> key x = i"
  using assms by (induction xs) (auto simp: find_by_def)

lemma distinct_key_eq:
  "distinct (map key xs) \<Longrightarrow> x \<in> set xs \<Longrightarrow> y \<in> set xs \<Longrightarrow> key x = key y \<Longrightarrow> x = y"
  by (simp add: distinct_map inj_on_def)

lemma find_by_simps [simp]:
  "find_by key i [] = None"
  "find_by key i (x # xs) = (if key x = i then Some x else find_by key i xs)"
  by (simp_all add: find_by_def)

lemma find_by_append [row_simps]:
  "find_by key i (xs @ ys) = (case find_by key i xs of None \<Rightarrow> find_by key i ys | Some x \<Rightarrow> Some x)"
  by (induction xs) auto

lemma update_by_simps [simp]:
  "update_by key i f [] = []"
  "update_by key i f (x # xs) = (if key x = i then f x else x) # update_by key i f xs"
  by (simp_all add: update_by_def)

lemma find_by_update_by [row_simps]:
  assumes "\<And>x. key (f x) = key x"
  shows "find_by key j (update_by key i f xs)
    = (if j = i then map_option f (find_by key j xs) else find_by key j xs)"
  using assms by (induction xs) auto

lemma map_update_by [row_simps]:
  assumes "\<And>x. g (f x) = g x"
  shows "map g (update_by key i f xs) = map g xs"
  using assms by (induction xs) auto

lemma length_update_by [simp]: "length (update_by key i f xs) = length xs"
  by (simp add: update_by_def)

lemma list_all_update_by:
  assumes "\<And>x. P (f x) = P x"
  shows "list_all P (update_by key i f xs) = list_all P xs"
  using assms by (induction xs) auto

lemma update_by_absent: "find_by key i xs = None \<Longrightarrow> update_by key i f xs = xs"
  by (induction xs) (auto split: if_splits)

lemma set_update_by: "set (update_by key i f xs) = (\<lambda>x. if key x = i then f x else x) ` set xs"
  by (simp add: update_by_def)

lemma filter_update_by_same:
  assumes "\<And>x. x \<in> set xs \<Longrightarrow> key x = i \<Longrightarrow> \<not> P x \<and> \<not> P (f x)"
  shows "filter P (update_by key i f xs) = filter P xs"
  using assms by (induction xs) auto

text \<open>An update by primary key changes how many rows satisfy a condition by one row at most.\<close>

lemma count_update_by:
  assumes "distinct (map key xs)" and "find_by key i xs = Some x"
  shows "length (filter P (update_by key i f xs)) + (if P x then 1 else 0)
    = length (filter P xs) + (if P (f x) then 1 else (0::nat))"
  using assms
proof (induction xs)
  case Nil
  then show ?case by simp
next
  case (Cons y ys)
  show ?case
  proof (cases "key y = i")
    case True
    then have "find_by key i ys = None"
      using Cons.prems by (auto simp: find_by_mem_None)
    then show ?thesis
      using Cons.prems True by (simp add: update_by_absent)
  next
    case False
    then show ?thesis
      using Cons by auto
  qed
qed

lemma delete_by_simps [simp]:
  "delete_by key i [] = []"
  "delete_by key i (x # xs) = (if key x = i then delete_by key i xs else x # delete_by key i xs)"
  by (simp_all add: delete_by_def)

lemma set_delete_by: "set (delete_by key i xs) = {x \<in> set xs. key x \<noteq> i}"
  by (auto simp: delete_by_def)

lemma distinct_map_delete_by: "distinct (map g xs) \<Longrightarrow> distinct (map g (delete_by key i xs))"
  by (simp add: delete_by_def distinct_map_filter)

lemma find_by_delete_by [row_simps]:
  "find_by key j (delete_by key i xs) = (if j = i then None else find_by key j xs)"
  by (induction xs) auto

lemma dict_of_map:
  assumes "distinct (map key xs)"
  shows "dict_of (map (\<lambda>x. (key x, x)) xs) i = find_by key i xs"
proof -
  have *: "map fst (map (\<lambda>x. (key x, x)) xs) = map key xs"
    by simp
  then have d: "distinct (map fst (rev (map (\<lambda>x. (key x, x)) xs)))"
    using assms by (metis distinct_rev rev_map)
  have "dict_of (map (\<lambda>x. (key x, x)) xs) i = Some x \<longleftrightarrow> find_by key i xs = Some x" for x
    using map_of_eq_Some_iff [OF d, of i x] find_by_distinct [OF assms, of i x]
    by (auto simp: dict_of_def)
  then show ?thesis
    by (metis not_None_eq)
qed

lemma find_by_filter:
  assumes "\<And>x. x \<in> set xs \<Longrightarrow> key x = i \<Longrightarrow> P x"
  shows "find_by key i (filter P xs) = find_by key i xs"
  using assms by (induction xs) auto

lemma find_by_sort_key:
  assumes "distinct (map key xs)"
  shows "find_by key i (sort_key h xs) = find_by key i xs"
proof -
  have "distinct (map key (sort_key h xs))"
    using assms by (simp add: distinct_map)
  then show ?thesis
    using assms find_by_distinct [of key "sort_key h xs" i] find_by_distinct [of key xs i]
    by (cases "find_by key i (sort_key h xs)"; cases "find_by key i xs") auto
qed

lemma holds_for_iff [simp]: "holds_for P xs \<longleftrightarrow> (\<exists>x \<in> set xs. P x)"
  by (auto simp: holds_for_def find_None_iff)

text \<open>The head of a query ordered by a key has the least key.\<close>

lemma sort_key_head:
  assumes "sort_key f xs = y # ys"
  shows "y \<in> set xs \<and> (\<forall>x \<in> set xs. f y \<le> f x)"
proof -
  have "set (y # ys) = set xs"
    using assms by (metis set_sort)
  moreover have "sorted (map f (y # ys))"
    using assms by (metis sorted_sort_key)
  ultimately show ?thesis by auto
qed

lemma sort_key_Nil_iff [simp]: "sort_key f xs = [] \<longleftrightarrow> xs = []"
  by (metis length_0_conv length_sort)

text \<open>Consecutive pages of an ordered query give back the whole query.\<close>

lemma page_concat:
  assumes "0 < l"
  shows "concat (map (\<lambda>k. page l (int k * l) xs) [0..<n]) = take (n * nat l) xs"
proof (induction n)
  case 0
  then show ?case by simp
next
  case (Suc n)
  have "nat (int n * l) = n * nat l"
    using assms by (simp add: nat_mult_distrib)
  then show ?case
    using Suc take_add [of "n * nat l" "nat l" xs] by (simp add: page_def add.commute)
qed

end
