(* ===== verification/Models.thy ===== *)
theory Models
  imports Prelude
begin

text \<open>
  The persistent data of \<^verbatim>\<open>app/db/models\<close>: one record per ORM class, with the columns in the
  order the class declares them (a column whose name is used by several tables carries the
  table's prefix), the enumerations of roles and booking states with their string values, the
  database as the lists of rows of its six tables, and the constraints the classes declare
  (primary keys, unique constraints, foreign keys).

  An instant is the number of microseconds since 0001-01-01T00:00 UTC, the value a
  \<open>DateTime(timezone=True)\<close> column holds. A price, \<open>Numeric(10, 2)\<close>, is a number of hundredths.
\<close>

section \<open>Enumerations\<close>

datatype user_role = CLIENT | SPECIALIST | ADMIN

fun role_value :: "user_role \<Rightarrow> string" where
  "role_value CLIENT = ''client''"
| "role_value SPECIALIST = ''specialist''"
| "role_value ADMIN = ''admin''"

datatype booking_status = CONFIRMED | CANCELLED | EXPIRED

fun status_value :: "booking_status \<Rightarrow> string" where
  "status_value CONFIRMED = ''confirmed''"
| "status_value CANCELLED = ''cancelled''"
| "status_value EXPIRED = ''expired''"

lemma role_value_inject [simp]: "role_value r = role_value r' \<longleftrightarrow> r = r'"
  by (cases r; cases r') auto

section \<open>Rows\<close>

type_synonym instant = int

record user =
  u_id :: int
  email :: string
  hashed_password :: string
  role :: user_role
  is_active :: bool
  u_created_at :: instant

record specialist_profile =
  sp_id :: int
  sp_user_id :: int
  display_name :: string
  sp_description :: "string option"
  sp_created_at :: instant

record service =
  sv_id :: int
  sv_specialist_id :: int
  title :: string
  sv_description :: "string option"
  duration_minutes :: int
  price :: int
  sv_created_at :: instant

record time_slot =
  ts_id :: int
  specialist_id :: int
  start_at :: instant
  end_at :: instant
  is_booked :: bool
  ts_created_at :: instant

record booking =
  b_id :: int
  slot_id :: int
  client_id :: int
  idempotency_key :: "string option"
  status :: booking_status
  b_created_at :: instant
  cancelled_at :: "instant option"

record wait_list_entry =
  w_id :: int
  w_slot_id :: int
  w_client_id :: int
  w_created_at :: instant

text \<open>\<open>Booking.cancel\<close>: the status and the time of the cancellation are written together.\<close>

definition cancel :: "instant \<Rightarrow> booking \<Rightarrow> booking" where
  "cancel t b = b\<lparr>status := CANCELLED, cancelled_at := Some t\<rparr>"

lemma cancel_fields [simp]:
  "b_id (cancel t b) = b_id b" "slot_id (cancel t b) = slot_id b"
  "client_id (cancel t b) = client_id b" "idempotency_key (cancel t b) = idempotency_key b"
  "status (cancel t b) = CANCELLED" "cancelled_at (cancel t b) = Some t"
  by (simp_all add: cancel_def)

section \<open>The order of the wait list\<close>

text \<open>
  \<open>order_by(WaitListEntry.created_at, WaitListEntry.id)\<close>: entries compare by their time of
  creation, then by their id. The key is a type of its own with this order as its \<open>linorder\<close>.
\<close>

datatype queue_key = Queue_Key (qk_created_at: instant) (qk_id: int)

instantiation queue_key :: linorder
begin

definition less_eq_queue_key :: "queue_key \<Rightarrow> queue_key \<Rightarrow> bool" where
  "less_eq_queue_key a b \<longleftrightarrow>
     qk_created_at a < qk_created_at b \<or> (qk_created_at a = qk_created_at b \<and> qk_id a \<le> qk_id b)"

definition less_queue_key :: "queue_key \<Rightarrow> queue_key \<Rightarrow> bool" where
  "less_queue_key a b \<longleftrightarrow>
     qk_created_at a < qk_created_at b \<or> (qk_created_at a = qk_created_at b \<and> qk_id a < qk_id b)"

instance
  by standard (auto simp: less_eq_queue_key_def less_queue_key_def queue_key.expand)

end

definition queue_key :: "wait_list_entry \<Rightarrow> queue_key" where
  "queue_key w = Queue_Key (w_created_at w) (w_id w)"

lemma queue_key_less [simp]:
  "queue_key v < queue_key w \<longleftrightarrow>
     w_created_at v < w_created_at w \<or> (w_created_at v = w_created_at w \<and> w_id v < w_id w)"
  by (simp add: less_queue_key_def queue_key_def)

lemma queue_key_less_eq [simp]:
  "queue_key v \<le> queue_key w \<longleftrightarrow>
     w_created_at v < w_created_at w \<or> (w_created_at v = w_created_at w \<and> w_id v \<le> w_id w)"
  by (simp add: less_eq_queue_key_def queue_key_def)

section \<open>The database and its constraints\<close>

record db =
  users :: "user list"
  specialist_profiles :: "specialist_profile list"
  services :: "service list"
  time_slots :: "time_slot list"
  bookings :: "booking list"
  wait_list_entries :: "wait_list_entry list"

definition empty_db :: db where
  "empty_db = \<lparr>users = [], specialist_profiles = [], services = [], time_slots = [],
     bookings = [], wait_list_entries = []\<rparr>"

text \<open>
  \<open>UniqueConstraint("client_id", "idempotency_key")\<close>: rows whose key is NULL never clash.
\<close>

fun idempotency_pairs :: "booking list \<Rightarrow> (int \<times> string) list" where
  "idempotency_pairs [] = []"
| "idempotency_pairs (b # bs) =
     (case idempotency_key b of None \<Rightarrow> idempotency_pairs bs
      | Some k \<Rightarrow> (client_id b, k) # idempotency_pairs bs)"

definition unique_ok :: "db \<Rightarrow> bool" where
  "unique_ok d \<longleftrightarrow>
     distinct (map u_id (users d)) \<and> distinct (map email (users d)) \<and>
     distinct (map sp_id (specialist_profiles d)) \<and>
     distinct (map sp_user_id (specialist_profiles d)) \<and>
     distinct (map sv_id (services d)) \<and>
     distinct (map ts_id (time_slots d)) \<and>
     distinct (map b_id (bookings d)) \<and> distinct (idempotency_pairs (bookings d)) \<and>
     distinct (map w_id (wait_list_entries d)) \<and>
     distinct (map (\<lambda>w. (w_slot_id w, w_client_id w)) (wait_list_entries d))"

definition references_ok :: "db \<Rightarrow> bool" where
  "references_ok d \<longleftrightarrow>
     list_all (\<lambda>p. sp_user_id p \<in> set (map u_id (users d))) (specialist_profiles d) \<and>
     list_all (\<lambda>v. sv_specialist_id v \<in> set (map sp_id (specialist_profiles d))) (services d) \<and>
     list_all (\<lambda>t. specialist_id t \<in> set (map sp_id (specialist_profiles d))) (time_slots d) \<and>
     list_all (\<lambda>b. slot_id b \<in> set (map ts_id (time_slots d))) (bookings d) \<and>
     list_all (\<lambda>b. client_id b \<in> set (map u_id (users d))) (bookings d) \<and>
     list_all (\<lambda>w. w_slot_id w \<in> set (map ts_id (time_slots d))) (wait_list_entries d) \<and>
     list_all (\<lambda>w. w_client_id w \<in> set (map u_id (users d))) (wait_list_entries d)"

definition schema_ok :: "db \<Rightarrow> bool" where
  "schema_ok d \<longleftrightarrow> unique_ok d \<and> references_ok d"

lemmas schema_defs = schema_ok_def unique_ok_def references_ok_def

lemma schema_ok_empty [simp]: "schema_ok empty_db"
  by (simp add: schema_defs empty_db_def)

lemma schema_ok_distinct:
  assumes "schema_ok d"
  shows "distinct (map u_id (users d))" "distinct (map email (users d))"
    "distinct (map sp_id (specialist_profiles d))"
    "distinct (map sp_user_id (specialist_profiles d))" "distinct (map sv_id (services d))"
    "distinct (map ts_id (time_slots d))" "distinct (map b_id (bookings d))"
    "distinct (idempotency_pairs (bookings d))" "distinct (map w_id (wait_list_entries d))"
    "distinct (map (\<lambda>w. (w_slot_id w, w_client_id w)) (wait_list_entries d))"
  using assms by (simp_all add: schema_defs)

lemma schema_ok_references:
  assumes "schema_ok d"
  shows "b \<in> set (bookings d) \<Longrightarrow> slot_id b \<in> ts_id ` set (time_slots d)"
    "b \<in> set (bookings d) \<Longrightarrow> client_id b \<in> u_id ` set (users d)"
    "w \<in> set (wait_list_entries d) \<Longrightarrow> w_slot_id w \<in> ts_id ` set (time_slots d)"
    "w \<in> set (wait_list_entries d) \<Longrightarrow> w_client_id w \<in> u_id ` set (users d)"
    "t \<in> set (time_slots d) \<Longrightarrow> specialist_id t \<in> sp_id ` set (specialist_profiles d)"
    "p \<in> set (specialist_profiles d) \<Longrightarrow> sp_user_id p \<in> u_id ` set (users d)"
  using assms by (auto simp: schema_defs list_all_iff)

lemma idempotency_pairs_append [row_simps]:
  "idempotency_pairs (bs @ cs) = idempotency_pairs bs @ idempotency_pairs cs"
  by (induction bs) (auto split: option.splits)

lemma set_idempotency_pairs:
  "set (idempotency_pairs bs) = {(client_id b, k) | b k. b \<in> set bs \<and> idempotency_key b = Some k}"
  by (induction bs) (auto split: option.splits)

lemma idempotency_pairs_update_by [row_simps]:
  assumes "\<And>b. client_id (f b) = client_id b" "\<And>b. idempotency_key (f b) = idempotency_key b"
  shows "idempotency_pairs (update_by key i f bs) = idempotency_pairs bs"
  using assms by (induction bs) (auto split: option.splits)

end
