(* ===== verification/Session.thy ===== *)
theory Session
  imports Models
begin

text \<open>
  Database sessions (\<^verbatim>\<open>app/db/session.py\<close>) and what a call of the program gets from outside.

  A session sees the committed rows plus its own pending changes: \<open>committed\<close> is the database as
  other sessions see it, \<open>current\<close> is what this transaction has made of it. The factory is
  \<open>sessionmaker(autocommit=False, autoflush=False)\<close>: nothing becomes permanent before
  \<open>commit\<close>, and \<open>get_db\<close> closes the session whatever happens, which drops pending changes.
  \<open>commit\<close> and \<open>flush\<close> raise \<open>IntegrityError\<close> when the constraints of the models fail.
\<close>

section \<open>What the environment decides\<close>

text \<open>
  \<open>postgresql\<close>: the dialect of the engine. \<open>now\<close>: the value of \<open>datetime.now(UTC)\<close> in this call.
  \<open>generated\<close>: the columns the server fills for a row inserted into a table, its \<open>id\<close> and its
  \<open>created_at\<close>, given the ids the table holds. \<open>fault\<close>: whether a statement of a service that
  handles driver errors fails with an \<open>OperationalError\<close>, and the error it carries; the
  argument of the locking statements tells if they say \<open>FOR UPDATE NOWAIT\<close>.
\<close>

datatype db_table = Users | Specialist_Profiles | Services | Time_Slots | Bookings | Wait_List

datatype statement =
    Select_Idempotency | Select_Slot bool | Update_Slot | Reselect_Idempotency | Commit | Refresh
  | Handler_Select_Idempotency | Select_Booking bool | Select_Slots bool

record env =
  postgresql :: bool
  now :: instant
  generated :: "db_table \<Rightarrow> int list \<Rightarrow> int \<times> instant"
  fault :: "statement \<Rightarrow> driver_error option option"

text \<open>
  What the code relies on of generated ids: a new id is not used in the table, and it is positive
  (an \<open>Identity()\<close> column starts at 1).
\<close>

definition generated_ok :: "env \<Rightarrow> bool" where
  "generated_ok e \<longleftrightarrow> (\<forall>t ids. fst (generated e t ids) \<notin> set ids \<and> 0 < fst (generated e t ids))"

lemma generated_fresh: "generated_ok e \<Longrightarrow> fst (generated e t ids) \<notin> set ids"
  by (simp add: generated_ok_def)

lemma generated_positive: "generated_ok e \<Longrightarrow> 0 < fst (generated e t ids)"
  by (simp add: generated_ok_def)

definition no_faults :: "env \<Rightarrow> bool" where
  "no_faults e \<longleftrightarrow> (\<forall>st. fault e st = None)"

section \<open>Sessions\<close>

record session =
  committed :: db
  current :: db

definition open_session :: "db \<Rightarrow> session" where
  "open_session d = \<lparr>committed = d, current = d\<rparr>"

definition modify :: "(db \<Rightarrow> db) \<Rightarrow> session \<Rightarrow> session" where
  "modify f s = s\<lparr>current := f (current s)\<rparr>"

definition flush :: "session \<Rightarrow> unit res \<times> session" where
  "flush s = (if schema_ok (current s) then (Inr (), s) else (Inl IntegrityError, s))"

definition commit :: "session \<Rightarrow> unit res \<times> session" where
  "commit s = (if schema_ok (current s) then (Inr (), s\<lparr>committed := current s\<rparr>)
     else (Inl IntegrityError, s))"

definition rollback :: "session \<Rightarrow> session" where
  "rollback s = s\<lparr>current := committed s\<rparr>"

text \<open>\<open>get_db\<close>: a new session for the request, closed in the \<open>finally\<close> clause.\<close>

definition get_db :: "(session \<Rightarrow> 'a res \<times> session) \<Rightarrow> db \<Rightarrow> 'a res \<times> db" where
  "get_db handler d = (case handler (open_session d) of (r, s) \<Rightarrow> (r, committed s))"

lemma session_simps [simp]:
  "committed (open_session d) = d" "current (open_session d) = d"
  "committed (modify f s) = committed s" "current (modify f s) = f (current s)"
  "committed (rollback s) = committed s" "current (rollback s) = committed s"
  by (simp_all add: open_session_def modify_def rollback_def)

lemma get_db_open: "handler (open_session d) = (r, open_session d') \<Longrightarrow> get_db handler d = (r, d')"
  by (simp add: get_db_def)

lemma get_db_result: "handler (open_session d) = (r, s') \<Longrightarrow> get_db handler d = (r, committed s')"
  by (simp add: get_db_def)

lemma open_session_inject [simp]: "open_session d = open_session d' \<longleftrightarrow> d = d'"
  by (auto simp: open_session_def)

lemma rollback_open [simp]: "rollback (open_session d) = open_session d"
  by (simp add: rollback_def open_session_def)

lemma rollback_modify [simp]: "rollback (modify f s) = rollback s"
  by (simp add: rollback_def modify_def)

lemma commit_ok: "schema_ok (current s) \<Longrightarrow> commit s = (Inr (), open_session (current s))"
  by (simp add: commit_def open_session_def)

lemma commit_bad: "\<not> schema_ok (current s) \<Longrightarrow> commit s = (Inl IntegrityError, s)"
  by (simp add: commit_def)

text \<open>A statement that the driver may refuse: the rest of the code runs when it does not.\<close>

definition exec :: "env \<Rightarrow> statement \<Rightarrow> session \<Rightarrow> (session \<Rightarrow> 'a res \<times> session) \<Rightarrow> 'a res \<times> session"
  where "exec e st s k = (case fault e st of Some orig \<Rightarrow> (Inl (OperationalError orig), s) | None \<Rightarrow> k s)"

lemma exec_simps [simp]:
  "fault e st = None \<Longrightarrow> exec e st s k = k s"
  "fault e st = Some o' \<Longrightarrow> exec e st s k = (Inl (OperationalError o'), s)"
  by (simp_all add: exec_def)

text \<open>A session with nothing pending is the session opened on what is committed.\<close>

lemma session_clean: "current s = committed s \<Longrightarrow> s = open_session (committed s)"
  by (simp add: open_session_def)

section \<open>Writes that several components make\<close>

text \<open>
  \<open>slot.is_booked = v\<close> and a change of a loaded booking, as the \<open>UPDATE\<close> by primary key that the
  next flush sends.
\<close>

definition set_booked :: "int \<Rightarrow> bool \<Rightarrow> db \<Rightarrow> db" where
  "set_booked slot v d =
     d\<lparr>time_slots := update_by ts_id slot (\<lambda>t. t\<lparr>is_booked := v\<rparr>) (time_slots d)\<rparr>"

definition update_booking :: "int \<Rightarrow> (booking \<Rightarrow> booking) \<Rightarrow> db \<Rightarrow> db" where
  "update_booking i f d = d\<lparr>bookings := update_by b_id i f (bookings d)\<rparr>"

lemma set_booked_fields [simp]:
  "users (set_booked i v d) = users d"
  "specialist_profiles (set_booked i v d) = specialist_profiles d"
  "services (set_booked i v d) = services d"
  "time_slots (set_booked i v d) = update_by ts_id i (\<lambda>t. t\<lparr>is_booked := v\<rparr>) (time_slots d)"
  "bookings (set_booked i v d) = bookings d"
  "wait_list_entries (set_booked i v d) = wait_list_entries d"
  by (simp_all add: set_booked_def)

lemma update_booking_fields [simp]:
  "users (update_booking i f d) = users d"
  "specialist_profiles (update_booking i f d) = specialist_profiles d"
  "services (update_booking i f d) = services d"
  "time_slots (update_booking i f d) = time_slots d"
  "bookings (update_booking i f d) = update_by b_id i f (bookings d)"
  "wait_list_entries (update_booking i f d) = wait_list_entries d"
  by (simp_all add: update_booking_def)

lemma set_booked_slot_ids [simp]:
  "map ts_id (update_by ts_id i (\<lambda>t. t\<lparr>is_booked := v\<rparr>) ts) = map ts_id ts"
  "map specialist_id (update_by ts_id i (\<lambda>t. t\<lparr>is_booked := v\<rparr>) ts) = map specialist_id ts"
  "ts_id ` set (update_by ts_id i (\<lambda>t. t\<lparr>is_booked := v\<rparr>) ts) = ts_id ` set ts"
proof -
  show ids: "map ts_id (update_by ts_id i (\<lambda>t. t\<lparr>is_booked := v\<rparr>) ts) = map ts_id ts" for ts
    by (rule map_update_by) simp
  show "map specialist_id (update_by ts_id i (\<lambda>t. t\<lparr>is_booked := v\<rparr>) ts) = map specialist_id ts"
    by (rule map_update_by) simp
  show "ts_id ` set (update_by ts_id i (\<lambda>t. t\<lparr>is_booked := v\<rparr>) ts) = ts_id ` set ts"
    by (metis ids set_map)
qed

lemma schema_ok_set_booked [simp]: "schema_ok (set_booked i v d) = schema_ok d"
proof -
  have "list_all (\<lambda>t. specialist_id t \<in> X) (update_by ts_id i (\<lambda>t. t\<lparr>is_booked := v\<rparr>) ts)
      = list_all (\<lambda>t. specialist_id t \<in> X) ts" for X and ts :: "time_slot list"
    by (induction ts) auto
  then show ?thesis
    by (simp add: schema_defs)
qed

lemma find_slot_set_booked [simp]:
  "find_by ts_id j (update_by ts_id i (\<lambda>t. t\<lparr>is_booked := v\<rparr>) ts)
    = (if j = i then map_option (\<lambda>t. t\<lparr>is_booked := v\<rparr>) (find_by ts_id j ts) else find_by ts_id j ts)"
  by (rule find_by_update_by) simp

text \<open>
  A change of a booking that keeps its id, its client and its key keeps the constraints, provided
  its new slot exists.
\<close>

lemma schema_ok_update_booking:
  assumes "schema_ok d"
    and keep: "\<And>b. b_id (f b) = b_id b" "\<And>b. client_id (f b) = client_id b"
      "\<And>b. idempotency_key (f b) = idempotency_key b"
    and slot: "\<And>b. b \<in> set (bookings d) \<Longrightarrow> b_id b = i \<Longrightarrow> slot_id (f b) \<in> ts_id ` set (time_slots d)"
  shows "schema_ok (update_booking i f d)"
  using assms(1) slot schema_ok_references(1,2) [OF assms(1)]
  by (auto simp: schema_defs map_update_by idempotency_pairs_update_by keep list_all_iff set_update_by)

section \<open>A contract for sequences of database operations\<close>

text \<open>
  Several components are lists of operations on the committed database. The contract: an
  operation keeps an invariant. Then so does every run, whatever the operations and their order.
\<close>

locale db_machine =
  fixes exec_op :: "'op \<Rightarrow> db \<Rightarrow> db" and good :: "db \<Rightarrow> bool"
  assumes exec_good: "good d \<Longrightarrow> good (exec_op q d)"
begin

lemma run_good: "good d \<Longrightarrow> good (fold exec_op qs d)"
  by (induction qs arbitrary: d) (auto intro: exec_good)

end

end
