(* ===== verification/Security.thy ===== *)
theory Security
  imports Config Session
begin

text \<open>
  \<^verbatim>\<open>app/core/security.py\<close> and \<^verbatim>\<open>app/api/deps.py\<close>: passwords, access tokens, the current user of a
  request and the check of roles. The libraries jose and passlib are not part of the repository:
  they are the record \<open>crypto\<close>, an argument of every definition that uses them, and what the code
  relies on are the predicates \<open>jwt_ok\<close> and \<open>passwords_ok\<close>. The type of tokens is a parameter.
\<close>

section \<open>The libraries\<close>

text \<open>
  A dictionary of claims is the list of its bindings, the last one of a key being in force.
  \<open>jwt_decode\<close> is \<open>None\<close> when the library raises \<open>JWTError\<close>. \<open>pwd_verify\<close> may raise, on a hash it
  does not recognise.
\<close>

datatype claim = Claim_Str string | Claim_Int int | Claim_Time instant | Claim_Null

type_synonym claims = "(string \<times> claim) list"

record 'tok crypto =
  jwt_encode :: "claims \<Rightarrow> string \<Rightarrow> string \<Rightarrow> 'tok"
  jwt_decode :: "instant \<Rightarrow> 'tok \<Rightarrow> string \<Rightarrow> string list \<Rightarrow> claims option"
  pwd_hash :: "string \<Rightarrow> string"
  pwd_verify :: "string \<Rightarrow> string \<Rightarrow> bool res"

text \<open>
  A token that has not expired and is decoded with the key and an algorithm list that has its
  algorithm gives back the claims that are strings.
\<close>

definition jwt_ok :: "'tok crypto \<Rightarrow> bool" where
  "jwt_ok c \<longleftrightarrow> (\<forall>claims key alg t expires subject.
     dict_of claims ''exp'' = Some (Claim_Time expires) \<and> dict_of claims ''sub'' = Some (Claim_Str subject) \<and>
     t \<le> expires \<longrightarrow>
     (\<exists>payload. jwt_decode c t (jwt_encode c claims key alg) key [alg] = Some payload \<and>
        (\<forall>k v. dict_of claims k = Some (Claim_Str v) \<longrightarrow> dict_of payload k = Some (Claim_Str v))))"

definition passwords_ok :: "'tok crypto \<Rightarrow> bool" where
  "passwords_ok c \<longleftrightarrow> (\<forall>p. pwd_verify c p (pwd_hash c p) = Inr True)"

section \<open>The code of \<^verbatim>\<open>security.py\<close>\<close>

definition get_password_hash :: "'tok crypto \<Rightarrow> string \<Rightarrow> string" where
  "get_password_hash c password = pwd_hash c password"

definition verify_password :: "'tok crypto \<Rightarrow> string \<Rightarrow> string \<Rightarrow> bool res" where
  "verify_password c plain_password hashed = pwd_verify c plain_password hashed"

definition create_access_token ::
  "'tok crypto \<Rightarrow> settings \<Rightarrow> env \<Rightarrow> string \<Rightarrow> claims option \<Rightarrow> 'tok" where
  "create_access_token c cfg e subject extra_claims =
     (let expires_delta = minutes (access_token_expire_minutes cfg);
          expire = now e + expires_delta;
          to_encode = [(''sub'', Claim_Str subject), (''exp'', Claim_Time expire)];
          to_encode = (case extra_claims of None \<Rightarrow> to_encode | Some extra \<Rightarrow> to_encode @ extra)
      in jwt_encode c to_encode (jwt_secret_key cfg) (jwt_algorithm cfg))"

definition decode_access_token :: "'tok crypto \<Rightarrow> settings \<Rightarrow> env \<Rightarrow> 'tok \<Rightarrow> claims res" where
  "decode_access_token c cfg e token =
     (case jwt_decode c (now e) token (jwt_secret_key cfg) [jwt_algorithm cfg] of
        None \<Rightarrow> Inl ValueError
      | Some payload \<Rightarrow> Inr payload)"

section \<open>The code of \<^verbatim>\<open>deps.py\<close>\<close>

text \<open>\<open>int(v)\<close> of a claim; a time has been turned into a number by the encoder.\<close>

fun int_of_claim :: "claim \<Rightarrow> int res" where
  "int_of_claim (Claim_Str v) = py_int v"
| "int_of_claim (Claim_Int i) = Inr i"
| "int_of_claim (Claim_Time t) = Inr (t div 1000000)"
| "int_of_claim Claim_Null = Inl TypeError"

definition unauthorized_exc :: py_exc where
  "unauthorized_exc =
     HTTPException 401 ''Could not validate credentials'' [(''WWW-Authenticate'', ''Bearer'')]"

definition token_user_id :: "'tok crypto \<Rightarrow> settings \<Rightarrow> env \<Rightarrow> 'tok \<Rightarrow> int res" where
  "token_user_id c cfg e token =
     res_bind (decode_access_token c cfg e token) (\<lambda>payload.
       int_of_claim (case dict_of payload ''sub'' of None \<Rightarrow> Claim_Str [] | Some v \<Rightarrow> v))"

definition get_current_user ::
  "'tok crypto \<Rightarrow> settings \<Rightarrow> env \<Rightarrow> 'tok \<Rightarrow> session \<Rightarrow> user res \<times> session" where
  "get_current_user c cfg e token s =
     (case token_user_id c cfg e token of
        Inl ValueError \<Rightarrow> (Inl unauthorized_exc, s)
      | Inl TypeError \<Rightarrow> (Inl unauthorized_exc, s)
      | Inl err \<Rightarrow> (Inl err, s)
      | Inr user_id \<Rightarrow>
        (case find_by u_id user_id (users (current s)) of
           None \<Rightarrow> (Inl unauthorized_exc, s)
         | Some u \<Rightarrow> if \<not> is_active u then (Inl unauthorized_exc, s) else (Inr u, s)))"

definition require_roles :: "user_role list \<Rightarrow> user \<Rightarrow> user res" where
  "require_roles roles current_user =
     (let allowed_roles = map role_value roles
      in if role_value (role current_user) \<notin> set allowed_roles
         then Inl (http 403 ''Not enough permissions'')
         else Inr current_user)"

text \<open>\<open>Depends(...)\<close>: the handler runs with the value of its dependency, in the same session.\<close>

definition depends :: "'a res \<Rightarrow> ('a \<Rightarrow> session \<Rightarrow> 'b res \<times> session) \<Rightarrow> session \<Rightarrow> 'b res \<times> session" where
  "depends r handler s = (case r of Inl err \<Rightarrow> (Inl err, s) | Inr a \<Rightarrow> handler a s)"

section \<open>What they guarantee\<close>

lemma depends_simps [simp]:
  "depends (Inl err) handler s = (Inl err, s)"
  "depends (Inr a) handler s = handler a s"
  by (simp_all add: depends_def)

lemma require_roles_eq:
  "require_roles roles u = (if role u \<in> set roles then Inr u else Inl (http 403 ''Not enough permissions''))"
proof -
  have "role_value (role u) \<in> role_value ` set roles \<longleftrightarrow> role u \<in> set roles"
    by auto
  then show ?thesis
    by (simp add: require_roles_def)
qed

lemma py_int_error: "py_int v = Inl err \<Longrightarrow> err = ValueError"
  by (auto simp: py_int_def split: option.splits)

lemma int_of_claim_error: "int_of_claim v = Inl err \<Longrightarrow> err = ValueError \<or> err = TypeError"
  by (cases v) (auto dest: py_int_error)

lemma token_user_id_error:
  assumes "token_user_id c cfg e token = Inl err"
  shows "err = ValueError \<or> err = TypeError"
  using assms int_of_claim_error
  by (auto simp: token_user_id_def decode_access_token_def split: option.splits)

text \<open>
  The current user is read from the database: any failure is the same 401, and the session is
  not changed.
\<close>

lemma get_current_user_eq:
  "get_current_user c cfg e token s =
     ((case token_user_id c cfg e token of
         Inl err \<Rightarrow> Inl unauthorized_exc
       | Inr i \<Rightarrow> (case find_by u_id i (users (current s)) of
           None \<Rightarrow> Inl unauthorized_exc
         | Some u \<Rightarrow> if is_active u then Inr u else Inl unauthorized_exc)), s)"
  using token_user_id_error [of c cfg e token]
  by (auto simp: get_current_user_def split: sum.splits option.splits)

lemma token_round_trip:
  assumes "jwt_ok c" and "now e' \<le> now e + minutes (access_token_expire_minutes cfg)"
    and "\<forall>k \<in> fst ` set extra. k \<noteq> ''sub'' \<and> k \<noteq> ''exp''"
  shows "token_user_id c cfg e' (create_access_token c cfg e (int_str i) (Some extra)) = Inr i"
proof -
  let ?claims = "[(''sub'', Claim_Str (int_str i)),
    (''exp'', Claim_Time (now e + minutes (access_token_expire_minutes cfg)))] @ extra"
  have other: "map_of (rev extra) k = None" if "k = ''sub'' \<or> k = ''exp''" for k
    using that assms(3) by (auto simp: map_of_eq_None_iff)
  then have "dict_of ?claims ''sub'' = Some (Claim_Str (int_str i))"
    "dict_of ?claims ''exp'' = Some (Claim_Time (now e + minutes (access_token_expire_minutes cfg)))"
    by (simp_all add: dict_of_def map_add_def)
  then obtain payload where
    "jwt_decode c (now e') (jwt_encode c ?claims (jwt_secret_key cfg) (jwt_algorithm cfg))
       (jwt_secret_key cfg) [jwt_algorithm cfg] = Some payload"
    "dict_of payload ''sub'' = Some (Claim_Str (int_str i))"
    using assms(1,2) unfolding jwt_ok_def by blast
  then show ?thesis
    by (simp add: token_user_id_def decode_access_token_def create_access_token_def Let_def)
qed

section \<open>An instance of the libraries\<close>

text \<open>Tokens that carry their claims and key, and hashes that are the passwords.\<close>

type_synonym plain_token = "claims \<times> string \<times> string"

definition plain_crypto :: "plain_token crypto" where
  "plain_crypto = \<lparr>
     jwt_encode = (\<lambda>claims key alg. (claims, key, alg)),
     jwt_decode = (\<lambda>t (claims, key', alg) key algs.
       if key = key' \<and> alg \<in> set algs \<and>
         (case dict_of claims ''exp'' of Some (Claim_Time x) \<Rightarrow> t \<le> x | _ \<Rightarrow> True)
       then Some claims else None),
     pwd_hash = (\<lambda>p. p), pwd_verify = (\<lambda>p h. Inr (p = h))\<rparr>"

lemma plain_crypto_ok [simp]: "jwt_ok plain_crypto" "passwords_ok plain_crypto"
  by (simp_all add: jwt_ok_def passwords_ok_def plain_crypto_def)

end
