(* ===== verification/Slot_Calendar.thy ===== *)
theory Slot_Calendar
  imports Session
begin

text \<open>
  What the tables mean: who holds a slot and who waits for it. A slot is held by the client of
  the confirmed booking on it; its queue is its wait list in order. \<open>exclusive\<close> says that the
  column \<open>is_booked\<close> tells the truth and that no slot has two confirmed bookings. The lemmas say
  how each write of the program changes these meanings; the services are verified over them.
\<close>

section \<open>Holders, queues and exclusivity\<close>

definition confirmed_on :: "int \<Rightarrow> db \<Rightarrow> booking list" where
  "confirmed_on s d = filter (\<lambda>b. slot_id b = s \<and> status b = CONFIRMED) (bookings d)"

definition holder_of :: "db \<Rightarrow> int \<Rightarrow> int option" where
  "holder_of d s = (case confirmed_on s d of [] \<Rightarrow> None | b # _ \<Rightarrow> Some (client_id b))"

definition slot_queue :: "int \<Rightarrow> db \<Rightarrow> wait_list_entry list" where
  "slot_queue s d = sort_key queue_key (filter (\<lambda>w. w_slot_id w = s) (wait_list_entries d))"

definition queue_of :: "db \<Rightarrow> int \<Rightarrow> int list" where
  "queue_of d s = map w_client_id (slot_queue s d)"

definition exclusive :: "db \<Rightarrow> bool" where
  "exclusive d \<longleftrightarrow>
     list_all (\<lambda>t. length (confirmed_on (ts_id t) d) = (if is_booked t then 1 else 0)) (time_slots d)"

text \<open>The half of it that survives everything: a booked slot has a confirmed booking.\<close>

definition backed :: "db \<Rightarrow> bool" where
  "backed d \<longleftrightarrow> list_all (\<lambda>t. is_booked t \<longrightarrow> confirmed_on (ts_id t) d \<noteq> []) (time_slots d)"

lemma exclusiveI:
  assumes "schema_ok d"
    and "\<And>s t. find_by ts_id s (time_slots d) = Some t \<Longrightarrow>
      length (confirmed_on s d) = (if is_booked t then 1 else 0)"
  shows "exclusive d"
  using assms by (auto simp: exclusive_def list_all_iff find_by_distinct schema_ok_distinct)

lemma exclusiveD:
  "exclusive d \<Longrightarrow> find_by ts_id s (time_slots d) = Some t \<Longrightarrow>
    length (confirmed_on s d) = (if is_booked t then 1 else 0)"
  by (force simp: exclusive_def list_all_iff dest: find_by_SomeD)

lemma backedI:
  assumes "schema_ok d"
    and "\<And>s t. find_by ts_id s (time_slots d) = Some t \<Longrightarrow> is_booked t \<Longrightarrow> confirmed_on s d \<noteq> []"
  shows "backed d"
  using assms by (auto simp: backed_def list_all_iff find_by_distinct schema_ok_distinct)

lemma backedD:
  "backed d \<Longrightarrow> find_by ts_id s (time_slots d) = Some t \<Longrightarrow> is_booked t \<Longrightarrow> confirmed_on s d \<noteq> []"
  by (force simp: backed_def list_all_iff dest: find_by_SomeD)

lemma exclusive_backed: "exclusive d \<Longrightarrow> backed d"
  by (auto simp: exclusive_def backed_def list_all_iff split: if_splits)

lemma mem_confirmed_on [simp]:
  "b \<in> set (confirmed_on s d) \<longleftrightarrow> b \<in> set (bookings d) \<and> slot_id b = s \<and> status b = CONFIRMED"
  by (auto simp: confirmed_on_def)

text \<open>Under exclusivity \<open>is_booked\<close> is \<open>holder \<noteq> None\<close>, and one booking is the reason.\<close>

lemma exclusive_holder:
  assumes "exclusive d" and "find_by ts_id s (time_slots d) = Some t"
  shows "is_booked t \<longleftrightarrow> holder_of d s \<noteq> None"
  using exclusiveD [OF assms] by (cases "confirmed_on s d") (auto simp: holder_of_def split: if_splits)

lemma exclusive_free:
  assumes "exclusive d" and "find_by ts_id s (time_slots d) = Some t" and "\<not> is_booked t"
  shows "confirmed_on s d = []"
  using exclusiveD [OF assms(1,2)] assms(3) by simp

lemma exclusive_single:
  assumes "exclusive d" and "schema_ok d"
    and "b \<in> set (bookings d)" "status b = CONFIRMED"
  shows "confirmed_on (slot_id b) d = [b]"
proof -
  have "slot_id b \<in> ts_id ` set (time_slots d)"
    using schema_ok_references(1) [OF assms(2,3)] .
  then obtain t where t: "find_by ts_id (slot_id b) (time_slots d) = Some t"
    by (metis find_by_mem_None not_None_eq)
  have mem: "b \<in> set (confirmed_on (slot_id b) d)"
    using assms(3,4) by simp
  then show ?thesis
    using exclusiveD [OF assms(1) t] by (cases "confirmed_on (slot_id b) d") (auto split: if_splits)
qed

section \<open>How writes change the meaning\<close>

lemma confirmed_on_set_booked [simp]: "confirmed_on s (set_booked i v d) = confirmed_on s d"
  by (simp add: confirmed_on_def)

lemma holder_of_set_booked [simp]: "holder_of (set_booked i v d) = holder_of d"
  by (simp add: holder_of_def fun_eq_iff)

lemma slot_queue_cong: "wait_list_entries d = wait_list_entries d' \<Longrightarrow> slot_queue s d = slot_queue s d'"
  by (simp add: slot_queue_def)

lemma queue_of_cong: "wait_list_entries d = wait_list_entries d' \<Longrightarrow> queue_of d = queue_of d'"
  by (simp add: queue_of_def slot_queue_def fun_eq_iff)

lemma queue_of_set_booked [simp]: "queue_of (set_booked i v d) = queue_of d"
  by (rule queue_of_cong) simp

lemma queue_of_update_booking [simp]: "queue_of (update_booking i f d) = queue_of d"
  by (rule queue_of_cong) simp

lemma confirmed_on_cong: "bookings d = bookings d' \<Longrightarrow> confirmed_on s d = confirmed_on s d'"
  by (simp add: confirmed_on_def)

text \<open>A booking that stops being confirmed leaves its slot; every other booking stays.\<close>

lemma confirmed_on_drop:
  assumes "\<And>b. b_id (f b) = b_id b" and "\<And>b. status (f b) \<noteq> CONFIRMED"
  shows "confirmed_on s (update_booking i f d) = filter (\<lambda>b. b_id b \<noteq> i) (confirmed_on s d)"
proof -
  have "filter (\<lambda>b. slot_id b = s \<and> status b = CONFIRMED) (update_by b_id i f bs)
      = filter (\<lambda>b. b_id b \<noteq> i) (filter (\<lambda>b. slot_id b = s \<and> status b = CONFIRMED) bs)" for bs
    using assms by (induction bs) auto
  then show ?thesis
    by (simp add: confirmed_on_def)
qed

text \<open>A booking that is not confirmed and stays so changes nothing.\<close>

lemma confirmed_on_unconfirmed:
  assumes "\<And>b. b \<in> set (bookings d) \<Longrightarrow> b_id b = i \<Longrightarrow> status b \<noteq> CONFIRMED \<and> status (f b) \<noteq> CONFIRMED"
  shows "confirmed_on s (update_booking i f d) = confirmed_on s d"
  using assms by (auto simp: confirmed_on_def intro: filter_update_by_same)

text \<open>A confirmed booking that moves to a slot nobody holds.\<close>

lemma confirmed_on_move:
  assumes "schema_ok d" and "find_by b_id i (bookings d) = Some b" and "status b = CONFIRMED"
    and "confirmed_on n d = []"
  shows "confirmed_on s (update_booking i (\<lambda>b. b\<lparr>slot_id := n\<rparr>) d)
    = (if s = n then [b\<lparr>slot_id := n\<rparr>] else filter (\<lambda>b. b_id b \<noteq> i) (confirmed_on s d))"
proof -
  let ?P = "\<lambda>s b. slot_id b = s \<and> status b = CONFIRMED"
  let ?f = "\<lambda>b::booking. b\<lparr>slot_id := n\<rparr>"
  have other: "s \<noteq> n \<Longrightarrow> filter (?P s) (update_by b_id i ?f bs)
      = filter (\<lambda>b. b_id b \<noteq> i) (filter (?P s) bs)" for bs
    by (induction bs) auto
  have here: "distinct (map b_id bs) \<Longrightarrow> find_by b_id i bs = Some b \<Longrightarrow> filter (?P n) bs = [] \<Longrightarrow>
      filter (?P n) (update_by b_id i ?f bs) = [?f b]" for bs
  proof (induction bs)
    case Nil
    then show ?case by simp
  next
    case (Cons c bs)
    show ?case
    proof (cases "b_id c = i")
      case True
      then have "find_by b_id i bs = None"
        using Cons.prems by (auto simp: find_by_mem_None)
      then show ?thesis
        using True Cons.prems assms(3) by (auto simp: update_by_absent split: if_splits)
    next
      case False
      then show ?thesis
        using Cons by (auto split: if_splits)
    qed
  qed
  show ?thesis
    using other here assms schema_ok_distinct(7) [OF assms(1)]
    by (auto simp: confirmed_on_def)
qed

section \<open>Times of the slots\<close>

text \<open>
  The intervals of the slots, which bookings never change: every slot ends after it starts and
  the slots of one specialist do not overlap.
\<close>

definition overlaps :: "time_slot \<Rightarrow> time_slot \<Rightarrow> bool" where
  "overlaps t u \<longleftrightarrow> specialist_id t = specialist_id u \<and> start_at t < end_at u \<and> start_at u < end_at t"

definition slots_disjoint :: "db \<Rightarrow> bool" where
  "slots_disjoint d \<longleftrightarrow>
     list_all (\<lambda>t. start_at t < end_at t) (time_slots d) \<and>
     list_all (\<lambda>t. list_all (\<lambda>u. ts_id t \<noteq> ts_id u \<longrightarrow> \<not> overlaps t u) (time_slots d)) (time_slots d)"

lemma slots_disjoint_set_booked [simp]: "slots_disjoint (set_booked i v d) = slots_disjoint d"
  by (simp add: slots_disjoint_def list_all_update_by overlaps_def)

lemma slots_disjoint_cong: "time_slots d = time_slots d' \<Longrightarrow> slots_disjoint d = slots_disjoint d'"
  by (simp add: slots_disjoint_def)

lemma slots_disjoint_update_booking [simp]: "slots_disjoint (update_booking i f d) = slots_disjoint d"
  by (rule slots_disjoint_cong) simp

section \<open>The invariant and the contract of an operation\<close>

text \<open>
  \<open>base_inv\<close> holds in every state the program can reach; \<open>exclusive\<close> holds as long as every call
  is \<open>safe\<close>. An operation of the service takes the committed database to an outcome and the next
  committed database; its contract is that it keeps both.
\<close>

definition base_inv :: "db \<Rightarrow> bool" where
  "base_inv d \<longleftrightarrow> schema_ok d \<and> slots_disjoint d \<and> backed d"

lemma base_inv_schema: "base_inv d \<Longrightarrow> schema_ok d"
  by (simp add: base_inv_def)

locale calendar_op =
  fixes serve :: "env \<Rightarrow> 'a \<Rightarrow> db \<Rightarrow> 'r res \<times> db" and safe :: "'a \<Rightarrow> db \<Rightarrow> bool"
  assumes keeps_base: "base_inv d \<Longrightarrow> base_inv (snd (serve e a d))"
    and keeps_exclusive: "base_inv d \<Longrightarrow> exclusive d \<Longrightarrow> safe a d \<Longrightarrow> exclusive (snd (serve e a d))"
begin

lemma keeps_both:
  "base_inv d \<and> exclusive d \<Longrightarrow> safe a d \<Longrightarrow>
    base_inv (snd (serve e a d)) \<and> exclusive (snd (serve e a d))"
  using keeps_base keeps_exclusive by blast

text \<open>After a safe call a slot is free for booking exactly when nobody holds it.\<close>

lemma booked_iff_held:
  assumes "base_inv d" "exclusive d" "safe a d"
    and "find_by ts_id s (time_slots (snd (serve e a d))) = Some t"
  shows "is_booked t \<longleftrightarrow> holder_of (snd (serve e a d)) s \<noteq> None"
  using exclusive_holder [OF keeps_exclusive [OF assms(1-3)] assms(4)] .

end

section \<open>The two writes of a booking\<close>

text \<open>Adding a confirmed booking to a slot that becomes booked, and freeing a slot.\<close>

lemma take_slot_exclusive:
  assumes "exclusive d" and "schema_ok d'" and "find_by ts_id s (time_slots d) = Some t"
    and "\<not> is_booked t"
    and "time_slots d' = time_slots (set_booked s True d)"
    and "confirmed_on s d' = [b]"
    and "\<And>u. u \<noteq> s \<Longrightarrow> length (confirmed_on u d') = length (confirmed_on u d)"
  shows "exclusive d'"
proof (rule exclusiveI [OF assms(2)])
  fix u v
  assume v: "find_by ts_id u (time_slots d') = Some v"
  show "length (confirmed_on u d') = (if is_booked v then 1 else 0)"
  proof (cases "u = s")
    case True
    then show ?thesis
      using v assms(3,5,6) by (auto split: if_splits)
  next
    case False
    then have "find_by ts_id u (time_slots d) = Some v"
      using v assms(5) by simp
    then show ?thesis
      using exclusiveD [OF assms(1)] assms(7) [OF False] by simp
  qed
qed

lemma free_slot_exclusive:
  assumes "exclusive d" and "schema_ok d'"
    and "time_slots d' = time_slots (set_booked s False d)"
    and "confirmed_on s d' = []"
    and "\<And>u. u \<noteq> s \<Longrightarrow> length (confirmed_on u d') = length (confirmed_on u d)"
  shows "exclusive d'"
proof (rule exclusiveI [OF assms(2)])
  fix u v
  assume v: "find_by ts_id u (time_slots d') = Some v"
  show "length (confirmed_on u d') = (if is_booked v then 1 else 0)"
  proof (cases "u = s")
    case True
    then show ?thesis
      using v assms(3,4) by (auto split: if_splits)
  next
    case False
    then have "find_by ts_id u (time_slots d) = Some v"
      using v assms(3) by simp
    then show ?thesis
      using exclusiveD [OF assms(1)] assms(5) [OF False] by simp
  qed
qed

lemma take_slot_backed:
  assumes "backed d" and "schema_ok d'"
    and "time_slots d' = time_slots (set_booked s True d)"
    and "confirmed_on s d' \<noteq> []"
    and "\<And>u. u \<noteq> s \<Longrightarrow> confirmed_on u d \<noteq> [] \<Longrightarrow> confirmed_on u d' \<noteq> []"
  shows "backed d'"
proof (rule backedI [OF assms(2)])
  fix u v
  assume "find_by ts_id u (time_slots d') = Some v" "is_booked v"
  then show "confirmed_on u d' \<noteq> []"
    using assms backedD [OF assms(1)] by (auto split: if_splits)
qed

lemma free_slot_backed:
  assumes "backed d" and "schema_ok d'"
    and "time_slots d' = time_slots (set_booked s False d)"
    and "\<And>u. u \<noteq> s \<Longrightarrow> confirmed_on u d \<noteq> [] \<Longrightarrow> confirmed_on u d' \<noteq> []"
  shows "backed d'"
proof (rule backedI [OF assms(2)])
  fix u v
  assume "find_by ts_id u (time_slots d') = Some v" "is_booked v"
  then show "confirmed_on u d' \<noteq> []"
    using assms backedD [OF assms(1)] by (auto split: if_splits)
qed

end
