(* ===== verification/Auth_Service.thy ===== *)
theory Auth_Service
  imports Security Slot_Calendar
begin

text \<open>
  \<^verbatim>\<open>app/services/auth_service.py\<close>: registration and login over the users table. Addresses are stored
  in lower case, which makes the unique column case-insensitive.
\<close>

section \<open>The code\<close>

record register_request =
  rq_email :: string
  rq_password :: string
  rq_role :: user_role

record login_request =
  lq_email :: string
  lq_password :: string

record 'tok token_response =
  access_token :: 'tok
  token_type :: string

definition EMAIL_EXISTS :: py_exc where
  "EMAIL_EXISTS = http 409 ''User with this email already exists''"

definition INVALID_LOGIN :: py_exc where
  "INVALID_LOGIN = http 401 ''Invalid email or password''"

definition new_user :: "'tok crypto \<Rightarrow> env \<Rightarrow> register_request \<Rightarrow> db \<Rightarrow> user" where
  "new_user c e payload d =
     (let g = generated e Users (map u_id (users d))
      in \<lparr>u_id = fst g, email = py_lower (rq_email payload),
          hashed_password = get_password_hash c (rq_password payload),
          role = rq_role payload, is_active = True, u_created_at = snd g\<rparr>)"

definition add_user :: "user \<Rightarrow> db \<Rightarrow> db" where
  "add_user u d = d\<lparr>users := users d @ [u]\<rparr>"

definition register_user ::
  "'tok crypto \<Rightarrow> env \<Rightarrow> register_request \<Rightarrow> session \<Rightarrow> user res \<times> session" where
  "register_user c e payload s =
     (let mail = py_lower (rq_email payload)
      in case find_by email mail (users (current s)) of
           Some _ \<Rightarrow> (Inl EMAIL_EXISTS, s)
         | None \<Rightarrow>
           (let u = new_user c e payload (current s);
                s = modify (add_user u) s
            in case commit s of
                 (Inl IntegrityError, s) \<Rightarrow> (let s = rollback s in (Inl EMAIL_EXISTS, s))
               | (Inl err, s) \<Rightarrow> (Inl err, s)
               | (Inr _, s) \<Rightarrow> (Inr u, s)))"

definition login_user ::
  "'tok crypto \<Rightarrow> settings \<Rightarrow> env \<Rightarrow> login_request \<Rightarrow> session \<Rightarrow> 'tok token_response res \<times> session" where
  "login_user c cfg e payload s =
     (let mail = py_lower (lq_email payload)
      in case find_by email mail (users (current s)) of
           None \<Rightarrow> (Inl INVALID_LOGIN, s)
         | Some u \<Rightarrow>
           (case verify_password c (lq_password payload) (hashed_password u) of
              Inl err \<Rightarrow> (Inl err, s)
            | Inr False \<Rightarrow> (Inl INVALID_LOGIN, s)
            | Inr True \<Rightarrow>
              (let token = create_access_token c cfg e (int_str (u_id u))
                     (Some [(''role'', Claim_Str (role_value (role u))), (''email'', Claim_Str (email u))])
               in (Inr \<lparr>access_token = token, token_type = ''bearer''\<rparr>, s))))"

section \<open>Registration\<close>

lemma add_user_fields [simp]:
  "users (add_user u d) = users d @ [u]" "specialist_profiles (add_user u d) = specialist_profiles d"
  "services (add_user u d) = services d" "time_slots (add_user u d) = time_slots d"
  "bookings (add_user u d) = bookings d" "wait_list_entries (add_user u d) = wait_list_entries d"
  by (simp_all add: add_user_def)

lemma new_user_fields [simp]:
  "u_id (new_user c e payload d) = fst (generated e Users (map u_id (users d)))"
  "email (new_user c e payload d) = py_lower (rq_email payload)"
  "hashed_password (new_user c e payload d) = pwd_hash c (rq_password payload)"
  "role (new_user c e payload d) = rq_role payload"
  "is_active (new_user c e payload d) = True"
  by (simp_all add: new_user_def Let_def get_password_hash_def)

lemma schema_ok_add_user:
  assumes "schema_ok d" and "u_id u \<notin> u_id ` set (users d)" and "email u \<notin> email ` set (users d)"
  shows "schema_ok (add_user u d)"
  using assms by (auto simp: schema_defs list_all_iff)

text \<open>The reference function: the two checks of the address are one.\<close>

definition register_ref :: "'tok crypto \<Rightarrow> env \<Rightarrow> register_request \<Rightarrow> db \<Rightarrow> user res \<times> db" where
  "register_ref c e payload d =
     (if py_lower (rq_email payload) \<in> email ` set (users d) then (Inl EMAIL_EXISTS, d)
      else (Inr (new_user c e payload d), add_user (new_user c e payload d) d))"

lemma register_open:
  assumes "schema_ok d" and "generated_ok e"
  shows "register_user c e payload (open_session d)
    = (fst (register_ref c e payload d), open_session (snd (register_ref c e payload d)))"
proof (cases "find_by email (py_lower (rq_email payload)) (users d)")
  case None
  then have fresh: "py_lower (rq_email payload) \<notin> email ` set (users d)"
    by (simp add: find_by_mem_None)
  have "schema_ok (add_user (new_user c e payload d) d)"
    using assms fresh generated_fresh [OF assms(2), of Users "map u_id (users d)"]
    by (intro schema_ok_add_user) simp_all
  then show ?thesis
    using None fresh
    by (simp add: register_user_def register_ref_def commit_def open_session_def modify_def Let_def)
next
  case (Some u)
  then have "py_lower (rq_email payload) \<in> email ` set (users d)"
    using find_by_SomeD [OF Some] by (metis imageI)
  then show ?thesis
    using Some by (simp add: register_user_def register_ref_def)
qed

text \<open>Stored addresses are in lower case.\<close>

definition emails_lower :: "db \<Rightarrow> bool" where
  "emails_lower d \<longleftrightarrow> list_all (\<lambda>u. py_lower (email u) = email u) (users d)"

text \<open>What any call commits, whatever ids the server generates.\<close>

definition serve_register :: "'tok crypto \<Rightarrow> env \<Rightarrow> register_request \<Rightarrow> db \<Rightarrow> user res \<times> db" where
  "serve_register c e payload d = get_db (register_user c e payload) d"

lemma serve_register_cases:
  assumes "serve_register c e payload d = (r, d')"
  shows "d' = d \<or> d' = add_user (new_user c e payload d) d \<and> schema_ok d'"
  using assms
  by (auto simp: serve_register_def get_db_def register_user_def commit_def Let_def
      split: option.splits if_splits prod.splits)

lemma user_invariants [simp]:
  "exclusive (add_user u d) = exclusive d" "backed (add_user u d) = backed d"
  "slots_disjoint (add_user u d) = slots_disjoint d"
  by (simp_all add: exclusive_def backed_def slots_disjoint_def confirmed_on_def)

interpretation register: calendar_op "serve_register c" "\<lambda>a d. True"
proof
  fix d e and a :: register_request
  assume inv: "base_inv d"
  obtain r d' where r: "serve_register c e a d = (r, d')"
    by (cases "serve_register c e a d") auto
  show "base_inv (snd (serve_register c e a d))"
    using inv r serve_register_cases [OF r] by (auto simp: base_inv_def)
  show "exclusive (snd (serve_register c e a d))" if "exclusive d"
    using that r serve_register_cases [OF r] by auto
qed

section \<open>Login\<close>

lemma login_known:
  assumes "find_by email (py_lower (lq_email payload)) (users (current s)) = Some u"
    and "pwd_verify c (lq_password payload) (hashed_password u) = Inr True"
  shows "login_user c cfg e payload s = (Inr \<lparr>access_token = create_access_token c cfg e (int_str (u_id u))
      (Some [(''role'', Claim_Str (role_value (role u))), (''email'', Claim_Str (email u))]),
    token_type = ''bearer''\<rparr>, s)"
  using assms by (simp add: login_user_def verify_password_def Let_def)

lemma login_keeps: "snd (login_user c cfg e payload s) = s"
  by (simp add: login_user_def Let_def split: option.split sum.split bool.split)

lemma login_current_user:
  assumes "jwt_ok c" and "now e' \<le> now e + minutes (access_token_expire_minutes cfg)"
    and "find_by u_id (u_id u) (users (current s')) = Some u" and "is_active u"
    and "login_user c cfg e payload s = (Inr r, s1)"
    and "find_by email (py_lower (lq_email payload)) (users (current s)) = Some u"
  shows "get_current_user c cfg e' (access_token r) s' = (Inr u, s')"
proof -
  have "access_token r = create_access_token c cfg e (int_str (u_id u))
      (Some [(''role'', Claim_Str (role_value (role u))), (''email'', Claim_Str (email u))])"
    using assms(5,6) by (auto simp: login_user_def Let_def split: sum.splits bool.splits)
  moreover have "\<forall>k \<in> fst ` set [(''role'', Claim_Str (role_value (role u))), (''email'', Claim_Str (email u))].
      k \<noteq> ''sub'' \<and> k \<noteq> ''exp''"
    by simp
  ultimately have "token_user_id c cfg e' (access_token r) = Inr (u_id u)"
    using token_round_trip [OF assms(1,2)] by simp
  then show ?thesis
    using assms(3,4) by (simp add: get_current_user_eq)
qed

end
