(* ===== verification/Rate_Limiter.thy ===== *)
theory Rate_Limiter
  imports Config
begin

text \<open>
  \<^verbatim>\<open>app/core/rate_limiter.py\<close>: the in-memory limiter, the Redis limiter over a client that is a
  parameter, the fallback of one to the other, and their construction. The interface is the locale
  \<open>window_limiter\<close>: an implementation answers as a limiter that remembers every accepted call
  would, and from that alone no window of time has more accepted calls than the limit.

  A time is \<open>time.time()\<close> in microseconds. The state of an object is passed and returned; the lock
  makes each call of the in-memory limiter atomic, so calls are a sequence.
\<close>

section \<open>The interface\<close>

text \<open>\<open>allow(key, limit, window_seconds)\<close> at a time, with the answer \<open>(allowed, retry_after)\<close>.\<close>

type_synonym 's allow_op = "instant \<Rightarrow> string \<Rightarrow> int \<Rightarrow> int \<Rightarrow> 's \<Rightarrow> (bool \<times> int) res \<times> 's"

definition second :: int where
  "second = 1000000"

text \<open>\<open>int(x)\<close> of a quotient truncates towards zero.\<close>

definition trunc_div :: "int \<Rightarrow> int \<Rightarrow> int" where
  "trunc_div a n = (if 0 \<le> a then a div n else - ((- a) div n))"

section \<open>The in-memory limiter\<close>

text \<open>\<open>defaultdict(deque)\<close>: a missing key is the empty queue.\<close>

type_synonym events = "string \<Rightarrow> instant list"

definition no_events :: events where
  "no_events = (\<lambda>key. [])"

fun pop_expired :: "instant \<Rightarrow> instant list \<Rightarrow> instant list" where
  "pop_expired window_start [] = []"
| "pop_expired window_start (x # queue) =
     (if x \<le> window_start then pop_expired window_start queue else x # queue)"

definition memory_allow :: "events allow_op" where
  "memory_allow t key limit window_seconds st =
     (let window_start = t - window_seconds * second;
          queue = pop_expired window_start (st key);
          st = st(key := queue)
      in if int (length queue) \<ge> limit
         then (case queue of
                 [] \<Rightarrow> (Inl IndexError, st)
               | oldest # _ \<Rightarrow>
                 (let retry_after = max 1 (trunc_div (oldest + window_seconds * second - t) second)
                  in (Inr (False, retry_after), st)))
         else (Inr (True, 0), st(key := queue @ [t])))"

definition memory_reset :: "events \<Rightarrow> events" where
  "memory_reset st = no_events"

section \<open>The Redis limiter\<close>

text \<open>
  The client and its server are not part of the repository. \<open>execute\<close> runs a pipeline of commands
  against the server's state and returns the replies, or raises; a single command is a pipeline of
  one. Scores are whole numbers of milliseconds here; \<open>uuid\<close> is \<open>uuid4().hex\<close> of this call.
\<close>

datatype redis_cmd =
    Zremrangebyscore string int int
  | Zcard string
  | Zrange_First string
  | Zadd string string int
  | Expire string int
  | Keys string
  | Delete "string list"

datatype redis_reply =
    Reply_Int int
  | Reply_Scores "(string \<times> int) list"
  | Reply_Keys "string list"

type_synonym 'r redis_execute = "redis_cmd list \<Rightarrow> 'r \<Rightarrow> redis_reply list res \<times> 'r"

definition redis_allow :: "'r redis_execute \<Rightarrow> string \<Rightarrow> string \<Rightarrow> 'r allow_op" where
  "redis_allow execute prefix uuid t key limit window_seconds r =
     (let redis_key = prefix @ '':'' @ key;
          now_ms = trunc_div t 1000;
          window_ms = window_seconds * 1000;
          boundary = now_ms - window_ms
      in case execute [Zremrangebyscore redis_key 0 boundary, Zcard redis_key] r of
           (Inl err, r) \<Rightarrow> (Inl err, r)
         | (Inr [_, Reply_Int current_count], r) \<Rightarrow>
           if current_count \<ge> limit
           then (case execute [Zrange_First redis_key] r of
                   (Inl err, r) \<Rightarrow> (Inl err, r)
                 | (Inr [Reply_Scores ((_, oldest_score) # _)], r) \<Rightarrow>
                   (Inr (False, max 1 (trunc_div (oldest_score + window_ms - now_ms) 1000)), r)
                 | (Inr [Reply_Scores []], r) \<Rightarrow> (Inr (False, max 1 window_seconds), r)
                 | (Inr _, r) \<Rightarrow> (Inl TypeError, r))
           else
             (case execute [Zadd redis_key (int_str now_ms @ '':'' @ uuid) now_ms,
                  Expire redis_key (window_seconds + 5)] r of
                (Inl err, r) \<Rightarrow> (Inl err, r)
              | (Inr _, r) \<Rightarrow> (Inr (True, 0), r))
         | (Inr _, r) \<Rightarrow> (Inl ValueError, r))"

definition redis_reset :: "'r redis_execute \<Rightarrow> string \<Rightarrow> 'r \<Rightarrow> unit res \<times> 'r" where
  "redis_reset execute prefix r =
     (case execute [Keys (prefix @ '':*'')] r of
        (Inl err, r) \<Rightarrow> (Inl err, r)
      | (Inr [Reply_Keys keys], r) \<Rightarrow>
        if keys \<noteq> []
        then (case execute [Delete keys] r of (Inl err, r) \<Rightarrow> (Inl err, r) | (Inr _, r) \<Rightarrow> (Inr (), r))
        else (Inr (), r)
      | (Inr _, r) \<Rightarrow> (Inl TypeError, r))"

section \<open>The fallback\<close>

definition fallback_allow :: "'p allow_op \<Rightarrow> 'f allow_op \<Rightarrow> ('p \<times> 'f) allow_op" where
  "fallback_allow primary fallback t key limit window_seconds st =
     (case primary t key limit window_seconds (fst st) of
        (Inr answer, p) \<Rightarrow> (Inr answer, (p, snd st))
      | (Inl _, p) \<Rightarrow>
        (case fallback t key limit window_seconds (snd st) of (r, f) \<Rightarrow> (r, (p, f))))"

definition fallback_reset ::
  "('p \<Rightarrow> unit res \<times> 'p) \<Rightarrow> ('f \<Rightarrow> 'f) \<Rightarrow> 'p \<times> 'f \<Rightarrow> 'p \<times> 'f" where
  "fallback_reset primary_reset fallback_reset' st =
     (case primary_reset (fst st) of (_, p) \<Rightarrow> (p, fallback_reset' (snd st)))"

text \<open>\<open>_build_rate_limiter\<close>: what is built, and \<open>rate_limiter.allow\<close> of it.\<close>

datatype limiter_kind = Memory | Redis_With_Fallback

definition build_rate_limiter :: "settings \<Rightarrow> limiter_kind" where
  "build_rate_limiter cfg =
     (let backend = py_lower (py_strip (rate_limit_backend cfg))
      in if backend = ''memory'' then Memory
         else if backend = ''redis'' then Redis_With_Fallback
         else Memory)"

definition limiter_allow :: "settings \<Rightarrow> 'r redis_execute \<Rightarrow> string \<Rightarrow> ('r \<times> events) allow_op" where
  "limiter_allow cfg execute uuid t key limit window_seconds st =
     (case build_rate_limiter cfg of
        Memory \<Rightarrow>
          (case memory_allow t key limit window_seconds (snd st) of (a, m) \<Rightarrow> (a, (fst st, m)))
      | Redis_With_Fallback \<Rightarrow>
          fallback_allow (redis_allow execute ''rl'' uuid) memory_allow t key limit window_seconds st)"

section \<open>The contract of a limiter\<close>

text \<open>
  The specification remembers the time of every accepted call by key: a call is accepted when
  fewer than \<open>limit\<close> of them are younger than the window. \<open>represents s h t\<close>: the state \<open>s\<close> stands
  for the history \<open>h\<close> as far as calls at time \<open>t\<close> or later can tell.
\<close>

definition recent :: "int \<Rightarrow> instant \<Rightarrow> instant list \<Rightarrow> instant list" where
  "recent window t h = filter (\<lambda>x. t - window * second < x) h"

definition history_step :: "int \<Rightarrow> instant \<Rightarrow> string \<Rightarrow> int \<Rightarrow> events \<Rightarrow> bool \<times> events" where
  "history_step window t key limit h =
     (if int (length (recent window t (h key))) < limit then (True, h(key := h key @ [t])) else (False, h))"

text \<open>
  A run of calls, each at a time and with a key, the limit depending on the key: the answers of an
  implementation, those of the specification with the history they leave, and the accepted calls
  of a key in the order of the run.
\<close>

fun run_calls ::
  "int \<Rightarrow> 's allow_op \<Rightarrow> (string \<Rightarrow> int) \<Rightarrow> (instant \<times> string) list \<Rightarrow> 's \<Rightarrow> bool list" where
  "run_calls window allow limits [] s = []"
| "run_calls window allow limits ((t, key) # calls) s =
     (case allow t key (limits key) window s of
        (Inr (b, _), s) \<Rightarrow> b # run_calls window allow limits calls s
      | (Inl _, s) \<Rightarrow> False # run_calls window allow limits calls s)"

fun run_history ::
  "int \<Rightarrow> (string \<Rightarrow> int) \<Rightarrow> (instant \<times> string) list \<Rightarrow> events \<Rightarrow> bool list \<times> events" where
  "run_history window limits [] h = ([], h)"
| "run_history window limits ((t, key) # calls) h =
     (case history_step window t key (limits key) h of
        (b, h) \<Rightarrow> (case run_history window limits calls h of (bs, h) \<Rightarrow> (b # bs, h)))"

definition accepted_times :: "string \<Rightarrow> (instant \<times> string) list \<Rightarrow> bool list \<Rightarrow> instant list" where
  "accepted_times key calls answers =
     map (fst \<circ> fst) (filter (\<lambda>((t, k), b). b \<and> k = key) (zip calls answers))"

text \<open>The calls of a run at the times a clock shows.\<close>

definition seen :: "(instant \<Rightarrow> instant) \<Rightarrow> (instant \<times> string) list \<Rightarrow> (instant \<times> string) list" where
  "seen clock calls = map (\<lambda>(t, key). (clock t, key)) calls"

text \<open>
  The general contract: an implementation may read a coarser \<open>clock\<close>, and answers as the
  specification does at the times that clock shows; \<open>valid\<close> says at which times it may start.
\<close>

locale clocked_limiter =
  fixes window :: int and clock :: "instant \<Rightarrow> instant" and valid :: "instant \<Rightarrow> bool"
    and allow :: "'s allow_op" and represents :: "'s \<Rightarrow> events \<Rightarrow> instant \<Rightarrow> bool" and start :: 's
  assumes clock_mono: "t \<le> t' \<Longrightarrow> clock t \<le> clock t'"
    and start_valid: "valid t \<Longrightarrow> represents start no_events t"
    and allow_clocked: "represents s h t0 \<Longrightarrow> t0 \<le> t \<Longrightarrow> 0 < limit \<Longrightarrow>
      \<exists>retry s'. allow t key limit window s
          = (Inr (fst (history_step window (clock t) key limit h), retry), s') \<and>
        represents s' (snd (history_step window (clock t) key limit h)) t"
begin

lemma run_simulates_clocked:
  assumes "represents s h t0" and "sorted (t0 # map fst calls)" and "\<forall>key. 0 < limits key"
  shows "run_calls window allow limits calls s = fst (run_history window limits (seen clock calls) h)"
  using assms
proof (induction calls arbitrary: s h t0)
  case Nil
  then show ?case by (simp add: seen_def)
next
  case (Cons c calls)
  obtain t key where c: "c = (t, key)"
    by (cases c) auto
  have "t0 \<le> t" "0 < limits key"
    using Cons.prems c by auto
  from allow_clocked [OF Cons.prems(1) this]
  obtain retry s' where
    step: "allow t key (limits key) window s
      = (Inr (fst (history_step window (clock t) key (limits key) h), retry), s')" and
    rep: "represents s' (snd (history_step window (clock t) key (limits key) h)) t"
    by blast
  have "sorted (t # map fst calls)"
    using Cons.prems(2) c by simp
  then show ?case
    using step Cons.IH [OF rep _ Cons.prems(3)] by (simp add: c seen_def split: prod.split)
qed

lemma seen_sorted: "sorted (map fst calls) \<Longrightarrow> sorted (map fst (seen clock calls))"
proof (induction calls)
  case Nil
  then show ?case by (simp add: seen_def)
next
  case (Cons c calls)
  then show ?case
    using clock_mono by (fastforce simp: seen_def split: prod.splits)
qed

end

locale window_limiter =
  fixes window :: int and allow :: "'s allow_op"
    and represents :: "'s \<Rightarrow> events \<Rightarrow> instant \<Rightarrow> bool" and start :: 's
  assumes start_empty: "represents start no_events t"
    and allow_spec: "represents s h t0 \<Longrightarrow> t0 \<le> t \<Longrightarrow> 0 < limit \<Longrightarrow>
      \<exists>retry s'. allow t key limit window s = (Inr (fst (history_step window t key limit h), retry), s') \<and>
        represents s' (snd (history_step window t key limit h)) t"

sublocale window_limiter \<subseteq> clocked: clocked_limiter window "\<lambda>t. t" "\<lambda>t. True" allow represents start
  by unfold_locales (use start_empty allow_spec in auto)

section \<open>The bound\<close>

text \<open>
  The accepted calls of the specification: at no time has a window of the past more than \<open>limit\<close>
  of them. It holds of any history the steps build, whatever the keys and times.
\<close>

definition in_window :: "int \<Rightarrow> instant \<Rightarrow> instant list \<Rightarrow> nat" where
  "in_window window y h = length (filter (\<lambda>x. y - window * second < x \<and> x \<le> y) h)"

definition history_ok :: "int \<Rightarrow> (string \<Rightarrow> int) \<Rightarrow> instant \<Rightarrow> events \<Rightarrow> bool" where
  "history_ok window limits t h \<longleftrightarrow>
     (\<forall>key. (\<forall>x \<in> set (h key). x \<le> t) \<and> (\<forall>y. int (in_window window y (h key)) \<le> limits key))"

lemma length_filter_mono: "(\<And>x. P x \<Longrightarrow> Q x) \<Longrightarrow> length (filter P xs) \<le> length (filter Q xs)"
  by (induction xs) (auto simp: le_SucI)

lemma history_step_ok:
  assumes "history_ok window limits t0 h" and "t0 \<le> t"
  shows "history_ok window limits t (snd (history_step window t key (limits key) h))"
proof -
  have old: "\<forall>x \<in> set (h k). x \<le> t" "int (in_window window y (h k)) \<le> limits k" for k y
    using assms by (auto simp: history_ok_def intro: order_trans)
  have new: "int (in_window window y (h key @ [t])) \<le> limits key"
    if room: "int (length (recent window t (h key))) < limits key" for y
  proof (cases "t \<le> y")
    case True
    then have "in_window window y (h key) \<le> length (recent window t (h key))"
      unfolding in_window_def recent_def by (intro length_filter_mono) auto
    then show ?thesis
      using room by (simp add: in_window_def)
  next
    case False
    then have "in_window window y (h key @ [t]) = in_window window y (h key)"
      by (simp add: in_window_def)
    then show ?thesis
      using old(2) by simp
  qed
  show ?thesis
    using old new by (simp add: history_ok_def history_step_def)
qed

lemma history_ok_empty: "(\<And>key. 0 \<le> limits key) \<Longrightarrow> history_ok window limits t no_events"
  by (simp add: history_ok_def no_events_def in_window_def)

lemma run_history_ok:
  assumes "history_ok window limits t0 h" and "sorted (t0 # map fst calls)"
  shows "\<exists>t. history_ok window limits t (snd (run_history window limits calls h))"
  using assms
proof (induction calls arbitrary: h t0)
  case Nil
  then show ?case by auto
next
  case (Cons c calls)
  obtain t key where c: "c = (t, key)"
    by (cases c) auto
  have "history_ok window limits t (snd (history_step window t key (limits key) h))"
    using Cons.prems c by (intro history_step_ok) auto
  moreover have "sorted (t # map fst calls)"
    using Cons.prems(2) c by simp
  ultimately show ?case
    using Cons.IH c by (force split: prod.split)
qed

lemma accepted_times_Cons:
  "accepted_times key ((t, k) # calls) (b # bs)
    = (if b \<and> k = key then [t] else []) @ accepted_times key calls bs"
  by (simp add: accepted_times_def)

lemma run_history_accepted:
  "snd (run_history window limits calls h) key
    = h key @ accepted_times key calls (fst (run_history window limits calls h))"
proof (induction calls arbitrary: h)
  case Nil
  then show ?case by (simp add: accepted_times_def)
next
  case (Cons c calls)
  obtain t k where c: "c = (t, k)"
    by (cases c) auto
  obtain b h' where step: "history_step window t k (limits k) h = (b, h')"
    by (cases "history_step window t k (limits k) h") auto
  then have "h' key = h key @ (if b \<and> k = key then [t] else [])"
    by (auto simp: history_step_def split: if_splits)
  then show ?case
    using Cons.IH [of h'] by (cases "run_history window limits calls h'")
      (simp add: c step accepted_times_Cons)
qed

context clocked_limiter
begin

lemma run_clocked:
  assumes "sorted (map fst calls)" and "\<forall>key. 0 < limits key" and "\<forall>c \<in> set calls. valid (fst c)"
  shows "run_calls window allow limits calls start = fst (run_history window limits (seen clock calls) no_events)"
proof (cases calls)
  case Nil
  then show ?thesis by (simp add: seen_def)
next
  case (Cons c calls')
  then have "represents start no_events (fst c)" "sorted (fst c # map fst calls)"
    using assms by (auto intro: start_valid)
  then show ?thesis
    using run_simulates_clocked [OF _ _ assms(2)] by blast
qed

lemma accepted_clocked:
  assumes "sorted (map fst calls)" and "\<forall>key. 0 < limits key" and "\<forall>c \<in> set calls. valid (fst c)"
  shows "int (in_window window y (accepted_times key (seen clock calls) (run_calls window allow limits calls start)))
    \<le> limits key"
proof -
  obtain t0 where sorted: "sorted (t0 # map fst (seen clock calls))"
    using seen_sorted [OF assms(1)] by (cases "seen clock calls") auto
  have "history_ok window limits t0 no_events"
    using assms(2) by (intro history_ok_empty) (simp add: less_imp_le)
  from run_history_ok [OF this sorted]
  have "int (in_window window y (snd (run_history window limits (seen clock calls) no_events) key)) \<le> limits key"
    by (auto simp: history_ok_def)
  then show ?thesis
    using run_history_accepted [of window limits "seen clock calls" no_events key]
    by (simp add: run_clocked [OF assms] no_events_def)
qed

end

context window_limiter
begin

lemma seen_id: "seen (\<lambda>t. t) calls = calls"
  by (simp add: seen_def)

lemma run_from_start:
  assumes "sorted (map fst calls)" and "\<forall>key. 0 < limits key"
  shows "run_calls window allow limits calls start = fst (run_history window limits calls no_events)"
  using clocked.run_clocked [OF assms] by (simp add: seen_id)

lemma accepted_bounded:
  assumes "sorted (map fst calls)" and "\<forall>key. 0 < limits key"
  shows "int (in_window window y (accepted_times key calls (run_calls window allow limits calls start)))
    \<le> limits key"
  using clocked.accepted_clocked [OF assms] by (simp add: seen_id)

end

section \<open>The in-memory limiter keeps the contract\<close>

text \<open>
  Its queue of a key is what some earlier time left of the history of the key; the pops leave
  what is recent now.
\<close>

lemma pop_expired_eq: "pop_expired w queue = dropWhile (\<lambda>x. x \<le> w) queue"
  by (induction queue) auto

lemma pop_expired_sorted: "sorted queue \<Longrightarrow> pop_expired w queue = filter (\<lambda>x. w < x) queue"
proof (induction queue)
  case Nil
  then show ?case by simp
next
  case (Cons x queue)
  show ?case
  proof (cases "x \<le> w")
    case True
    then show ?thesis
      using Cons by simp
  next
    case False
    then have "\<forall>y \<in> set (x # queue). w < y"
      using Cons.prems by auto
    then have "filter (\<lambda>y. w < y) (x # queue) = x # queue"
      by (simp add: filter_id_conv)
    then show ?thesis
      using False by simp
  qed
qed

definition memory_represents :: "int \<Rightarrow> events \<Rightarrow> events \<Rightarrow> instant \<Rightarrow> bool" where
  "memory_represents window s h t \<longleftrightarrow>
     (\<forall>key. sorted (h key) \<and> (\<forall>x \<in> set (h key). x \<le> t) \<and> (\<exists>c \<le> t. s key = recent window c (h key)))"

lemma recent_recent: "c \<le> t \<Longrightarrow> filter (\<lambda>x. t - window * second < x) (recent window c h) = recent window t h"
  by (auto simp: recent_def intro!: filter_cong)

lemma memory_queue:
  assumes "memory_represents window s h t0" and "t0 \<le> t"
  shows "pop_expired (t - window * second) (s key) = recent window t (h key)"
proof -
  obtain c where c: "c \<le> t0" "s key = recent window c (h key)" and "sorted (h key)"
    using assms(1) by (auto simp: memory_represents_def)
  then have "sorted (s key)"
    by (simp add: recent_def sorted_filter [of "\<lambda>x. x", simplified])
  then show ?thesis
    using c assms(2) by (simp add: pop_expired_sorted recent_recent)
qed

text \<open>What one call does, for any positive limit.\<close>

lemma memory_allow_eq:
  assumes "memory_represents window s h t0" and "t0 \<le> t" and "0 < limit"
  shows "memory_allow t key limit window s =
    (if int (length (recent window t (h key))) < limit
     then (Inr (True, 0), s(key := recent window t (h key) @ [t]))
     else (Inr (False, max 1 (trunc_div (hd (recent window t (h key)) + window * second - t) second)),
       s(key := recent window t (h key))))"
  using assms(3)
  by (auto simp: memory_allow_def memory_queue [OF assms(1,2)] Let_def split: list.split)

lemma memory_allow_represents:
  assumes "memory_represents window s h t0" and "t0 \<le> t" and "0 < window"
  shows "memory_represents window (s(key := recent window t (h key))) h t"
    and "memory_represents window (s(key := recent window t (h key) @ [t])) (h(key := h key @ [t])) t"
proof -
  have old: "sorted (h k)" "\<forall>x \<in> set (h k). x \<le> t" "\<exists>c \<le> t. s k = recent window c (h k)" for k
    using assms(1,2) unfolding memory_represents_def by (blast intro: order_trans)+
  show "memory_represents window (s(key := recent window t (h key))) h t"
    using old by (auto simp: memory_represents_def)
  have "recent window t (h key @ [t]) = recent window t (h key) @ [t]"
    using assms(3) by (simp add: recent_def second_def)
  then show "memory_represents window (s(key := recent window t (h key) @ [t])) (h(key := h key @ [t])) t"
    using old by (auto simp: memory_represents_def sorted_append)
qed

text \<open>For every window length; the module has one instance of the limiter, with one window.\<close>

lemma memory_window_limiter:
  assumes "0 < window"
  shows "window_limiter window memory_allow (memory_represents window) no_events"
proof
  show "memory_represents window no_events no_events t" for t
    by (auto simp: memory_represents_def no_events_def recent_def)
  fix s h :: events and t0 t limit :: int and key
  assume "memory_represents window s h t0" "t0 \<le> t" "0 < limit"
  note call = memory_allow_eq [OF this] and rep = memory_allow_represents [OF this(1,2) assms]
  show "\<exists>retry s'. memory_allow t key limit window s
      = (Inr (fst (history_step window t key limit h), retry), s') \<and>
    memory_represents window s' (snd (history_step window t key limit h)) t"
    using rep by (auto simp: call history_step_def)
qed

text \<open>The instance of the application, with the default window of 60 seconds.\<close>

interpretation memory_limiter: window_limiter "auth_rate_limit_window_seconds default_settings" memory_allow
  "memory_represents (auth_rate_limit_window_seconds default_settings)" no_events
  by (rule memory_window_limiter) (simp add: default_settings_def)

section \<open>The fallback\<close>

text \<open>When the primary always raises, the limiter answers as the fallback alone.\<close>

lemma fallback_down:
  assumes "\<And>t key limit w p. \<not> is_ok (fst (primary t key limit w p))"
  shows "run_calls window (fallback_allow primary fb) limits calls (p, f)
    = run_calls window fb limits calls f"
proof (induction calls arbitrary: p f)
  case Nil
  then show ?case by simp
next
  case (Cons c calls)
  obtain t key where c: "c = (t, key)"
    by (cases c) auto
  obtain r p' where prim: "primary t key (limits key) window p = (r, p')"
    by (cases "primary t key (limits key) window p") auto
  then obtain err where "r = Inl err"
    using assms [of t key "limits key" window p] by (cases r) auto
  then show ?case
    using prim Cons.IH by (auto simp: c fallback_allow_def split: prod.split sum.split)
qed

section \<open>The time to retry\<close>

lemma trunc_div_pos: "0 \<le> a \<Longrightarrow> 0 < n \<Longrightarrow> a < (trunc_div a n + 1) * n"
  by (simp add: trunc_div_def) (metis add.commute add_strict_left_mono distrib_right div_mult_mod_eq mult_1 pos_mod_bound)

text \<open>
  The answer is truncated to whole seconds: the oldest call has left the window one second after
  the announced time, and not always at it.
\<close>

lemma memory_retry_bounds:
  assumes "memory_represents window s h t0" and "t0 \<le> t" and "0 < limit" and "0 < window"
    and "memory_allow t key limit window s = (Inr (False, retry), s')"
  shows "1 \<le> retry" "retry \<le> window"
    and "hd (recent window t (h key)) \<le> (t + (retry + 1) * second) - window * second"
proof -
  let ?q = "recent window t (h key)" and ?a = "hd (recent window t (h key)) + window * second - t"
  have full: "limit \<le> int (length ?q)"
    and retry: "retry = max 1 (trunc_div ?a second)"
    using assms(5) by (auto simp: memory_allow_eq [OF assms(1-3)] split: if_splits)
  then have mem: "hd ?q \<in> set ?q"
    using assms(3) by (cases ?q) auto
  then have young: "t - window * second < hd ?q" "hd ?q \<in> set (h key)"
    by (auto simp: recent_def)
  then have le: "hd ?q \<le> t"
    using assms(1,2) by (auto simp: memory_represents_def intro: order_trans)
  show "1 \<le> retry"
    by (simp add: retry)
  have "trunc_div ?a second \<le> window"
    using young le by (simp add: trunc_div_def second_def)
  then show "retry \<le> window"
    using assms(4) by (simp add: retry)
  have "?a < (trunc_div ?a second + 1) * second"
    using young by (intro trunc_div_pos) (simp_all add: second_def)
  also have "\<dots> \<le> (retry + 1) * second"
    by (simp add: retry second_def)
  finally show "hd ?q \<le> (t + (retry + 1) * second) - window * second"
    by simp
qed

section \<open>The Redis limiter\<close>

text \<open>Whatever the server answers, a refusal comes with a positive time to retry.\<close>

lemma redis_retry_positive:
  assumes "redis_allow execute prefix uuid t key limit window_seconds r = (Inr (b, retry), r')"
  shows "(b \<and> retry = 0) \<or> (\<not> b \<and> 1 \<le> retry)"
  using assms
  by (auto simp: redis_allow_def Let_def
      split: prod.splits sum.splits list.splits redis_reply.splits if_splits)

end
