(* ===== verification/Joins.thy ===== *)
theory Joins
  imports Models
begin

text \<open>
  The joins of the queries. An inner join on a foreign key pairs every row with the rows it
  refers to; with the constraints of the schema that is exactly one, so a join is the list of
  bookings, each with its slot, the profile of the slot's specialist and the client.
\<close>

section \<open>The queries\<close>

text \<open>\<open>select(Booking, TimeSlot).join(TimeSlot, Booking.slot_id == TimeSlot.id)\<close>\<close>

definition booking_slot_join :: "db \<Rightarrow> (booking \<times> time_slot) list" where
  "booking_slot_join d = [(b, t). b \<leftarrow> bookings d, t \<leftarrow> filter (\<lambda>t. ts_id t = slot_id b) (time_slots d)]"

text \<open>\<open>... .join(SpecialistProfile, TimeSlot.specialist_id == SpecialistProfile.id)\<close>\<close>

definition booking_specialist_join :: "db \<Rightarrow> (booking \<times> time_slot \<times> specialist_profile) list" where
  "booking_specialist_join d = [(b, t, p). (b, t) \<leftarrow> booking_slot_join d,
     p \<leftarrow> filter (\<lambda>p. sp_id p = specialist_id t) (specialist_profiles d)]"

text \<open>\<open>... .join(User, Booking.client_id == User.id)\<close>\<close>

definition booking_client_join ::
  "db \<Rightarrow> (booking \<times> time_slot \<times> specialist_profile \<times> user) list" where
  "booking_client_join d = [(b, t, p, u). (b, t, p) \<leftarrow> booking_specialist_join d,
     u \<leftarrow> filter (\<lambda>u. u_id u = client_id b) (users d)]"

definition booking_slot_client_join :: "db \<Rightarrow> (booking \<times> time_slot \<times> user) list" where
  "booking_slot_client_join d = [(b, t, u). (b, t) \<leftarrow> booking_slot_join d,
     u \<leftarrow> filter (\<lambda>u. u_id u = client_id b) (users d)]"

text \<open>\<open>.first()\<close> of a result.\<close>

definition first_row :: "'a list \<Rightarrow> 'a option" where
  "first_row rows = (case rows of [] \<Rightarrow> None | r # _ \<Rightarrow> Some r)"

section \<open>Every reference has one row\<close>

definition slot_of :: "db \<Rightarrow> booking \<Rightarrow> time_slot" where
  "slot_of d b = the (find_by ts_id (slot_id b) (time_slots d))"

definition profile_of :: "db \<Rightarrow> time_slot \<Rightarrow> specialist_profile" where
  "profile_of d t = the (find_by sp_id (specialist_id t) (specialist_profiles d))"

definition client_of :: "db \<Rightarrow> booking \<Rightarrow> user" where
  "client_of d b = the (find_by u_id (client_id b) (users d))"

lemma filter_key_one:
  assumes "distinct (map key xs)" and "i \<in> key ` set xs"
  shows "filter (\<lambda>x. key x = i) xs = [the (find_by key i xs)]"
  using assms
proof (induction xs)
  case Nil
  then show ?case by simp
next
  case (Cons x xs)
  show ?case
  proof (cases "key x = i")
    case True
    then have "filter (\<lambda>x. key x = i) xs = []"
      using Cons.prems(1) by (auto simp: filter_empty_conv intro: rev_image_eqI)
    then show ?thesis
      using True by simp
  next
    case False
    then show ?thesis
      using Cons by auto
  qed
qed

lemma concat_map_single:
  assumes "\<And>x. x \<in> set xs \<Longrightarrow> f x = [g x]"
  shows "concat (map f xs) = map g xs"
  using assms by (induction xs) auto

lemma find_by_the:
  assumes "i \<in> key ` set xs"
  shows "find_by key i xs = Some (the (find_by key i xs)) \<and> the (find_by key i xs) \<in> set xs"
  using assms find_by_mem_None [of key i xs] by (auto dest: find_by_SomeD)

lemma slot_of_mem:
  assumes "schema_ok d" and "b \<in> set (bookings d)"
  shows "find_by ts_id (slot_id b) (time_slots d) = Some (slot_of d b)" "slot_of d b \<in> set (time_slots d)"
  using find_by_the [OF schema_ok_references(1) [OF assms]] by (simp_all add: slot_of_def)

lemma booking_slot_join_eq:
  assumes "schema_ok d"
  shows "booking_slot_join d = map (\<lambda>b. (b, slot_of d b)) (bookings d)"
  unfolding booking_slot_join_def
proof (rule concat_map_single)
  fix b
  assume "b \<in> set (bookings d)"
  then have "filter (\<lambda>t. ts_id t = slot_id b) (time_slots d) = [slot_of d b]"
    unfolding slot_of_def
    by (intro filter_key_one schema_ok_distinct(6) [OF assms] schema_ok_references(1) [OF assms])
  then show "map (\<lambda>t. (b, t)) (filter (\<lambda>t. ts_id t = slot_id b) (time_slots d)) = [(b, slot_of d b)]"
    by simp
qed

lemma booking_specialist_join_eq:
  assumes "schema_ok d"
  shows "booking_specialist_join d = map (\<lambda>b. (b, slot_of d b, profile_of d (slot_of d b))) (bookings d)"
proof -
  have "filter (\<lambda>p. sp_id p = specialist_id (slot_of d b)) (specialist_profiles d) = [profile_of d (slot_of d b)]"
    if "b \<in> set (bookings d)" for b
    unfolding profile_of_def
    by (intro filter_key_one schema_ok_distinct(3) [OF assms] schema_ok_references(5) [OF assms]
        slot_of_mem(2) [OF assms that])
  then show ?thesis
    unfolding booking_specialist_join_def booking_slot_join_eq [OF assms] map_map comp_def prod.case
    by (intro concat_map_single) simp
qed

lemma client_of_one:
  assumes "schema_ok d" and "b \<in> set (bookings d)"
  shows "filter (\<lambda>u. u_id u = client_id b) (users d) = [client_of d b]"
  unfolding client_of_def
  by (intro filter_key_one schema_ok_distinct(1) [OF assms(1)] schema_ok_references(2) [OF assms])

lemma booking_client_join_eq:
  assumes "schema_ok d"
  shows "booking_client_join d
    = map (\<lambda>b. (b, slot_of d b, profile_of d (slot_of d b), client_of d b)) (bookings d)"
  unfolding booking_client_join_def booking_specialist_join_eq [OF assms] map_map comp_def prod.case
  by (intro concat_map_single) (simp add: client_of_one [OF assms])

lemma booking_slot_client_join_eq:
  assumes "schema_ok d"
  shows "booking_slot_client_join d = map (\<lambda>b. (b, slot_of d b, client_of d b)) (bookings d)"
  unfolding booking_slot_client_join_def booking_slot_join_eq [OF assms] map_map comp_def prod.case
  by (intro concat_map_single) (simp add: client_of_one [OF assms])

text \<open>A lookup by id through a join, as \<open>.where(Booking.id == i)\<close> and \<open>.first()\<close>.\<close>

lemma first_row_by_id:
  "first_row (filter (\<lambda>r. key (f r) = i) xs) = find_by (\<lambda>r. key (f r)) i xs"
  by (induction xs) (simp_all add: first_row_def)

lemma find_by_map: "find_by key i (map f xs) = map_option f (find_by (\<lambda>x. key (f x)) i xs)"
  by (induction xs) auto

end
