(* ===== verification/Release.thy ===== *)
theory Release
  imports Slot_Calendar
begin

text \<open>
  Closing a booking and freeing its slot, the pair of writes that a cancellation and an expiry
  make: how it changes holders, and when it keeps bookings exclusive.
\<close>

definition closing :: "(booking \<Rightarrow> booking) \<Rightarrow> bool" where
  "closing f \<longleftrightarrow> (\<forall>b. b_id (f b) = b_id b \<and> slot_id (f b) = slot_id b \<and> client_id (f b) = client_id b \<and>
     idempotency_key (f b) = idempotency_key b \<and> status (f b) \<noteq> CONFIRMED)"

definition release :: "(booking \<Rightarrow> booking) \<Rightarrow> booking \<Rightarrow> db \<Rightarrow> db" where
  "release f b d = set_booked (slot_id b) False (update_booking (b_id b) f d)"

lemma closing_simps:
  assumes "closing f"
  shows "b_id (f b) = b_id b" "slot_id (f b) = slot_id b" "client_id (f b) = client_id b"
    "idempotency_key (f b) = idempotency_key b" "status (f b) \<noteq> CONFIRMED"
  using assms by (simp_all add: closing_def)

lemma closing_cancel [simp]: "closing (cancel t)"
  by (simp add: closing_def)

lemma release_fields [simp]:
  "users (release f b d) = users d" "specialist_profiles (release f b d) = specialist_profiles d"
  "services (release f b d) = services d" "wait_list_entries (release f b d) = wait_list_entries d"
  "bookings (release f b d) = update_by b_id (b_id b) f (bookings d)"
  "time_slots (release f b d) = time_slots (set_booked (slot_id b) False d)"
  by (simp_all add: release_def)

lemma queue_of_release [simp]: "queue_of (release f b d) = queue_of d"
  by (rule queue_of_cong) simp

lemma schema_ok_release:
  assumes "schema_ok d" and "closing f"
  shows "schema_ok (release f b d)"
  unfolding release_def schema_ok_set_booked
  by (rule schema_ok_update_booking [OF assms(1)])
    (use schema_ok_references(1) [OF assms(1)] in \<open>auto simp: closing_simps [OF assms(2)]\<close>)

lemma confirmed_on_release:
  assumes "closing f"
  shows "confirmed_on s (release f b d) = filter (\<lambda>c. b_id c \<noteq> b_id b) (confirmed_on s d)"
  unfolding release_def confirmed_on_set_booked
  by (rule confirmed_on_drop) (simp_all add: closing_simps [OF assms])

lemma confirmed_on_release_other:
  assumes "schema_ok d" and "closing f" and "b \<in> set (bookings d)" and "s \<noteq> slot_id b"
  shows "confirmed_on s (release f b d) = confirmed_on s d"
  unfolding confirmed_on_release [OF assms(2)]
proof (rule filter_True, intro ballI)
  fix c
  assume "c \<in> set (confirmed_on s d)"
  then have "c \<in> set (bookings d)" "c \<noteq> b"
    using assms(4) by auto
  then show "b_id c \<noteq> b_id b"
    using assms(3) distinct_key_eq [OF schema_ok_distinct(7) [OF assms(1)]] by blast
qed

lemma release_base:
  assumes "base_inv d" and "closing f" and "b \<in> set (bookings d)"
  shows "base_inv (release f b d)"
proof -
  note ok = base_inv_schema [OF assms(1)]
  have "backed d"
    using assms(1) by (simp add: base_inv_def)
  then have "backed (release f b d)"
    by (rule free_slot_backed [OF _ schema_ok_release [OF ok assms(2)], where s = "slot_id b"])
      (simp_all add: confirmed_on_release_other [OF ok assms(2,3)])
  moreover have "slots_disjoint (release f b d)"
    using assms(1) by (simp add: base_inv_def release_def)
  ultimately show ?thesis
    using schema_ok_release [OF ok assms(2)] by (simp add: base_inv_def)
qed

text \<open>
  Bookings stay exclusive when the booking that is closed is the one that holds the slot, or
  nobody holds it. Closing an old booking of a slot that has a new holder frees a held slot.
\<close>

lemma confirmed_on_release_own:
  assumes "schema_ok d" and "exclusive d" and "closing f" and "b \<in> set (bookings d)"
    and "status b = CONFIRMED \<or> confirmed_on (slot_id b) d = []"
  shows "confirmed_on (slot_id b) (release f b d) = []"
  using assms(5) exclusive_single [OF assms(2,1,4)]
  by (auto simp: confirmed_on_release [OF assms(3)])

lemma release_exclusive:
  assumes "base_inv d" and "exclusive d" and "closing f" and "b \<in> set (bookings d)"
    and "status b = CONFIRMED \<or> confirmed_on (slot_id b) d = []"
  shows "exclusive (release f b d)"
proof -
  note ok = base_inv_schema [OF assms(1)]
  show ?thesis
    by (rule free_slot_exclusive [OF assms(2) schema_ok_release [OF ok assms(3)], where s = "slot_id b"])
      (simp_all add: confirmed_on_release_own [OF ok assms(2-5)]
        confirmed_on_release_other [OF ok assms(3,4)])
qed

lemma release_holder:
  assumes "base_inv d" and "exclusive d" and "closing f" and "b \<in> set (bookings d)"
    and "status b = CONFIRMED \<or> confirmed_on (slot_id b) d = []"
  shows "holder_of (release f b d) = (holder_of d)(slot_id b := None)"
proof
  fix s
  note ok = base_inv_schema [OF assms(1)]
  show "holder_of (release f b d) s = ((holder_of d)(slot_id b := None)) s"
    by (cases "s = slot_id b")
      (simp_all add: holder_of_def confirmed_on_release_own [OF ok assms(2-5)]
        confirmed_on_release_other [OF ok assms(3,4)])
qed

lemma holder_of_confirmed:
  assumes "base_inv d" and "exclusive d" and "b \<in> set (bookings d)" and "status b = CONFIRMED"
  shows "holder_of d (slot_id b) = Some (client_id b)"
  using exclusive_single [OF assms(2) base_inv_schema [OF assms(1)] assms(3,4)]
  by (simp add: holder_of_def)

lemma release_keeps_others:
  assumes "c \<in> set (bookings d)" and "b_id c \<noteq> b_id b"
  shows "c \<in> set (bookings (release f b d))"
  using assms by (force simp: set_update_by)

end
