(* ===== verification/Booking_Service.thy ===== *)
theory Booking_Service
  imports Slot_Calendar
begin

text \<open>
  \<^verbatim>\<open>app/services/booking_service.py\<close>: creating a booking for a slot, with idempotency keys and the
  handling of driver errors, and moving a booking to another slot. Then what they guarantee:
  a reference function for each, the invariant that a slot is marked booked exactly when one
  confirmed booking holds it, idempotent retries, and the fate of the database on errors.
\<close>

section \<open>The code\<close>

definition LOCK_CONFLICT_DETAIL :: string where
  "LOCK_CONFLICT_DETAIL = ''Slot booking is in progress. Retry the request.''"

definition SLOT_ALREADY_BOOKED_DETAIL :: string where
  "SLOT_ALREADY_BOOKED_DETAIL = ''Slot already booked''"

definition IDEMPOTENCY_KEY_REUSE_DETAIL :: string where
  "IDEMPOTENCY_KEY_REUSE_DETAIL = ''Idempotency key already used with another slot''"

definition BOOKING_NOT_RESCHEDULABLE_DETAIL :: string where
  "BOOKING_NOT_RESCHEDULABLE_DETAIL = ''Only confirmed bookings can be rescheduled''"

definition SLOT_SPECIALIST_MISMATCH_DETAIL :: string where
  "SLOT_SPECIALIST_MISMATCH_DETAIL = ''New slot must belong to the same specialist''"

definition PG_LOCK_NOT_AVAILABLE_SQLSTATE :: string where
  "PG_LOCK_NOT_AVAILABLE_SQLSTATE = ''55P03''"

lemmas detail_defs = LOCK_CONFLICT_DETAIL_def SLOT_ALREADY_BOOKED_DETAIL_def
  IDEMPOTENCY_KEY_REUSE_DETAIL_def BOOKING_NOT_RESCHEDULABLE_DETAIL_def
  SLOT_SPECIALIST_MISMATCH_DETAIL_def PG_LOCK_NOT_AVAILABLE_SQLSTATE_def

definition is_pg_lock_not_available :: "driver_error option \<Rightarrow> bool" where
  "is_pg_lock_not_available original_error =
     (case original_error of
        None \<Rightarrow> False
      | Some err \<Rightarrow>
          (let state = (case sqlstate err of None \<Rightarrow> pgcode err | Some c \<Rightarrow> Some c)
           in state = Some PG_LOCK_NOT_AVAILABLE_SQLSTATE))"

definition get_booking_by_idempotency_key :: "db \<Rightarrow> int \<Rightarrow> string \<Rightarrow> booking option" where
  "get_booking_by_idempotency_key d client key =
     find (\<lambda>b. client_id b = client \<and> idempotency_key b = Some key) (bookings d)"

text \<open>
  The block \<open>if existing_booking: ...\<close> that the function has three times: \<open>None\<close> when there is
  no such booking and the code goes on.
\<close>

definition existing_outcome :: "int \<Rightarrow> booking option \<Rightarrow> booking res option" where
  "existing_outcome slot existing =
     (case existing of
        None \<Rightarrow> None
      | Some b \<Rightarrow>
          Some (if slot_id b \<noteq> slot then Inl (http 409 IDEMPOTENCY_KEY_REUSE_DETAIL) else Inr b))"

text \<open>\<open>if idempotency_key:\<close> is false for None and for the empty string.\<close>

definition replay :: "int \<Rightarrow> int \<Rightarrow> string option \<Rightarrow> db \<Rightarrow> booking res option" where
  "replay slot client key d =
     (case key of
        None \<Rightarrow> None
      | Some k \<Rightarrow>
          if k = [] then None
          else existing_outcome slot (get_booking_by_idempotency_key d client k))"

definition key_given :: "string option \<Rightarrow> bool" where
  "key_given key = (case key of None \<Rightarrow> False | Some k \<Rightarrow> k \<noteq> [])"

text \<open>
  \<open>UPDATE time_slots SET is_booked = true WHERE id = ... AND is_booked IS false\<close>, with the number
  of rows it matches.
\<close>

definition claimable :: "int \<Rightarrow> time_slot \<Rightarrow> bool" where
  "claimable slot t \<longleftrightarrow> ts_id t = slot \<and> \<not> is_booked t"

definition claim_rowcount :: "int \<Rightarrow> db \<Rightarrow> nat" where
  "claim_rowcount slot d = length (filter (claimable slot) (time_slots d))"

definition claim_slot :: "int \<Rightarrow> db \<Rightarrow> db" where
  "claim_slot slot d = d\<lparr>time_slots :=
     map (\<lambda>t. if claimable slot t then t\<lparr>is_booked := True\<rparr> else t) (time_slots d)\<rparr>"

definition new_booking :: "env \<Rightarrow> int \<Rightarrow> int \<Rightarrow> string option \<Rightarrow> db \<Rightarrow> booking" where
  "new_booking e slot client key d =
     (let g = generated e Bookings (map b_id (bookings d))
      in \<lparr>b_id = fst g, slot_id = slot, client_id = client, idempotency_key = key,
          status = CONFIRMED, b_created_at = snd g, cancelled_at = None\<rparr>)"

definition add_booking :: "booking \<Rightarrow> db \<Rightarrow> db" where
  "add_booking b d = d\<lparr>bookings := bookings d @ [b]\<rparr>"

text \<open>The part of the \<open>try\<close> body after the first idempotency check.\<close>

definition claim_and_insert ::
  "env \<Rightarrow> int \<Rightarrow> int \<Rightarrow> string option \<Rightarrow> session \<Rightarrow> booking res \<times> session" where
  "claim_and_insert e slot client key s =
     exec e (Select_Slot (postgresql e)) s (\<lambda>s.
       case map_option ts_id (find_by ts_id slot (time_slots (current s))) of
         None \<Rightarrow> (Inl (http 404 ''Slot not found''), s)
       | Some slot_exists \<Rightarrow>
         if slot_exists = 0 then (Inl (http 404 ''Slot not found''), s)
         else exec e Update_Slot s (\<lambda>s.
           let rowcount = claim_rowcount slot (current s);
               s = modify (claim_slot slot) s
           in if rowcount \<noteq> 1 then
                (let s = rollback s;
                     conflict = (Inl (http 409 SLOT_ALREADY_BOOKED_DETAIL), s)
                 in if key_given key
                    then exec e Reselect_Idempotency s (\<lambda>s.
                      case replay slot client key (current s) of
                        Some r \<Rightarrow> (r, s)
                      | None \<Rightarrow> conflict)
                    else conflict)
              else
                (let b = new_booking e slot client key (current s);
                     s = modify (add_booking b) s
                 in exec e Commit s (\<lambda>s.
                      case commit s of
                        (Inl err, s) \<Rightarrow> (Inl err, s)
                      | (Inr _, s) \<Rightarrow> exec e Refresh s (\<lambda>s. (Inr b, s))))))"

definition create_booking_try ::
  "env \<Rightarrow> int \<Rightarrow> int \<Rightarrow> string option \<Rightarrow> session \<Rightarrow> booking res \<times> session" where
  "create_booking_try e slot client key s =
     (if key_given key
      then exec e Select_Idempotency s (\<lambda>s.
        case replay slot client key (current s) of
          Some r \<Rightarrow> (r, s)
        | None \<Rightarrow> claim_and_insert e slot client key s)
      else claim_and_insert e slot client key s)"

definition create_booking_for_slot ::
  "env \<Rightarrow> int \<Rightarrow> int \<Rightarrow> string option \<Rightarrow> session \<Rightarrow> booking res \<times> session" where
  "create_booking_for_slot e slot client key s =
     (case create_booking_try e slot client key s of
        (Inl (OperationalError err), s) \<Rightarrow>
          (let s = rollback s
           in if is_pg_lock_not_available err then (Inl (http 409 LOCK_CONFLICT_DETAIL), s)
              else (Inl (OperationalError err), s))
      | (Inl IntegrityError, s) \<Rightarrow>
          (let s = rollback s;
               conflict = (Inl (http 409 SLOT_ALREADY_BOOKED_DETAIL), s)
           in if key_given key
              then exec e Handler_Select_Idempotency s (\<lambda>s.
                case replay slot client key (current s) of
                  Some r \<Rightarrow> (r, s)
                | None \<Rightarrow> conflict)
              else conflict)
      | other \<Rightarrow> other)"

definition reschedule_body :: "env \<Rightarrow> int \<Rightarrow> int \<Rightarrow> session \<Rightarrow> booking res \<times> session" where
  "reschedule_body e booking_id new_slot_id s =
     exec e (Select_Booking (postgresql e)) s (\<lambda>s.
       case find_by b_id booking_id (bookings (current s)) of
         None \<Rightarrow> (Inl (http 404 ''Booking not found''), s)
       | Some bk \<Rightarrow>
         if status bk \<noteq> CONFIRMED then (Inl (http 409 BOOKING_NOT_RESCHEDULABLE_DETAIL), s)
         else if slot_id bk = new_slot_id then (Inr bk, s)
         else exec e (Select_Slots (postgresql e)) s (\<lambda>s.
           let current_slot_id = slot_id bk;
               slot_ids = {current_slot_id, new_slot_id};
               locked_slots = sort_key ts_id (filter (\<lambda>t. ts_id t \<in> slot_ids) (time_slots (current s)));
               slots_by_id = dict_of (map (\<lambda>t. (ts_id t, t)) locked_slots)
           in case slots_by_id current_slot_id of
                None \<Rightarrow> (Inl (http 404 ''Current slot not found''), s)
              | Some current_slot \<Rightarrow>
                (case slots_by_id new_slot_id of
                   None \<Rightarrow> (Inl (http 404 ''Slot not found''), s)
                 | Some new_slot \<Rightarrow>
                   if specialist_id new_slot \<noteq> specialist_id current_slot
                   then (Inl (http 409 SLOT_SPECIALIST_MISMATCH_DETAIL), s)
                   else if is_booked new_slot
                   then (Inl (http 409 SLOT_ALREADY_BOOKED_DETAIL), s)
                   else
                     (let s = modify (\<lambda>d.
                            update_booking (b_id bk) (\<lambda>b. b\<lparr>slot_id := ts_id new_slot\<rparr>)
                              (set_booked (ts_id new_slot) True
                                (set_booked (ts_id current_slot) False d))) s
                      in exec e Commit s (\<lambda>s.
                           case commit s of
                             (Inl err, s) \<Rightarrow> (Inl err, s)
                           | (Inr _, s) \<Rightarrow>
                             exec e Refresh s (\<lambda>s.
                               (Inr (bk\<lparr>slot_id := ts_id new_slot\<rparr>), s)))))))"

definition reschedule_booking :: "env \<Rightarrow> int \<Rightarrow> int \<Rightarrow> session \<Rightarrow> booking res \<times> session" where
  "reschedule_booking e booking_id new_slot_id s =
     (case reschedule_body e booking_id new_slot_id s of
        (Inl (OperationalError err), s) \<Rightarrow>
          (let s = rollback s
           in if is_pg_lock_not_available err then (Inl (http 409 LOCK_CONFLICT_DETAIL), s)
              else (Inl (OperationalError err), s))
      | other \<Rightarrow> other)"


section \<open>Creating a booking: the reference function\<close>

text \<open>
  What a call does to the committed database when no statement fails: one case distinction, no
  session, no exception handlers. The conflict of a concurrent insert does not occur here.
\<close>

definition create_booking_ref ::
  "env \<Rightarrow> int \<Rightarrow> int \<Rightarrow> string option \<Rightarrow> db \<Rightarrow> booking res \<times> db" where
  "create_booking_ref e slot client key d =
     (case replay slot client key d of
        Some r \<Rightarrow> (r, d)
      | None \<Rightarrow>
        (case find_by ts_id slot (time_slots d) of
           None \<Rightarrow> (Inl (http 404 ''Slot not found''), d)
         | Some t \<Rightarrow>
           if slot = 0 then (Inl (http 404 ''Slot not found''), d)
           else if is_booked t then (Inl (http 409 SLOT_ALREADY_BOOKED_DETAIL), d)
           else (let b = new_booking e slot client key d
                 in (Inr b, add_booking b (set_booked slot True d)))))"

lemma add_booking_fields [simp]:
  "users (add_booking b d) = users d"
  "specialist_profiles (add_booking b d) = specialist_profiles d"
  "services (add_booking b d) = services d"
  "time_slots (add_booking b d) = time_slots d"
  "bookings (add_booking b d) = bookings d @ [b]"
  "wait_list_entries (add_booking b d) = wait_list_entries d"
  by (simp_all add: add_booking_def)

lemma new_booking_fields [simp]:
  "slot_id (new_booking e slot client key d) = slot"
  "client_id (new_booking e slot client key d) = client"
  "idempotency_key (new_booking e slot client key d) = key"
  "status (new_booking e slot client key d) = CONFIRMED"
  "cancelled_at (new_booking e slot client key d) = None"
  "b_id (new_booking e slot client key d) = fst (generated e Bookings (map b_id (bookings d)))"
  by (simp_all add: new_booking_def Let_def)

lemma new_booking_bookings:
  "bookings d = bookings d' \<Longrightarrow> new_booking e slot client key d = new_booking e slot client key d'"
  by (simp add: new_booking_def)

lemma claim_rowcount_eq:
  assumes "schema_ok d"
  shows "claim_rowcount slot d = (case find_by ts_id slot (time_slots d) of
    None \<Rightarrow> 0 | Some t \<Rightarrow> if is_booked t then 0 else 1)"
proof -
  have "distinct (map ts_id ts) \<Longrightarrow> length (filter (claimable slot) ts) = (case find_by ts_id slot ts of
    None \<Rightarrow> 0 | Some t \<Rightarrow> if is_booked t then 0 else 1)" for ts
  proof (induction ts)
    case Nil
    then show ?case by simp
  next
    case (Cons t ts)
    show ?case
    proof (cases "ts_id t = slot")
      case True
      then have "filter (claimable slot) ts = []"
        using Cons.prems by (auto simp: filter_empty_conv claimable_def intro: rev_image_eqI)
      then show ?thesis
        using True by (simp add: claimable_def [of slot t])
    next
      case False
      then show ?thesis
        using Cons by (simp add: claimable_def [of slot t])
    qed
  qed
  then show ?thesis
    using assms by (simp add: claim_rowcount_def schema_ok_distinct)
qed

lemma claim_slot_eq:
  assumes "schema_ok d" and "find_by ts_id slot (time_slots d) = Some t" and "\<not> is_booked t"
  shows "claim_slot slot d = set_booked slot True d"
proof -
  have "distinct (map ts_id ts) \<Longrightarrow> find_by ts_id slot ts = Some t \<Longrightarrow>
    map (\<lambda>t. if claimable slot t then t\<lparr>is_booked := True\<rparr> else t) ts
      = update_by ts_id slot (\<lambda>t. t\<lparr>is_booked := True\<rparr>) ts" for ts
    using assms(3) by (force simp: update_by_def claimable_def find_by_distinct dest: eq_key_imp_eq_value)
  then show ?thesis
    using assms by (simp add: claim_slot_def set_booked_def schema_ok_distinct)
qed

lemma schema_ok_add_booking:
  assumes "schema_ok d" and "slot_id b \<in> ts_id ` set (time_slots d)"
    and "client_id b \<in> u_id ` set (users d)" and "b_id b \<notin> b_id ` set (bookings d)"
    and "\<And>k. idempotency_key b = Some k \<Longrightarrow> (client_id b, k) \<notin> set (idempotency_pairs (bookings d))"
  shows "schema_ok (add_booking b d)"
  using assms by (auto simp: schema_defs idempotency_pairs_append split: option.splits)

lemma replay_None_key:
  assumes "replay slot client (Some k) d = None" and "k \<noteq> []"
  shows "(client, k) \<notin> set (idempotency_pairs (bookings d))"
  using assms
  by (auto simp: replay_def existing_outcome_def get_booking_by_idempotency_key_def
      set_idempotency_pairs find_None_iff split: option.splits)

lemma replay_not_given: "\<not> key_given key \<Longrightarrow> replay slot client key d = None"
  by (auto simp: key_given_def replay_def split: option.splits)

lemma replay_outcome:
  assumes "replay slot client key d = Some r"
  shows "r = Inl (http 409 IDEMPOTENCY_KEY_REUSE_DETAIL) \<or> (\<exists>b \<in> set (bookings d). r = Inr b \<and>
    slot_id b = slot \<and> client_id b = client \<and> idempotency_key b = key)"
  using assms
  by (auto simp: replay_def existing_outcome_def get_booking_by_idempotency_key_def find_Some_iff
      split: option.splits if_splits)

lemma find_slot_mem: "find_by ts_id slot ts = Some t \<Longrightarrow> slot \<in> ts_id ` set ts"
  by (auto dest: find_by_SomeD)

lemma schema_ok_new_booking:
  assumes "schema_ok d" and "generated_ok e" and "client \<in> u_id ` set (users d)"
    and "slot \<in> ts_id ` set (time_slots d)"
    and "replay slot client key d = None" and "key \<noteq> Some []"
  shows "schema_ok (add_booking (new_booking e slot client key d) d)"
proof (rule schema_ok_add_booking)
  show "b_id (new_booking e slot client key d) \<notin> b_id ` set (bookings d)"
    using generated_fresh [OF assms(2), of Bookings "map b_id (bookings d)"] by simp
  show "(client_id (new_booking e slot client key d), k) \<notin> set (idempotency_pairs (bookings d))"
    if "idempotency_key (new_booking e slot client key d) = Some k" for k
    using that assms(5,6) replay_None_key [of slot client k d] by auto
qed (use assms in simp_all)

lemma add_booking_set_booked:
  "add_booking b (set_booked i v d) = set_booked i v (add_booking b d)"
  by (simp add: add_booking_def set_booked_def)

lemma schema_ok_booked_new:
  assumes "schema_ok d" and "generated_ok e" and "client \<in> u_id ` set (users d)"
    and "slot \<in> ts_id ` set (time_slots d)"
    and "replay slot client key d = None" and "key \<noteq> Some []"
  shows "schema_ok (add_booking (new_booking e slot client key d) (set_booked slot True d))"
  using schema_ok_new_booking [OF assms] by (simp add: add_booking_set_booked)

lemma claim_and_insert_ref:
  assumes "schema_ok d" and "generated_ok e" and "no_faults e" and "client \<in> u_id ` set (users d)"
    and "replay slot client key d = None" and "key \<noteq> Some []"
  shows "claim_and_insert e slot client key (open_session d)
    = (fst (create_booking_ref e slot client key d),
       open_session (snd (create_booking_ref e slot client key d)))"
proof (cases "find_by ts_id slot (time_slots d)")
  case None
  then show ?thesis
    using assms by (simp add: claim_and_insert_def create_booking_ref_def no_faults_def)
next
  case (Some t)
  have id: "ts_id t = slot" and mem: "slot \<in> ts_id ` set (time_slots d)"
    using Some by (auto dest: find_by_SomeD)
  have f: "fault e st = None" for st
    using assms(3) by (simp add: no_faults_def)
  have new: "new_booking e slot client key (set_booked slot True d) = new_booking e slot client key d"
    by (rule new_booking_bookings) simp
  have ok: "schema_ok (add_booking (new_booking e slot client key d) (set_booked slot True d))"
    using schema_ok_booked_new [OF assms(1,2,4) mem assms(5,6)] .
  show ?thesis
  proof (cases "slot = 0 \<or> is_booked t")
    case True
    then show ?thesis
      using Some id f assms(1,5)
      by (auto simp: claim_and_insert_def create_booking_ref_def claim_rowcount_eq Let_def)
  next
    case False
    then show ?thesis
      using Some id f assms(1,5) ok new claim_slot_eq [OF assms(1) Some]
      by (simp add: claim_and_insert_def create_booking_ref_def claim_rowcount_eq Let_def commit_ok)
  qed
qed

text \<open>Outcomes that no exception handler of the functions touches.\<close>

definition handled :: "'a res \<Rightarrow> bool" where
  "handled r = (case r of Inl (OperationalError _) \<Rightarrow> True | Inl IntegrityError \<Rightarrow> True | _ \<Rightarrow> False)"

lemma create_booking_unhandled:
  assumes "create_booking_try e slot client key s = (r, s')" and "\<not> handled r"
  shows "create_booking_for_slot e slot client key s = (r, s')"
  using assms by (auto simp: create_booking_for_slot_def handled_def split: sum.splits py_exc.splits)

lemma ref_unhandled: "\<not> handled (fst (create_booking_ref e slot client key d))"
  by (auto simp: create_booking_ref_def handled_def Let_def split: option.splits sum.splits
      dest!: replay_outcome)

lemma create_booking_open:
  assumes "schema_ok d" and "generated_ok e" and "no_faults e" and "client \<in> u_id ` set (users d)"
    and "key \<noteq> Some []"
  shows "create_booking_for_slot e slot client key (open_session d)
    = (fst (create_booking_ref e slot client key d),
       open_session (snd (create_booking_ref e slot client key d)))"
proof (rule create_booking_unhandled [OF _ ref_unhandled])
  have f: "fault e st = None" for st
    using assms(3) by (simp add: no_faults_def)
  show "create_booking_try e slot client key (open_session d)
    = (fst (create_booking_ref e slot client key d),
       open_session (snd (create_booking_ref e slot client key d)))"
  proof (cases "replay slot client key d")
    case None
    then show ?thesis
      using claim_and_insert_ref [OF assms(1-4) None assms(5)] f
      by (simp add: create_booking_try_def)
  next
    case (Some r)
    then have "key_given key"
      using replay_not_given [of key slot client d] by (cases "key_given key") auto
    then show ?thesis
      using Some f by (simp add: create_booking_try_def create_booking_ref_def)
  qed
qed

lemma get_db_create:
  assumes "schema_ok d" and "generated_ok e" and "no_faults e" and "client \<in> u_id ` set (users d)"
    and "key \<noteq> Some []"
  shows "get_db (create_booking_for_slot e slot client key) d = create_booking_ref e slot client key d"
  by (simp add: get_db_def create_booking_open [OF assms])

section \<open>Every call, whatever fails\<close>

text \<open>
  The database after a successful claim, and the shape of every outcome of the \<open>try\<close> body, with
  any statement allowed to fail: nothing is committed, or exactly the claim and the insert are.
\<close>

definition booked_db :: "env \<Rightarrow> int \<Rightarrow> int \<Rightarrow> string option \<Rightarrow> db \<Rightarrow> db" where
  "booked_db e slot client key d =
     add_booking (new_booking e slot client key d) (set_booked slot True d)"

definition claims :: "env \<Rightarrow> int \<Rightarrow> int \<Rightarrow> string option \<Rightarrow> db \<Rightarrow> booking res \<Rightarrow> db \<Rightarrow> bool" where
  "claims e slot client key d r d' \<longleftrightarrow>
     (\<exists>t. find_by ts_id slot (time_slots d) = Some t \<and> \<not> is_booked t) \<and> slot \<noteq> 0 \<and>
     replay slot client key d = None \<and>
     d' = booked_db e slot client key d \<and> schema_ok d' \<and>
     (r = Inr (new_booking e slot client key d) \<or>
      (\<exists>err. r = Inl (OperationalError err) \<and> fault e Refresh = Some err))"

lemma claim_and_insert_shape:
  assumes "schema_ok d" and "replay slot client key d = None"
    and "claim_and_insert e slot client key (open_session d) = (r, s')"
  shows "(committed s' = d \<and> \<not> is_ok r \<and> (handled r \<or> s' = open_session d))
    \<or> (s' = open_session (committed s') \<and> claims e slot client key d r (committed s'))"
proof (cases "find_by ts_id slot (time_slots d)")
  case None
  then show ?thesis
    using assms(3) by (auto simp: claim_and_insert_def exec_def handled_def split: option.splits)
next
  case (Some t)
  have id: "ts_id t = slot"
    using Some by (auto dest: find_by_SomeD)
  show ?thesis
  proof (cases "slot = 0 \<or> is_booked t")
    case True
    then show ?thesis
      using Some id assms
      by (auto simp: claim_and_insert_def exec_def handled_def claim_rowcount_eq Let_def
          split: option.splits if_splits)
  next
    case False
    have new: "new_booking e slot client key (set_booked slot True d) = new_booking e slot client key d"
      by (rule new_booking_bookings) simp
    show ?thesis
      using Some id False assms claim_slot_eq [OF assms(1) Some] new
      by (auto simp: claim_and_insert_def exec_def handled_def claim_rowcount_eq Let_def commit_def
          claims_def booked_db_def open_session_def modify_def split: option.splits if_splits)
  qed
qed

lemma create_booking_shape:
  assumes "schema_ok d" and "create_booking_for_slot e slot client key (open_session d) = (r, s')"
  shows "s' = open_session (committed s') \<and>
    ((committed s' = d \<and> (is_ok r \<longrightarrow> replay slot client key d = Some r)) \<or>
     (committed s' = booked_db e slot client key d \<and>
      (\<exists>r'. claims e slot client key d r' (committed s') \<and> (r = r' \<or> fault e Refresh \<noteq> None \<and> \<not> is_ok r))))"
proof -
  obtain r1 s1 where tried: "create_booking_try e slot client key (open_session d) = (r1, s1)"
    by (cases "create_booking_try e slot client key (open_session d)") auto
  have shape: "(committed s1 = d \<and> \<not> is_ok r1 \<and> (handled r1 \<or> s1 = open_session d))
      \<or> (s1 = open_session d \<and> replay slot client key d = Some r1)
      \<or> (s1 = open_session (committed s1) \<and> claims e slot client key d r1 (committed s1))"
  proof (cases "key_given key")
    case True
    then show ?thesis
      using tried claim_and_insert_shape [OF assms(1), of slot client key e r1 s1]
      by (auto simp: create_booking_try_def exec_def handled_def split: option.splits)
  next
    case False
    then show ?thesis
      using tried claim_and_insert_shape [OF assms(1), of slot client key e r1 s1]
        replay_not_given [of key slot client d]
      by (auto simp: create_booking_try_def)
  qed
  show ?thesis
  proof (cases "handled r1")
    case False
    then have "r = r1" "s' = s1"
      using create_booking_unhandled [OF tried] assms(2) by auto
    then show ?thesis
      using shape False by (auto simp: claims_def)
  next
    case True
    have roll: "rollback s1 = open_session (committed s1)"
      by (simp add: rollback_def open_session_def)
    have committed: "s' = open_session (committed s1)"
      using True assms(2) tried roll
      by (auto simp: create_booking_for_slot_def handled_def exec_def Let_def
          split: sum.splits py_exc.splits option.splits if_splits)
    have replayed: "is_ok r \<longrightarrow> replay slot client key (committed s1) = Some r"
      using True assms(2) tried roll
      by (auto simp: create_booking_for_slot_def handled_def exec_def Let_def
          split: sum.splits py_exc.splits option.splits if_splits)
    have failed: "\<not> is_ok r" if "r1 = Inl (OperationalError err)" for err
      using that assms(2) tried
      by (auto simp: create_booking_for_slot_def Let_def split: if_splits)
    from shape show ?thesis
    proof (elim disjE)
      assume "committed s1 = d \<and> \<not> is_ok r1 \<and> (handled r1 \<or> s1 = open_session d)"
      then show ?thesis
        using committed replayed by simp
    next
      assume "s1 = open_session d \<and> replay slot client key d = Some r1"
      then show ?thesis
        using True by (auto simp: handled_def dest: replay_outcome)
    next
      assume "s1 = open_session (committed s1) \<and> claims e slot client key d r1 (committed s1)"
      then have c: "claims e slot client key d r1 (committed s1)"
        by simp
      then obtain err where "r1 = Inl (OperationalError err)" "fault e Refresh = Some err"
        using True by (auto simp: claims_def handled_def)
      moreover have "committed s' = committed s1"
        using committed by (metis session_simps(1))
      ultimately show ?thesis
        using c committed failed by (auto simp: claims_def)
    qed
  qed
qed

section \<open>Invariants\<close>

lemma confirmed_on_add_booking [simp]:
  "confirmed_on s (add_booking b d)
    = confirmed_on s d @ (if slot_id b = s \<and> status b = CONFIRMED then [b] else [])"
  by (simp add: confirmed_on_def)

lemma queue_of_add_booking [simp]: "queue_of (add_booking b d) = queue_of d"
  by (rule queue_of_cong) simp

lemma slots_disjoint_add_booking [simp]: "slots_disjoint (add_booking b d) = slots_disjoint d"
  by (rule slots_disjoint_cong) simp

lemma claims_base:
  assumes "base_inv d" and "claims e slot client key d r d'"
  shows "base_inv d'"
proof -
  have "backed d'"
    using assms
    by (intro take_slot_backed [of d d' slot]) (auto simp: base_inv_def claims_def booked_db_def)
  then show ?thesis
    using assms by (auto simp: base_inv_def claims_def booked_db_def)
qed

lemma claims_exclusive:
  assumes "exclusive d" and "claims e slot client key d r d'"
  shows "exclusive d'"
proof -
  obtain t where t: "find_by ts_id slot (time_slots d) = Some t" "\<not> is_booked t"
    using assms(2) by (auto simp: claims_def)
  then show ?thesis
    using assms exclusive_free [OF assms(1) t]
    by (intro take_slot_exclusive [OF assms(1) _ t, of d' "new_booking e slot client key d"])
      (auto simp: claims_def booked_db_def)
qed

type_synonym create_args = "int \<times> int \<times> string option"

definition serve_create :: "env \<Rightarrow> create_args \<Rightarrow> db \<Rightarrow> booking res \<times> db" where
  "serve_create e a d = (case a of (slot, client, key) \<Rightarrow>
     get_db (create_booking_for_slot e slot client key) d)"

lemma serve_create_cases:
  assumes "schema_ok d" and "serve_create e (slot, client, key) d = (r, d')"
  shows "d' = d \<or> (\<exists>r'. claims e slot client key d r' d')"
  using assms create_booking_shape [OF assms(1), of e slot client key]
  by (auto simp: serve_create_def get_db_def split: prod.splits)

interpretation create: calendar_op serve_create "\<lambda>a d. True"
proof
  fix d e and a :: create_args
  assume inv: "base_inv d"
  obtain slot client key where a: "a = (slot, client, key)"
    by (cases a) auto
  obtain r d' where r: "serve_create e a d = (r, d')"
    by (cases "serve_create e a d") auto
  show "base_inv (snd (serve_create e a d))"
    using inv r a serve_create_cases [OF base_inv_schema [OF inv], of e slot client key r d']
    by (auto dest: claims_base)
  show "exclusive (snd (serve_create e a d))" if "exclusive d"
    using inv that r a serve_create_cases [OF base_inv_schema [OF inv], of e slot client key r d']
    by (auto dest: claims_exclusive)
qed

section \<open>Moving a booking\<close>

definition moved_db :: "booking \<Rightarrow> int \<Rightarrow> db \<Rightarrow> db" where
  "moved_db bk n d = update_booking (b_id bk) (\<lambda>b. b\<lparr>slot_id := n\<rparr>)
     (set_booked n True (set_booked (slot_id bk) False d))"

text \<open>The reference function: no session, no locks, no dictionary of slots.\<close>

definition reschedule_ref :: "int \<Rightarrow> int \<Rightarrow> db \<Rightarrow> booking res \<times> db" where
  "reschedule_ref i n d =
     (case find_by b_id i (bookings d) of
        None \<Rightarrow> (Inl (http 404 ''Booking not found''), d)
      | Some bk \<Rightarrow>
        if status bk \<noteq> CONFIRMED then (Inl (http 409 BOOKING_NOT_RESCHEDULABLE_DETAIL), d)
        else if slot_id bk = n then (Inr bk, d)
        else
          (case (find_by ts_id (slot_id bk) (time_slots d), find_by ts_id n (time_slots d)) of
             (None, _) \<Rightarrow> (Inl (http 404 ''Current slot not found''), d)
           | (Some _, None) \<Rightarrow> (Inl (http 404 ''Slot not found''), d)
           | (Some c, Some t) \<Rightarrow>
             if specialist_id t \<noteq> specialist_id c
             then (Inl (http 409 SLOT_SPECIALIST_MISMATCH_DETAIL), d)
             else if is_booked t then (Inl (http 409 SLOT_ALREADY_BOOKED_DETAIL), d)
             else (Inr (bk\<lparr>slot_id := n\<rparr>), moved_db bk n d)))"

lemma locked_slots_lookup:
  assumes "schema_ok d" and "i \<in> S"
  shows "dict_of (map (\<lambda>t. (ts_id t, t)) (sort_key ts_id (filter (\<lambda>t. ts_id t \<in> S) (time_slots d)))) i
    = find_by ts_id i (time_slots d)"
proof -
  have d: "distinct (map ts_id (filter (\<lambda>t. ts_id t \<in> S) (time_slots d)))"
    using schema_ok_distinct(6) [OF assms(1)] by (simp add: distinct_map_filter)
  then have "distinct (map ts_id (sort_key ts_id (filter (\<lambda>t. ts_id t \<in> S) (time_slots d))))"
    by (simp add: distinct_map)
  then show ?thesis
    using assms(2) d by (simp add: dict_of_map find_by_sort_key find_by_filter)
qed

lemma schema_ok_moved_db:
  assumes "schema_ok d" and "n \<in> ts_id ` set (time_slots d)"
  shows "schema_ok (moved_db bk n d)"
  unfolding moved_db_def using assms by (intro schema_ok_update_booking) auto

text \<open>The move happens: the condition under which the two functions write.\<close>

definition movable :: "int \<Rightarrow> int \<Rightarrow> db \<Rightarrow> booking \<Rightarrow> bool" where
  "movable i n d bk \<longleftrightarrow>
     find_by b_id i (bookings d) = Some bk \<and> status bk = CONFIRMED \<and> slot_id bk \<noteq> n \<and>
     (\<exists>c t. find_by ts_id (slot_id bk) (time_slots d) = Some c \<and>
        find_by ts_id n (time_slots d) = Some t \<and>
        specialist_id t = specialist_id c \<and> \<not> is_booked t)"

lemma reschedule_ref_movable:
  "movable i n d bk \<Longrightarrow> reschedule_ref i n d = (Inr (bk\<lparr>slot_id := n\<rparr>), moved_db bk n d)"
  by (auto simp: movable_def reschedule_ref_def)

lemma reschedule_ref_same:
  "(\<nexists>bk. movable i n d bk) \<Longrightarrow> snd (reschedule_ref i n d) = d"
  by (auto simp: movable_def reschedule_ref_def split: option.splits)

lemma reschedule_ref_unhandled: "\<not> handled (fst (reschedule_ref i n d))"
  by (auto simp: reschedule_ref_def handled_def split: option.splits)

text \<open>The body before the commit: a refusal, nothing to do, or the three writes.\<close>

lemma reschedule_body_eq:
  assumes "schema_ok d"
  shows "reschedule_body e i n (open_session d) =
    exec e (Select_Booking (postgresql e)) (open_session d) (\<lambda>s.
      if \<exists>bk. find_by b_id i (bookings d) = Some bk \<and> status bk = CONFIRMED \<and> slot_id bk \<noteq> n
      then exec e (Select_Slots (postgresql e)) s (\<lambda>s.
        if \<exists>bk. movable i n d bk
        then exec e Commit (modify (\<lambda>_. snd (reschedule_ref i n d)) s) (\<lambda>s.
          exec e Refresh (open_session (current s)) (\<lambda>s. (fst (reschedule_ref i n d), s)))
        else (fst (reschedule_ref i n d), s))
      else (fst (reschedule_ref i n d), s))"
proof (cases "find_by b_id i (bookings d)")
  case None
  then show ?thesis
    by (cases "fault e (Select_Booking (postgresql e))")
      (simp_all add: reschedule_body_def reschedule_ref_def)
next
  case (Some bk)
  note bk = this
  have id: "b_id bk = i"
    using bk by (auto dest: find_by_SomeD)
  show ?thesis
  proof (cases "status bk = CONFIRMED \<and> slot_id bk \<noteq> n")
    case False
    then show ?thesis
      using bk by (auto simp: reschedule_body_def reschedule_ref_def exec_def split: option.splits)
  next
    case True
    show ?thesis
    proof (cases "find_by ts_id (slot_id bk) (time_slots d)")
      case None
      then show ?thesis
        using bk True locked_slots_lookup [OF assms, of "slot_id bk" "{slot_id bk, n}"]
        by (auto simp: reschedule_body_def reschedule_ref_def movable_def exec_def Let_def
            split: option.splits)
    next
      case (Some c)
      note c = this
      have cid: "ts_id c = slot_id bk"
        using c by (auto dest: find_by_SomeD)
      show ?thesis
      proof (cases "find_by ts_id n (time_slots d)")
        case None
        then show ?thesis
          using bk True c locked_slots_lookup [OF assms, of "slot_id bk" "{slot_id bk, n}"]
            locked_slots_lookup [OF assms, of n "{slot_id bk, n}"]
          by (auto simp: reschedule_body_def reschedule_ref_def movable_def exec_def Let_def
              split: option.splits)
      next
        case (Some t)
        have tid: "ts_id t = n"
          using Some by (auto dest: find_by_SomeD)
        have ok: "schema_ok (moved_db bk n d)"
          using Some by (intro schema_ok_moved_db [OF assms]) (rule find_slot_mem)
        then show ?thesis
          using bk True c Some id cid tid
            locked_slots_lookup [OF assms, of "slot_id bk" "{slot_id bk, n}"]
            locked_slots_lookup [OF assms, of n "{slot_id bk, n}"]
          by (auto simp: reschedule_body_def reschedule_ref_def movable_def exec_def Let_def
              moved_db_def modify_def commit_ok split: option.splits)
      qed
    qed
  qed
qed

lemma reschedule_unhandled:
  assumes "reschedule_body e i n s = (r, s')" and "\<not> handled r"
  shows "reschedule_booking e i n s = (r, s')"
  using assms by (auto simp: reschedule_booking_def handled_def split: sum.splits py_exc.splits)

lemma reschedule_open:
  assumes "schema_ok d" and "no_faults e"
  shows "reschedule_booking e i n (open_session d)
    = (fst (reschedule_ref i n d), open_session (snd (reschedule_ref i n d)))"
proof (rule reschedule_unhandled [OF _ reschedule_ref_unhandled])
  have f: "fault e st = None" for st
    using assms(2) by (simp add: no_faults_def)
  show "reschedule_body e i n (open_session d)
    = (fst (reschedule_ref i n d), open_session (snd (reschedule_ref i n d)))"
    using f reschedule_ref_same [of i n d]
    by (auto simp: reschedule_body_eq [OF assms(1)] movable_def)
qed

lemma get_db_reschedule:
  assumes "schema_ok d" and "no_faults e"
  shows "get_db (reschedule_booking e i n) d = reschedule_ref i n d"
  by (simp add: get_db_def reschedule_open [OF assms])

text \<open>With failing statements: all of the move is committed or none of it.\<close>

lemma reschedule_shape:
  assumes "schema_ok d" and "reschedule_booking e i n (open_session d) = (r, s')"
  shows "s' = open_session (committed s') \<and>
    (committed s' = d \<and> (is_ok r \<longrightarrow> r = fst (reschedule_ref i n d)) \<or>
     (\<exists>bk. movable i n d bk) \<and> committed s' = snd (reschedule_ref i n d) \<and>
       (is_ok r \<longrightarrow> r = fst (reschedule_ref i n d)))"
proof -
  have roll: "rollback s = open_session (committed s)" for s
    by (simp add: rollback_def open_session_def)
  show ?thesis
    using assms(2) reschedule_ref_unhandled [of i n d]
    by (auto simp: reschedule_booking_def reschedule_body_eq [OF assms(1)] exec_def roll handled_def Let_def
        split: option.splits if_splits sum.splits py_exc.splits)
qed

lemma moved_db_fields [simp]:
  "users (moved_db bk n d) = users d"
  "specialist_profiles (moved_db bk n d) = specialist_profiles d"
  "services (moved_db bk n d) = services d"
  "wait_list_entries (moved_db bk n d) = wait_list_entries d"
  "bookings (moved_db bk n d) = update_by b_id (b_id bk) (\<lambda>b. b\<lparr>slot_id := n\<rparr>) (bookings d)"
  "time_slots (moved_db bk n d) = time_slots (set_booked n True (set_booked (slot_id bk) False d))"
  by (simp_all add: moved_db_def)

lemma movableD:
  assumes "movable i n d bk"
  shows "bk \<in> set (bookings d)" "b_id bk = i" "status bk = CONFIRMED" "slot_id bk \<noteq> n"
    "find_by b_id i (bookings d) = Some bk"
    "\<exists>t. find_by ts_id n (time_slots d) = Some t \<and> \<not> is_booked t"
  using assms by (auto simp: movable_def dest: find_by_SomeD)

lemma moved_db_mem:
  assumes "schema_ok d" and "movable i n d bk"
  shows "bk\<lparr>slot_id := n\<rparr> \<in> set (bookings (moved_db bk n d))"
    and "c \<in> set (bookings d) \<Longrightarrow> c \<noteq> bk \<Longrightarrow> c \<in> set (bookings (moved_db bk n d))"
proof -
  note mv = movableD [OF assms(2)]
  show "bk\<lparr>slot_id := n\<rparr> \<in> set (bookings (moved_db bk n d))"
    using mv by (auto simp: set_update_by)
  assume c: "c \<in> set (bookings d)" "c \<noteq> bk"
  then have "b_id c \<noteq> b_id bk"
    using mv(1) distinct_key_eq [OF schema_ok_distinct(7) [OF assms(1)]] by blast
  then show "c \<in> set (bookings (moved_db bk n d))"
    using c by (force simp: set_update_by)
qed

lemma confirmed_on_moved_db:
  assumes "schema_ok d" and "exclusive d" and "movable i n d bk"
  shows "confirmed_on s (moved_db bk n d)
    = (if s = n then [bk\<lparr>slot_id := n\<rparr>] else if s = slot_id bk then [] else confirmed_on s d)"
proof -
  note mv = movableD [OF assms(3)]
  let ?d = "set_booked n True (set_booked (slot_id bk) False d)"
  obtain t where "find_by ts_id n (time_slots d) = Some t" "\<not> is_booked t"
    using mv(6) by auto
  then have free: "confirmed_on n ?d = []"
    using exclusive_free [OF assms(2)] by simp
  have only: "confirmed_on (slot_id bk) d = [bk]"
    using exclusive_single [OF assms(2,1) mv(1,3)] .
  have "filter (\<lambda>b. b_id b \<noteq> i) (confirmed_on s d) = confirmed_on s d" if "s \<noteq> slot_id bk"
  proof (rule filter_True, intro ballI)
    fix b
    assume "b \<in> set (confirmed_on s d)"
    then have "b \<in> set (bookings d)" "b \<noteq> bk"
      using that by auto
    then show "b_id b \<noteq> i"
      using mv(1,2) distinct_key_eq [OF schema_ok_distinct(7) [OF assms(1)]] by blast
  qed
  then show ?thesis
    using confirmed_on_move [of ?d i bk n s] assms(1) mv free only
    by (auto simp: moved_db_def)
qed

lemma moved_db_base:
  assumes "base_inv d" and "movable i n d bk"
  shows "base_inv (moved_db bk n d)"
proof -
  note ok = base_inv_schema [OF assms(1)] and mv = movableD [OF assms(2)]
  obtain t where t: "find_by ts_id n (time_slots d) = Some t"
    using mv(6) by auto
  have schema: "schema_ok (moved_db bk n d)"
    using t by (intro schema_ok_moved_db [OF ok]) (rule find_slot_mem)
  have "backed (moved_db bk n d)"
  proof (rule backedI [OF schema])
    fix u v
    assume u: "find_by ts_id u (time_slots (moved_db bk n d)) = Some v" "is_booked v"
    show "confirmed_on u (moved_db bk n d) \<noteq> []"
    proof (cases "u = n")
      case True
      have "bk\<lparr>slot_id := n\<rparr> \<in> set (confirmed_on n (moved_db bk n d))"
        using moved_db_mem(1) [OF ok assms(2)] mv by simp
      then show ?thesis
        using True by (metis empty_iff list.set(1))
    next
      case False
      then have "u \<noteq> slot_id bk" "find_by ts_id u (time_slots d) = Some v"
        using u by (auto split: if_splits)
      then obtain c where "c \<in> set (confirmed_on u d)"
        using backedD [of d u v] assms(1) u(2) by (cases "confirmed_on u d") (auto simp: base_inv_def)
      then have "c \<in> set (confirmed_on u (moved_db bk n d))"
        using moved_db_mem(2) [OF ok assms(2), of c] \<open>u \<noteq> slot_id bk\<close> by auto
      then show ?thesis
        by (metis empty_iff list.set(1))
    qed
  qed
  moreover have "slots_disjoint (moved_db bk n d)"
    using assms(1) by (simp add: moved_db_def base_inv_def)
  ultimately show ?thesis
    using schema by (simp add: base_inv_def)
qed

lemma moved_db_exclusive:
  assumes "base_inv d" and "exclusive d" and "movable i n d bk"
  shows "exclusive (moved_db bk n d)"
proof (rule exclusiveI)
  note ok = base_inv_schema [OF assms(1)]
  show "schema_ok (moved_db bk n d)"
    using moved_db_base [OF assms(1,3)] by (rule base_inv_schema)
  fix u v
  assume v: "find_by ts_id u (time_slots (moved_db bk n d)) = Some v"
  note on = confirmed_on_moved_db [OF ok assms(2,3), of u]
  show "length (confirmed_on u (moved_db bk n d)) = (if is_booked v then 1 else 0)"
  proof (cases "u = n \<or> u = slot_id bk")
    case True
    then show ?thesis
      using v movableD(4) [OF assms(3)] by (auto simp: on)
  next
    case False
    then have "find_by ts_id u (time_slots d) = Some v"
      using v by simp
    from exclusiveD [OF assms(2) this] show ?thesis
      using False by (simp add: on)
  qed
qed

definition serve_reschedule :: "env \<Rightarrow> int \<times> int \<Rightarrow> db \<Rightarrow> booking res \<times> db" where
  "serve_reschedule e a d = (case a of (i, n) \<Rightarrow> get_db (reschedule_booking e i n) d)"

lemma serve_reschedule_cases:
  assumes "schema_ok d" and "serve_reschedule e (i, n) d = (r, d')"
  shows "(d' = d \<or> (\<exists>bk. movable i n d bk \<and> d' = moved_db bk n d)) \<and>
    (is_ok r \<longrightarrow> r = fst (reschedule_ref i n d))"
proof -
  obtain s' where s': "reschedule_booking e i n (open_session d) = (r, s')" "d' = committed s'"
    using assms(2) by (auto simp: serve_reschedule_def get_db_def split: prod.splits)
  then show ?thesis
    using reschedule_shape [OF assms(1) s'(1)] by (auto simp: reschedule_ref_movable)
qed

interpretation reschedule: calendar_op serve_reschedule "\<lambda>a d. True"
proof
  fix d e and a :: "int \<times> int"
  assume inv: "base_inv d"
  obtain i n r d' where a: "a = (i, n)" and r: "serve_reschedule e a d = (r, d')"
    by (cases a; cases "serve_reschedule e a d") auto
  note shape = serve_reschedule_cases [OF base_inv_schema [OF inv] r [unfolded a]]
  show "base_inv (snd (serve_reschedule e a d))"
    using inv r shape by (auto dest: moved_db_base)
  show "exclusive (snd (serve_reschedule e a d))" if "exclusive d"
    using inv that r shape by (auto dest: moved_db_exclusive)
qed

section \<open>Replays and conflicts\<close>

lemma replay_unhandled: "replay slot client key d = Some r \<Longrightarrow> \<not> handled r"
  by (auto simp: handled_def dest: replay_outcome)

lemma create_booking_replay:
  assumes "fault e Select_Idempotency = None" and "replay slot client key d = Some r"
  shows "create_booking_for_slot e slot client key (open_session d) = (r, open_session d)"
proof (rule create_booking_unhandled [OF _ replay_unhandled [OF assms(2)]])
  have "key_given key"
    using assms(2) replay_not_given [of key slot client d] by (cases "key_given key") auto
  then show "create_booking_try e slot client key (open_session d) = (r, open_session d)"
    using assms by (simp add: create_booking_try_def)
qed

text \<open>A committed booking with a key is what a second call with the key finds.\<close>

lemma replay_booked_db:
  assumes "replay slot client (Some k) d = None" and "k \<noteq> []"
  shows "replay slot client (Some k) (booked_db e slot client (Some k) d)
    = Some (Inr (new_booking e slot client (Some k) d))"
proof -
  have none: "find (\<lambda>b. client_id b = client \<and> idempotency_key b = Some k) (bookings d) = None"
    using assms
    by (auto simp: replay_def existing_outcome_def get_booking_by_idempotency_key_def split: option.splits)
  have "find P bs = None \<Longrightarrow> P b \<Longrightarrow> find P (bs @ [b]) = Some b" for P and bs :: "booking list" and b
    by (induction bs) auto
  then show ?thesis
    using assms(2) none
    by (simp add: replay_def existing_outcome_def get_booking_by_idempotency_key_def booked_db_def)
qed

lemma create_booking_retry:
  assumes "schema_ok d" and "k \<noteq> []"
    and "create_booking_for_slot e slot client (Some k) (open_session d) = (Inr b, s')"
    and "fault e' Select_Idempotency = None"
  shows "create_booking_for_slot e' slot client (Some k) (open_session (committed s'))
    = (Inr b, open_session (committed s'))"
proof -
  have "replay slot client (Some k) (committed s') = Some (Inr b)"
    using create_booking_shape [OF assms(1,3)] assms(2) by (auto simp: claims_def replay_booked_db)
  then show ?thesis
    by (rule create_booking_replay [OF assms(4)])
qed

lemma create_booking_lock_fault:
  assumes "postgresql e" and "fault e (Select_Slot True) = Some err"
    and "fault e Select_Idempotency = None" and "replay slot client key d = None"
  shows "create_booking_for_slot e slot client key (open_session d)
    = (Inl (if is_pg_lock_not_available err then http 409 LOCK_CONFLICT_DETAIL else OperationalError err),
       open_session d)"
  using assms
  by (simp add: create_booking_for_slot_def create_booking_try_def claim_and_insert_def)

text \<open>How a claim changes the holders.\<close>

lemma claims_holder:
  assumes "exclusive d" and "claims e slot client key d r d'"
  shows "holder_of d slot = None \<and> holder_of d' = (holder_of d)(slot := Some client)
    \<and> queue_of d' = queue_of d"
proof -
  obtain t where t: "find_by ts_id slot (time_slots d) = Some t" "\<not> is_booked t"
    using assms(2) by (auto simp: claims_def)
  have "confirmed_on slot d = []"
    using exclusive_free [OF assms(1) t] .
  then show ?thesis
    using assms(2)
    by (auto simp: claims_def booked_db_def holder_of_def fun_eq_iff split: list.splits)
qed

text \<open>A call without a key for a free slot, when bookings are exclusive.\<close>

lemma create_ref_free:
  assumes "base_inv d" and "exclusive d" and "generated_ok e" and "holder_of d slot = None" and "slot \<noteq> 0"
    and "slot \<in> ts_id ` set (time_slots d)" and "client \<in> u_id ` set (users d)"
  shows "create_booking_ref e slot client None d
      = (Inr (new_booking e slot client None d), booked_db e slot client None d) \<and>
    claims e slot client None d (Inr (new_booking e slot client None d)) (booked_db e slot client None d)"
proof -
  obtain t where t: "find_by ts_id slot (time_slots d) = Some t"
    using assms(6) by (metis find_by_mem_None not_None_eq)
  have free: "\<not> is_booked t"
    using exclusive_holder [OF assms(2) t] assms(4) by simp
  have no_replay: "replay slot client None d = None"
    by (simp add: replay_def)
  then have "schema_ok (booked_db e slot client None d)"
    using schema_ok_booked_new [OF base_inv_schema [OF assms(1)] assms(3,7,6)] by (simp add: booked_db_def)
  then show ?thesis
    using t free no_replay assms(5)
    by (simp add: create_booking_ref_def claims_def booked_db_def Let_def)
qed

lemma moved_db_holder:
  assumes "base_inv d" and "exclusive d" and "movable i n d bk"
  shows "holder_of d (slot_id bk) = Some (client_id bk) \<and> holder_of d n = None \<and>
    holder_of (moved_db bk n d) = (holder_of d)(slot_id bk := None, n := Some (client_id bk))
    \<and> queue_of (moved_db bk n d) = queue_of d"
proof -
  note ok = base_inv_schema [OF assms(1)] and mv = movableD [OF assms(3)]
  have "confirmed_on (slot_id bk) d = [bk]"
    using exclusive_single [OF assms(2) ok mv(1,3)] .
  moreover have "confirmed_on n d = []"
    using mv(6) exclusive_free [OF assms(2)] by blast
  moreover have "queue_of (moved_db bk n d) = queue_of d"
    by (rule queue_of_cong) simp
  ultimately show ?thesis
    by (auto simp: holder_of_def fun_eq_iff confirmed_on_moved_db [OF ok assms(2,3)])
qed

end
