(* ===== verification/Wait_List_Service.thy ===== *)
theory Wait_List_Service
  imports Booking_Service
begin

text \<open>
  \<^verbatim>\<open>app/services/wait_list_service.py\<close>: joining the wait list of a booked slot, and giving a freed
  slot to the first client of its list. The lemmas describe both as operations on the queue of
  the slot, and show that a promotion keeps bookings exclusive whatever statement fails in it.
\<close>

section \<open>The code\<close>

definition SLOT_IS_AVAILABLE_DETAIL :: string where
  "SLOT_IS_AVAILABLE_DETAIL = ''Slot is available. Book directly''"

definition ALREADY_IN_WAIT_LIST_DETAIL :: string where
  "ALREADY_IN_WAIT_LIST_DETAIL = ''Client is already in wait list for this slot''"

definition ALREADY_HAS_BOOKING_DETAIL :: string where
  "ALREADY_HAS_BOOKING_DETAIL = ''Client already has booking for this slot''"

lemmas wait_list_detail_defs = SLOT_IS_AVAILABLE_DETAIL_def ALREADY_IN_WAIT_LIST_DETAIL_def
  ALREADY_HAS_BOOKING_DETAIL_def

definition has_confirmed :: "int \<Rightarrow> int \<Rightarrow> db \<Rightarrow> bool" where
  "has_confirmed slot client d =
     holds_for (\<lambda>b. slot_id b = slot \<and> client_id b = client \<and> status b = CONFIRMED) (bookings d)"

definition new_entry :: "env \<Rightarrow> int \<Rightarrow> int \<Rightarrow> db \<Rightarrow> wait_list_entry" where
  "new_entry e slot client d =
     (let g = generated e Wait_List (map w_id (wait_list_entries d))
      in \<lparr>w_id = fst g, w_slot_id = slot, w_client_id = client, w_created_at = snd g\<rparr>)"

definition add_entry :: "wait_list_entry \<Rightarrow> db \<Rightarrow> db" where
  "add_entry w d = d\<lparr>wait_list_entries := wait_list_entries d @ [w]\<rparr>"

definition remove_entry :: "int \<Rightarrow> db \<Rightarrow> db" where
  "remove_entry i d = d\<lparr>wait_list_entries := delete_by w_id i (wait_list_entries d)\<rparr>"

definition add_client_to_wait_list ::
  "env \<Rightarrow> int \<Rightarrow> int \<Rightarrow> session \<Rightarrow> wait_list_entry res \<times> session" where
  "add_client_to_wait_list e slot client s =
     (case find_by ts_id slot (time_slots (current s)) of
        None \<Rightarrow> (Inl (http 404 ''Slot not found''), s)
      | Some t \<Rightarrow>
        if \<not> is_booked t then (Inl (http 409 SLOT_IS_AVAILABLE_DETAIL), s)
        else if has_confirmed slot client (current s)
        then (Inl (http 409 ALREADY_HAS_BOOKING_DETAIL), s)
        else
          (let w = new_entry e slot client (current s);
               s = modify (add_entry w) s
           in case commit s of
                (Inl IntegrityError, s) \<Rightarrow>
                  (let s = rollback s in (Inl (http 409 ALREADY_IN_WAIT_LIST_DETAIL), s))
              | (Inl err, s) \<Rightarrow> (Inl err, s)
              | (Inr _, s) \<Rightarrow> (Inr w, s)))"

definition promote_next_wait_list_entry ::
  "env \<Rightarrow> int \<Rightarrow> session \<Rightarrow> booking option res \<times> session" where
  "promote_next_wait_list_entry e slot s =
     (case slot_queue slot (current s) of
        [] \<Rightarrow> (Inr None, s)
      | entry # _ \<Rightarrow>
        (case create_booking_for_slot e slot (w_client_id entry) None s of
           (Inl err, s) \<Rightarrow> (Inl err, s)
         | (Inr promoted_booking, s) \<Rightarrow>
           (let s = modify (remove_entry (w_id entry)) s
            in case commit s of
                 (Inl err, s) \<Rightarrow> (Inl err, s)
               | (Inr _, s) \<Rightarrow> (Inr (Some promoted_booking), s))))"

section \<open>Queues\<close>

lemma add_entry_fields [simp]:
  "users (add_entry w d) = users d" "specialist_profiles (add_entry w d) = specialist_profiles d"
  "services (add_entry w d) = services d" "time_slots (add_entry w d) = time_slots d"
  "bookings (add_entry w d) = bookings d"
  "wait_list_entries (add_entry w d) = wait_list_entries d @ [w]"
  by (simp_all add: add_entry_def)

lemma remove_entry_fields [simp]:
  "users (remove_entry i d) = users d" "specialist_profiles (remove_entry i d) = specialist_profiles d"
  "services (remove_entry i d) = services d" "time_slots (remove_entry i d) = time_slots d"
  "bookings (remove_entry i d) = bookings d"
  "wait_list_entries (remove_entry i d) = delete_by w_id i (wait_list_entries d)"
  by (simp_all add: remove_entry_def)

lemma holder_of_cong: "bookings d = bookings d' \<Longrightarrow> holder_of d = holder_of d'"
  using confirmed_on_cong [of d d'] by (simp add: holder_of_def fun_eq_iff)

lemma entry_holders [simp]:
  "holder_of (add_entry w d) = holder_of d" "holder_of (remove_entry i d) = holder_of d"
  by (rule holder_of_cong, simp)+

text \<open>The invariants do not look at the wait list, apart from the constraints.\<close>

lemma exclusive_cong:
  "time_slots d = time_slots d' \<Longrightarrow> bookings d = bookings d' \<Longrightarrow> exclusive d = exclusive d'"
  using confirmed_on_cong [of d d'] by (simp add: exclusive_def)

lemma backed_cong:
  "time_slots d = time_slots d' \<Longrightarrow> bookings d = bookings d' \<Longrightarrow> backed d = backed d'"
  using confirmed_on_cong [of d d'] by (simp add: backed_def)

lemma entry_invariants [simp]:
  "exclusive (add_entry w d) = exclusive d" "exclusive (remove_entry i d) = exclusive d"
  "backed (add_entry w d) = backed d" "backed (remove_entry i d) = backed d"
  "slots_disjoint (add_entry w d) = slots_disjoint d"
  "slots_disjoint (remove_entry i d) = slots_disjoint d"
  by (rule exclusive_cong backed_cong slots_disjoint_cong; simp)+

lemma schema_ok_remove_entry: "schema_ok d \<Longrightarrow> schema_ok (remove_entry i d)"
  by (auto simp: schema_defs distinct_map_delete_by list_all_iff set_delete_by)

lemma base_inv_remove_entry: "base_inv d \<Longrightarrow> base_inv (remove_entry i d)"
  by (simp add: base_inv_def schema_ok_remove_entry)

lemma mem_slot_queue [simp]: "w \<in> set (slot_queue s d) \<longleftrightarrow> w \<in> set (wait_list_entries d) \<and> w_slot_id w = s"
  by (auto simp: slot_queue_def)

lemma slot_queue_head:
  assumes "slot_queue s d = w # ws"
  shows "w \<in> set (wait_list_entries d)" "w_slot_id w = s"
    "v \<in> set (wait_list_entries d) \<Longrightarrow> w_slot_id v = s \<Longrightarrow> queue_key w \<le> queue_key v"
proof -
  have "w \<in> set (slot_queue s d)"
    using assms by simp
  then show "w \<in> set (wait_list_entries d)" "w_slot_id w = s"
    by simp_all
  show "queue_key w \<le> queue_key v" if "v \<in> set (wait_list_entries d)" "w_slot_id v = s"
    using assms sort_key_head [of queue_key "filter (\<lambda>w. w_slot_id w = s) (wait_list_entries d)" w ws] that
    by (simp add: slot_queue_def del: queue_key_less_eq)
qed

lemma distinct_slot_queue:
  assumes "schema_ok d"
  shows "distinct (map w_id (slot_queue s d))"
  using schema_ok_distinct(9) [OF assms]
  by (simp add: slot_queue_def distinct_map inj_on_def)

text \<open>Removing the first entry of a slot pops its queue and leaves the others alone.\<close>

lemma slot_queue_remove:
  "slot_queue s (remove_entry i d) = filter (\<lambda>w. w_id w \<noteq> i) (slot_queue s d)"
  by (simp add: slot_queue_def filter_sort delete_by_def conj_commute)

lemma queue_of_pop:
  assumes "schema_ok d" and "slot_queue s d = w # ws"
  shows "queue_of (remove_entry (w_id w) d) = (queue_of d)(s := map w_client_id ws)"
proof
  fix u
  show "queue_of (remove_entry (w_id w) d) u = ((queue_of d)(s := map w_client_id ws)) u"
  proof (cases "u = s")
    case True
    have "w_id w \<notin> w_id ` set ws"
      using distinct_slot_queue [OF assms(1), of s] assms(2) by simp
    then have "filter (\<lambda>v. w_id v \<noteq> w_id w) ws = ws"
      by (auto simp: filter_id_conv intro: rev_image_eqI)
    then show ?thesis
      using True assms(2) by (simp add: queue_of_def slot_queue_remove)
  next
    case False
    have "w_id v \<noteq> w_id w" if "v \<in> set (slot_queue u d)" for v
    proof
      assume "w_id v = w_id w"
      then have "v = w"
        using that slot_queue_head [OF assms(2)] distinct_key_eq [OF schema_ok_distinct(9) [OF assms(1)]]
        by auto
      then show False
        using that False slot_queue_head(2) [OF assms(2)] by simp
    qed
    then have "filter (\<lambda>v. w_id v \<noteq> w_id w) (slot_queue u d) = slot_queue u d"
      by (auto simp: filter_id_conv)
    then show ?thesis
      using False by (simp add: queue_of_def slot_queue_remove)
  qed
qed

text \<open>A row that sorts after every row of the list goes to its end.\<close>

lemma insort_key_snoc: "f x \<le> f y \<Longrightarrow> insort_key f x (xs @ [y]) = insort_key f x xs @ [y]"
  by (induction xs) auto

lemma sort_key_snoc:
  assumes "\<And>x. x \<in> set xs \<Longrightarrow> f x \<le> f y"
  shows "sort_key f (xs @ [y]) = sort_key f xs @ [y]"
  using assms by (induction xs) (simp_all add: insort_key_snoc)

lemma queue_of_push:
  assumes "\<And>v. v \<in> set (wait_list_entries d) \<Longrightarrow> queue_key v \<le> queue_key w"
  shows "queue_of (add_entry w d) = (queue_of d)(w_slot_id w := queue_of d (w_slot_id w) @ [w_client_id w])"
proof -
  have "slot_queue u (add_entry w d) = slot_queue u d @ (if w_slot_id w = u then [w] else [])" for u
    using assms sort_key_snoc [of "filter (\<lambda>w. w_slot_id w = u) (wait_list_entries d)" queue_key w]
    by (simp add: slot_queue_def del: queue_key_less_eq)
  then show ?thesis
    by (auto simp: queue_of_def fun_eq_iff)
qed

section \<open>Promotion\<close>

text \<open>
  Every outcome of a promotion, with any statement of the booking allowed to fail: nothing, the
  booking alone (its refresh failed), or the booking and the removal of the entry.
\<close>

lemma promote_shape:
  assumes "schema_ok d" and "promote_next_wait_list_entry e slot (open_session d) = (r, s')"
  shows "s' = open_session (committed s') \<and>
    (committed s' = d \<and> (slot_queue slot d = [] \<longrightarrow> r = Inr None) \<and>
        (slot_queue slot d \<noteq> [] \<longrightarrow> \<not> is_ok r) \<or>
     (\<exists>w ws r'. slot_queue slot d = w # ws \<and>
        (claims e slot (w_client_id w) None d r' (committed s') \<and> \<not> is_ok r \<or>
         (\<exists>d'. claims e slot (w_client_id w) None d r' d' \<and> committed s' = remove_entry (w_id w) d' \<and>
            r = Inr (Some (new_booking e slot (w_client_id w) None d))))))"
proof (cases "slot_queue slot d")
  case Nil
  then show ?thesis
    using assms(2) by (auto simp: promote_next_wait_list_entry_def)
next
  case (Cons w ws)
  obtain r1 s1 where call: "create_booking_for_slot e slot (w_client_id w) None (open_session d) = (r1, s1)"
    by (cases "create_booking_for_slot e slot (w_client_id w) None (open_session d)") auto
  have no_replay: "replay slot (w_client_id w) None d' = None" for d'
    by (simp add: replay_def)
  note shape = create_booking_shape [OF assms(1) call]
  show ?thesis
  proof (cases r1)
    case (Inl err)
    then show ?thesis
      using Cons assms(2) call shape no_replay
      by (auto simp: promote_next_wait_list_entry_def)
  next
    case (Inr b)
    then obtain d' where s1: "s1 = open_session d'" and c: "claims e slot (w_client_id w) None d (Inr b) d'"
      using shape no_replay by fastforce
    have ok: "schema_ok (remove_entry (w_id w) d')"
      using c by (auto simp: claims_def intro: schema_ok_remove_entry)
    have b: "b = new_booking e slot (w_client_id w) None d"
      using c by (simp add: claims_def)
    have "r = Inr (Some b) \<and> s' = open_session (remove_entry (w_id w) d')"
      using assms(2) Cons call Inr s1 ok
      by (simp add: promote_next_wait_list_entry_def commit_def open_session_def modify_def)
    then show ?thesis
      using Cons c b by auto
  qed
qed

definition serve_promote :: "env \<Rightarrow> int \<Rightarrow> db \<Rightarrow> booking option res \<times> db" where
  "serve_promote e slot d = get_db (promote_next_wait_list_entry e slot) d"

lemma serve_promote_cases:
  assumes "schema_ok d" and "serve_promote e slot d = (r, d')"
  shows "d' = d \<or> (\<exists>c r' d1. claims e slot c None d r' d1 \<and> (d' = d1 \<or> (\<exists>i. d' = remove_entry i d1)))"
proof -
  obtain s' where s': "promote_next_wait_list_entry e slot (open_session d) = (r, s')" "d' = committed s'"
    using assms(2) by (auto simp: serve_promote_def get_db_def split: prod.splits)
  then show ?thesis
    using promote_shape [OF assms(1) s'(1)] by blast
qed

interpretation promote: calendar_op serve_promote "\<lambda>a d. True"
proof
  fix d e and slot :: int
  assume inv: "base_inv d"
  obtain r d' where r: "serve_promote e slot d = (r, d')"
    by (cases "serve_promote e slot d") auto
  note shape = serve_promote_cases [OF base_inv_schema [OF inv] r]
  show "base_inv (snd (serve_promote e slot d))"
    using inv r shape by (auto dest: claims_base intro: base_inv_remove_entry)
  show "exclusive (snd (serve_promote e slot d))" if "exclusive d"
    using inv that r shape by (auto dest: claims_exclusive)
qed

text \<open>The reference function of a promotion whose statements do not fail.\<close>

definition promote_ref :: "env \<Rightarrow> int \<Rightarrow> db \<Rightarrow> booking option res \<times> db" where
  "promote_ref e slot d =
     (case slot_queue slot d of
        [] \<Rightarrow> (Inr None, d)
      | w # _ \<Rightarrow>
        (case create_booking_ref e slot (w_client_id w) None d of
           (Inl err, d') \<Rightarrow> (Inl err, d')
         | (Inr b, d') \<Rightarrow> (Inr (Some b), remove_entry (w_id w) d')))"

lemma promote_open:
  assumes "schema_ok d" and "generated_ok e" and "no_faults e"
  shows "promote_next_wait_list_entry e slot (open_session d)
    = (fst (promote_ref e slot d), open_session (snd (promote_ref e slot d)))"
proof (cases "slot_queue slot d")
  case Nil
  then show ?thesis
    by (simp add: promote_next_wait_list_entry_def promote_ref_def)
next
  case (Cons w ws)
  have client: "w_client_id w \<in> u_id ` set (users d)"
    using slot_queue_head(1) [OF Cons] schema_ok_references(4) [OF assms(1)] by blast
  obtain r d' where ref: "create_booking_ref e slot (w_client_id w) None d = (r, d')"
    by (cases "create_booking_ref e slot (w_client_id w) None d") auto
  have call: "create_booking_for_slot e slot (w_client_id w) None (open_session d) = (r, open_session d')"
    using create_booking_open [OF assms client, of None slot] ref by simp
  have "schema_ok d'"
    using create_booking_shape [OF assms(1) call] assms(1) by (auto simp: claims_def)
  then have "commit (modify (remove_entry (w_id w)) (open_session d'))
      = (Inr (), open_session (remove_entry (w_id w) d'))"
    by (simp add: commit_ok schema_ok_remove_entry)
  then show ?thesis
    using Cons call ref
    by (simp add: promote_next_wait_list_entry_def promote_ref_def split: sum.splits)
qed

text \<open>
  In a calendar with exclusive bookings, the promotion of a free slot gives it to the head of its
  queue, which leaves the queue; nothing else changes.
\<close>

lemma promote_ref_free:
  assumes "base_inv d" and "exclusive d" and "generated_ok e" and "holder_of d slot = None"
    and "slot \<noteq> 0" and "slot_queue slot d = w # ws"
  shows "\<exists>b. promote_ref e slot d = (Inr (Some b), remove_entry (w_id w) (booked_db e slot (w_client_id w) None d))
    \<and> claims e slot (w_client_id w) None d (Inr b) (booked_db e slot (w_client_id w) None d)"
proof -
  have "slot \<in> ts_id ` set (time_slots d)" "w_client_id w \<in> u_id ` set (users d)"
    using slot_queue_head(1,2) [OF assms(6)] schema_ok_references(3,4) [OF base_inv_schema [OF assms(1)]] by blast+
  from create_ref_free [OF assms(1-5) this] show ?thesis
    using assms(6) by (simp add: promote_ref_def)
qed

lemma promote_ref_calendar:
  assumes "base_inv d" and "exclusive d" and "generated_ok e" and "holder_of d slot = None"
    and "slot \<noteq> 0" and "slot_queue slot d = w # ws"
  shows "holder_of (snd (promote_ref e slot d)) = (holder_of d)(slot := Some (w_client_id w)) \<and>
    queue_of (snd (promote_ref e slot d)) = (queue_of d)(slot := map w_client_id ws) \<and>
    is_ok (fst (promote_ref e slot d))"
proof -
  let ?d = "booked_db e slot (w_client_id w) None d"
  obtain b where b: "promote_ref e slot d = (Inr (Some b), remove_entry (w_id w) ?d)"
    and c: "claims e slot (w_client_id w) None d (Inr b) ?d"
    using promote_ref_free [OF assms] by blast
  have "slot_queue slot ?d = w # ws"
    using assms(6) slot_queue_cong [of ?d d slot] by (simp add: booked_db_def)
  moreover have "schema_ok ?d"
    using c by (simp add: claims_def)
  ultimately show ?thesis
    using b claims_holder [OF assms(2) c] queue_of_pop [of ?d slot w ws] by simp
qed

lemma serve_promote_open:
  assumes "schema_ok d"
  shows "\<exists>r. promote_next_wait_list_entry e slot (open_session d)
    = (r, open_session (snd (serve_promote e slot d)))"
proof -
  obtain r s' where r: "promote_next_wait_list_entry e slot (open_session d) = (r, s')"
    by (cases "promote_next_wait_list_entry e slot (open_session d)") auto
  then show ?thesis
    using promote_shape [OF assms r] by (auto simp: serve_promote_def get_db_def)
qed

text \<open>
  One promotion of a free slot on holders and queues: the head of the queue, if any, becomes the
  holder.
\<close>

definition next_holder :: "int list \<Rightarrow> int option" where
  "next_holder q = (case q of [] \<Rightarrow> None | c # _ \<Rightarrow> Some c)"

lemma promote_calendar:
  assumes "base_inv d" and "exclusive d" and "generated_ok e" and "no_faults e"
    and "holder_of d slot = None" and "slot \<noteq> 0"
  shows "\<exists>x d'. promote_next_wait_list_entry e slot (open_session d) = (Inr x, open_session d') \<and>
    base_inv d' \<and> exclusive d' \<and>
    holder_of d' = (holder_of d)(slot := next_holder (queue_of d slot)) \<and>
    queue_of d' = (queue_of d)(slot := tl (queue_of d slot))"
proof -
  note ok = base_inv_schema [OF assms(1)]
  let ?d = "snd (promote_ref e slot d)"
  have call: "promote_next_wait_list_entry e slot (open_session d)
      = (fst (promote_ref e slot d), open_session ?d)"
    using promote_open [OF ok assms(3,4)] .
  then have "serve_promote e slot d = promote_ref e slot d"
    by (simp add: serve_promote_def get_db_def)
  then have keeps: "base_inv ?d" "exclusive ?d"
    using promote.keeps_base [OF assms(1), of e slot]
      promote.keeps_exclusive [OF assms(1,2), where e = e and a = slot] by simp_all
  show ?thesis
  proof (cases "slot_queue slot d")
    case Nil
    then show ?thesis
      using call assms(1,2,5)
      by (auto simp: promote_ref_def queue_of_def next_holder_def fun_eq_iff)
  next
    case (Cons w ws)
    then show ?thesis
      using call keeps promote_ref_calendar [OF assms(1-3,5,6) Cons]
      by (auto simp: queue_of_def next_holder_def elim!: is_ok_E)
  qed
qed

section \<open>Joining\<close>

text \<open>The reference function: the constraint violation is a test of the queue.\<close>

definition join_ref :: "env \<Rightarrow> int \<Rightarrow> int \<Rightarrow> db \<Rightarrow> wait_list_entry res \<times> db" where
  "join_ref e slot client d =
     (case find_by ts_id slot (time_slots d) of
        None \<Rightarrow> (Inl (http 404 ''Slot not found''), d)
      | Some t \<Rightarrow>
        if \<not> is_booked t then (Inl (http 409 SLOT_IS_AVAILABLE_DETAIL), d)
        else if has_confirmed slot client d then (Inl (http 409 ALREADY_HAS_BOOKING_DETAIL), d)
        else if client \<in> set (queue_of d slot) then (Inl (http 409 ALREADY_IN_WAIT_LIST_DETAIL), d)
        else (let w = new_entry e slot client d in (Inr w, add_entry w d)))"

lemma new_entry_fields [simp]:
  "w_slot_id (new_entry e slot client d) = slot" "w_client_id (new_entry e slot client d) = client"
  "w_id (new_entry e slot client d) = fst (generated e Wait_List (map w_id (wait_list_entries d)))"
  by (simp_all add: new_entry_def Let_def)

lemma mem_queue_of: "client \<in> set (queue_of d slot) \<longleftrightarrow>
    (slot, client) \<in> (\<lambda>w. (w_slot_id w, w_client_id w)) ` set (wait_list_entries d)"
  by (auto simp: queue_of_def)

lemma schema_ok_add_entry:
  assumes "schema_ok d" and "generated_ok e" and "client \<in> u_id ` set (users d)"
    and "slot \<in> ts_id ` set (time_slots d)"
  shows "schema_ok (add_entry (new_entry e slot client d) d) \<longleftrightarrow> client \<notin> set (queue_of d slot)"
  using assms generated_fresh [OF assms(2), of Wait_List "map w_id (wait_list_entries d)"]
  by (auto simp: schema_defs mem_queue_of)

lemma add_client_to_wait_list_open:
  assumes "schema_ok d" and "generated_ok e" and "client \<in> u_id ` set (users d)"
  shows "add_client_to_wait_list e slot client (open_session d)
    = (fst (join_ref e slot client d), open_session (snd (join_ref e slot client d)))"
proof (cases "find_by ts_id slot (time_slots d)")
  case None
  then show ?thesis
    by (simp add: add_client_to_wait_list_def join_ref_def)
next
  case (Some t)
  then have "slot \<in> ts_id ` set (time_slots d)"
    by (auto dest: find_by_SomeD)
  from schema_ok_add_entry [OF assms this]
  show ?thesis
    using Some
    by (simp add: add_client_to_wait_list_def join_ref_def commit_def open_session_def modify_def
        rollback_def Let_def)
qed

text \<open>What any call commits, also for a client the database does not know.\<close>

definition serve_join :: "env \<Rightarrow> int \<times> int \<Rightarrow> db \<Rightarrow> wait_list_entry res \<times> db" where
  "serve_join e a d = (case a of (slot, client) \<Rightarrow> get_db (add_client_to_wait_list e slot client) d)"

lemma serve_join_cases:
  assumes "serve_join e a d = (r, d')"
  shows "d' = d \<or> (\<exists>w. d' = add_entry w d \<and> schema_ok d')"
  using assms
  by (auto simp: serve_join_def get_db_def add_client_to_wait_list_def commit_def Let_def
      split: option.splits if_splits prod.splits)

interpretation join: calendar_op serve_join "\<lambda>a d. True"
proof
  fix d e and a :: "int \<times> int"
  assume inv: "base_inv d"
  obtain r d' where r: "serve_join e a d = (r, d')"
    by (cases "serve_join e a d") auto
  show "base_inv (snd (serve_join e a d))"
    using inv r serve_join_cases [OF r] by (auto simp: base_inv_def)
  show "exclusive (snd (serve_join e a d))" if "exclusive d"
    using that r serve_join_cases [OF r] by auto
qed

end
