(* ===== verification/Bookings_Api.thy ===== *)
theory Bookings_Api
  imports Security Joins Release Wait_List_Service
begin

text \<open>
  \<^verbatim>\<open>app/api/v1/bookings.py\<close>: the handlers of the bookings router, with the response models of
  \<^verbatim>\<open>schemas/booking.py\<close> and \<^verbatim>\<open>schemas/wait_list.py\<close> and the paging parameters of
  \<^verbatim>\<open>api/pagination.py\<close>. A handler takes the current user, which its dependency has authenticated;
  role checks are part of the handler. Path and body ids are integers, as FastAPI parses them.
\<close>

section \<open>Responses and parameters\<close>

record booking_response =
  br_id :: int
  br_slot_id :: int
  br_client_id :: int
  br_status :: string
  br_created_at :: instant
  br_cancelled_at :: "instant option"

record specialist_booking_summary = booking_response +
  br_client_email :: string
  br_slot_start_at :: instant
  br_slot_end_at :: instant

record wait_list_entry_response =
  wr_id :: int
  wr_slot_id :: int
  wr_client_id :: int
  wr_created_at :: instant

definition booking_view :: "booking \<Rightarrow> booking_response" where
  "booking_view b = \<lparr>br_id = b_id b, br_slot_id = slot_id b, br_client_id = client_id b,
     br_status = status_value (status b), br_created_at = b_created_at b,
     br_cancelled_at = cancelled_at b\<rparr>"

definition wait_list_view :: "wait_list_entry \<Rightarrow> wait_list_entry_response" where
  "wait_list_view w = \<lparr>wr_id = w_id w, wr_slot_id = w_slot_id w, wr_client_id = w_client_id w,
     wr_created_at = w_created_at w\<rparr>"

text \<open>\<open>LimitParam\<close> and \<open>OffsetParam\<close>: the values the framework lets through.\<close>

definition limit_param :: "int \<Rightarrow> bool" where
  "limit_param l \<longleftrightarrow> 1 \<le> l \<and> l \<le> 100"

definition offset_param :: "int \<Rightarrow> bool" where
  "offset_param offs \<longleftrightarrow> 0 \<le> offs"

text \<open>
  A \<open>date\<close> is the number of days since 0001-01-01, at most that of 9999-12-31; adding a day to
  that one raises \<open>OverflowError\<close>. \<open>datetime.combine(d, time.min, tzinfo=utc)\<close> is its midnight.
\<close>

type_synonym date = int

definition date_max :: date where
  "date_max = 3652058"

definition day_length :: int where
  "day_length = 86400000000"

definition midnight :: "date \<Rightarrow> instant" where
  "midnight d = d * day_length"

definition next_day :: "date \<Rightarrow> date res" where
  "next_day d = (if date_max < d + 1 then Inl OverflowError else Inr (d + 1))"

section \<open>Creating and cancelling\<close>

definition normalize_key :: "string option \<Rightarrow> string option res" where
  "normalize_key header =
     (case header of
        None \<Rightarrow> Inr None
      | Some raw \<Rightarrow>
        (let normalized = py_strip raw
         in if normalized = [] then Inl (http 400 ''Idempotency-Key header must not be empty'')
            else if length normalized > 128
            then Inl (http 400 ''Idempotency-Key header is too long (max 128 characters)'')
            else Inr (Some normalized)))"

definition create_booking ::
  "env \<Rightarrow> int \<Rightarrow> string option \<Rightarrow> user \<Rightarrow> session \<Rightarrow> booking_response res \<times> session" where
  "create_booking e payload_slot_id header user =
     depends (require_roles [CLIENT, ADMIN] user) (\<lambda>current_user s.
       case normalize_key header of
         Inl err \<Rightarrow> (Inl err, s)
       | Inr key \<Rightarrow>
         (case create_booking_for_slot e payload_slot_id (u_id current_user) key s of
            (Inl err, s) \<Rightarrow> (Inl err, s)
          | (Inr b, s) \<Rightarrow> (Inr (booking_view b), s)))"

text \<open>The permission check that cancelling and rescheduling share.\<close>

definition allowed_on :: "user \<Rightarrow> booking \<Rightarrow> time_slot \<Rightarrow> db \<Rightarrow> bool" where
  "allowed_on current_user b slot d =
     (let allowed = (role_value (role current_user) = role_value ADMIN \<or> client_id b = u_id current_user)
      in if \<not> allowed
         then (case find_by sp_id (specialist_id slot) (specialist_profiles d) of
                 None \<Rightarrow> False
               | Some specialist \<Rightarrow> sp_user_id specialist = u_id current_user)
         else True)"

definition cancel_booking ::
  "env \<Rightarrow> int \<Rightarrow> user \<Rightarrow> session \<Rightarrow> booking_response res \<times> session" where
  "cancel_booking e booking_id current_user s =
     (case find_by b_id booking_id (bookings (current s)) of
        None \<Rightarrow> (Inl (http 404 ''Booking not found''), s)
      | Some b \<Rightarrow>
        (case find_by ts_id (slot_id b) (time_slots (current s)) of
           None \<Rightarrow> (Inl (http 404 ''Slot not found''), s)
         | Some slot \<Rightarrow>
           if \<not> allowed_on current_user b slot (current s)
           then (Inl (http 403 ''Not enough permissions''), s)
           else
             (let was_cancelled_now = (status b \<noteq> CANCELLED);
                  s = (if was_cancelled_now
                       then modify (\<lambda>d. set_booked (ts_id slot) False
                              (update_booking (b_id b) (cancel (now e)) d)) s
                       else s)
              in case commit s of
                   (Inl err, s) \<Rightarrow> (Inl err, s)
                 | (Inr _, s) \<Rightarrow>
                   (case (if was_cancelled_now then promote_next_wait_list_entry e (ts_id slot) s
                          else (Inr None, s)) of
                      (Inl err, s) \<Rightarrow> (Inl err, s)
                    | (Inr _, s) \<Rightarrow>
                      (case find_by b_id (b_id b) (bookings (current s)) of
                         None \<Rightarrow> (Inl InvalidRequestError, s)
                       | Some refreshed \<Rightarrow> (Inr (booking_view refreshed), s))))))"

definition reschedule_existing_booking ::
  "env \<Rightarrow> int \<Rightarrow> int \<Rightarrow> user \<Rightarrow> session \<Rightarrow> booking_response res \<times> session" where
  "reschedule_existing_booking e booking_id payload_slot_id current_user s =
     (case find_by b_id booking_id (bookings (current s)) of
        None \<Rightarrow> (Inl (http 404 ''Booking not found''), s)
      | Some b \<Rightarrow>
        (case find_by ts_id (slot_id b) (time_slots (current s)) of
           None \<Rightarrow> (Inl (http 404 ''Slot not found''), s)
         | Some current_slot \<Rightarrow>
           if \<not> allowed_on current_user b current_slot (current s)
           then (Inl (http 403 ''Not enough permissions''), s)
           else
             (case reschedule_booking e booking_id payload_slot_id s of
                (Inl err, s) \<Rightarrow> (Inl err, s)
              | (Inr updated, s) \<Rightarrow> (Inr (booking_view updated), s))))"

section \<open>Reading bookings\<close>

definition may_read :: "user \<Rightarrow> booking \<Rightarrow> specialist_profile \<Rightarrow> bool" where
  "may_read current_user b specialist =
     (let is_admin = (role_value (role current_user) = role_value ADMIN);
          is_client_owner = (client_id b = u_id current_user);
          is_specialist_owner = (sp_user_id specialist = u_id current_user)
      in is_admin \<or> is_client_owner \<or> is_specialist_owner)"

definition get_booking_by_id :: "int \<Rightarrow> user \<Rightarrow> db \<Rightarrow> booking_response res" where
  "get_booking_by_id booking_id current_user d =
     (case first_row (filter (\<lambda>(b, _, _). b_id b = booking_id) (booking_specialist_join d)) of
        None \<Rightarrow> Inl (http 404 ''Booking not found'')
      | Some (b, _, specialist) \<Rightarrow>
        if \<not> may_read current_user b specialist then Inl (http 403 ''Not enough permissions'')
        else Inr (booking_view b))"

text \<open>The filters of a listing by the start of the slot; \<open>Inl\<close> when \<open>date_to + 1 day\<close> overflows.\<close>

definition listing_filter ::
  "booking_status option \<Rightarrow> date option \<Rightarrow> date option \<Rightarrow> (booking \<Rightarrow> time_slot \<Rightarrow> bool) res" where
  "listing_filter status_filter date_from date_to =
     res_bind (case date_to of None \<Rightarrow> Inr None | Some d \<Rightarrow> res_bind (next_day d) (\<lambda>n. Inr (Some (midnight n))))
       (\<lambda>end_dt. Inr (\<lambda>b t.
         (case status_filter of None \<Rightarrow> True | Some st \<Rightarrow> status_value (status b) = status_value st) \<and>
         (case date_from of None \<Rightarrow> True | Some d \<Rightarrow> midnight d \<le> start_at t) \<and>
         (case end_dt of None \<Rightarrow> True | Some x \<Rightarrow> start_at t < x)))"

definition list_my_bookings ::
  "booking_status option \<Rightarrow> date option \<Rightarrow> date option \<Rightarrow> int \<Rightarrow> int \<Rightarrow> user \<Rightarrow> db
    \<Rightarrow> booking_response list res" where
  "list_my_bookings status_filter date_from date_to l offs current_user d =
     res_bind (listing_filter status_filter date_from date_to) (\<lambda>P.
       let rows = filter (\<lambda>(b, t). client_id b = u_id current_user \<and> P b t) (booking_slot_join d);
           found = page l offs (sort_key b_id (map fst rows))
       in Inr (map booking_view found))"

definition summary_view :: "booking \<times> time_slot \<times> user \<Rightarrow> specialist_booking_summary" where
  "summary_view row = (case row of (b, t, u) \<Rightarrow>
     \<lparr>br_id = b_id b, br_slot_id = slot_id b, br_client_id = client_id b,
      br_status = status_value (status b), br_created_at = b_created_at b,
      br_cancelled_at = cancelled_at b, br_client_email = email u,
      br_slot_start_at = start_at t, br_slot_end_at = end_at t\<rparr>)"

definition list_specialist_bookings ::
  "booking_status option \<Rightarrow> date option \<Rightarrow> date option \<Rightarrow> int \<Rightarrow> int \<Rightarrow> user \<Rightarrow> db
    \<Rightarrow> specialist_booking_summary list res" where
  "list_specialist_bookings status_filter date_from date_to l offs user d =
     res_bind (require_roles [SPECIALIST, ADMIN] user) (\<lambda>current_user.
       case find_by sp_user_id (u_id current_user) (specialist_profiles d) of
         None \<Rightarrow> Inl (http 404 ''Specialist profile not found'')
       | Some profile \<Rightarrow>
         res_bind (listing_filter status_filter date_from date_to) (\<lambda>P.
           let rows = filter (\<lambda>(b, t, u). specialist_id t = sp_id profile \<and> P b t)
                 (booking_slot_client_join d)
           in Inr (map summary_view (page l offs (sort_key (\<lambda>(b, t, u). b_id b) rows)))))"

section \<open>The wait list\<close>

definition join_wait_list ::
  "env \<Rightarrow> int \<Rightarrow> user \<Rightarrow> session \<Rightarrow> wait_list_entry_response res \<times> session" where
  "join_wait_list e payload_slot_id user =
     depends (require_roles [CLIENT, ADMIN] user) (\<lambda>current_user s.
       case add_client_to_wait_list e payload_slot_id (u_id current_user) s of
         (Inl err, s) \<Rightarrow> (Inl err, s)
       | (Inr w, s) \<Rightarrow> (Inr (wait_list_view w), s))"

definition list_my_wait_list :: "int \<Rightarrow> int \<Rightarrow> user \<Rightarrow> db \<Rightarrow> wait_list_entry_response list" where
  "list_my_wait_list l offs current_user d =
     map wait_list_view (page l offs (sort_key queue_key
       (filter (\<lambda>w. w_client_id w = u_id current_user) (wait_list_entries d))))"

definition leave_wait_list :: "int \<Rightarrow> user \<Rightarrow> session \<Rightarrow> unit res \<times> session" where
  "leave_wait_list entry_id current_user s =
     (case find_by w_id entry_id (wait_list_entries (current s)) of
        None \<Rightarrow> (Inl (http 404 ''Wait list entry not found''), s)
      | Some entry \<Rightarrow>
        (let is_admin = (role_value (role current_user) = role_value ADMIN)
         in if \<not> (is_admin \<or> w_client_id entry = u_id current_user)
            then (Inl (http 403 ''Not enough permissions''), s)
            else
              (let s = modify (remove_entry (w_id entry)) s
               in case commit s of
                    (Inl err, s) \<Rightarrow> (Inl err, s)
                  | (Inr _, s) \<Rightarrow> (Inr (), s))))"

end
