(* ===== verification/Booking_Cancellation.thy ===== *)
theory Booking_Cancellation
  imports Bookings_Api
begin

text \<open>
  What the writing handlers of the bookings router do to the calendar: the cancellation as one
  function of the committed database, its effect on holders and queues, the condition under which
  it keeps bookings exclusive, and the contract of the other handlers.
\<close>

section \<open>Cancelling: the reference function\<close>

text \<open>
  The session, the locks and the refresh are gone; the promotion is the call of the service, with
  whatever statements fail in it. The cancellation is committed before: its outcome stands when
  the promotion raises.
\<close>

definition cancel_ref :: "env \<Rightarrow> int \<Rightarrow> user \<Rightarrow> db \<Rightarrow> booking_response res \<times> db" where
  "cancel_ref e i u d =
     (case find_by b_id i (bookings d) of
        None \<Rightarrow> (Inl (http 404 ''Booking not found''), d)
      | Some b \<Rightarrow>
        if \<not> allowed_on u b (slot_of d b) d then (Inl (http 403 ''Not enough permissions''), d)
        else if status b = CANCELLED then (Inr (booking_view b), d)
        else (case serve_promote e (slot_id b) (release (cancel (now e)) b d) of
                (Inl err, d') \<Rightarrow> (Inl err, d')
              | (Inr _, d') \<Rightarrow> (Inr (booking_view (cancel (now e) b)), d')))"

lemma allowed_on_eq:
  "allowed_on u b slot d \<longleftrightarrow> role u = ADMIN \<or> client_id b = u_id u \<or>
     (\<exists>p. find_by sp_id (specialist_id slot) (specialist_profiles d) = Some p \<and> sp_user_id p = u_id u)"
  by (auto simp: allowed_on_def Let_def simp del: role_value.simps split: option.split)

text \<open>A promotion keeps the bookings there are; it may add one at the end.\<close>

lemma serve_promote_bookings:
  assumes "schema_ok d" and "serve_promote e slot d = (r, d')"
  shows "\<exists>new. bookings d' = bookings d @ new"
proof -
  have claim: "bookings d1 = bookings d @ [new_booking e slot c None d]"
    if "claims e slot c None d r' d1" for c r' d1
    using that by (simp add: claims_def booked_db_def)
  from serve_promote_cases [OF assms] consider "d' = d"
    | c r' d1 where "claims e slot c None d r' d1" "d' = d1 \<or> (\<exists>i. d' = remove_entry i d1)"
    by blast
  then show ?thesis
  proof cases
    case 1
    then show ?thesis by simp
  next
    case 2
    then have "bookings d' = bookings d1"
      by auto
    then show ?thesis
      using claim [OF 2(1)] by auto
  qed
qed

lemma find_by_prefix: "find_by key i xs = Some x \<Longrightarrow> find_by key i (xs @ ys) = Some x"
  by (simp add: find_by_append)

lemma find_booking_release:
  assumes "closing f" and "find_by b_id (b_id b) (bookings d) = Some b"
  shows "find_by b_id (b_id b) (bookings (release f b d)) = Some (f b)"
  using assms(2) find_by_update_by [of b_id f] closing_simps(1) [OF assms(1)] by simp

lemma release_fun:
  "(\<lambda>d. set_booked (slot_id b) False (update_booking (b_id b) f d)) = release f b"
  by (simp add: release_def fun_eq_iff)

lemma cancel_open:
  assumes "schema_ok d"
  shows "cancel_booking e i u (open_session d)
    = (fst (cancel_ref e i u d), open_session (snd (cancel_ref e i u d)))"
proof (cases "find_by b_id i (bookings d)")
  case None
  then show ?thesis
    by (simp add: cancel_booking_def cancel_ref_def)
next
  case (Some b)
  have b: "b \<in> set (bookings d)" "b_id b = i"
    using find_by_SomeD [OF Some] by simp_all
  have slot: "find_by ts_id (slot_id b) (time_slots d) = Some (slot_of d b)"
    using slot_of_mem(1) [OF assms b(1)] .
  then have same: "ts_id (slot_of d b) = slot_id b"
    by (auto dest: find_by_SomeD)
  let ?d = "release (cancel (now e)) b d"
  have ok: "schema_ok ?d"
    using assms by (simp add: schema_ok_release)
  obtain r d' where p: "serve_promote e (slot_id b) ?d = (r, d')"
    by (cases "serve_promote e (slot_id b) ?d") auto
  then have call: "promote_next_wait_list_entry e (slot_id b) (open_session ?d) = (r, open_session d')"
    using serve_promote_open [OF ok, of e "slot_id b"] by (auto simp: serve_promote_def get_db_def)
  have "find_by b_id (b_id b) (bookings ?d) = Some (cancel (now e) b)"
    using find_booking_release [of "cancel (now e)" b d] Some b(2) by simp
  then have found: "find_by b_id (b_id b) (bookings d') = Some (cancel (now e) b)"
    using serve_promote_bookings [OF ok p] find_by_prefix by metis
  have "commit (modify (release (cancel (now e)) b) (open_session d)) = (Inr (), open_session ?d)"
    using ok by (simp add: commit_ok)
  moreover have "commit (open_session d) = (Inr (), open_session d)"
    using assms by (simp add: commit_ok)
  ultimately show ?thesis
    using Some slot p call found b(2) same
    by (auto simp: release_fun cancel_booking_def cancel_ref_def Let_def split: sum.split)
qed

definition serve_cancel :: "env \<Rightarrow> int \<times> user \<Rightarrow> db \<Rightarrow> booking_response res \<times> db" where
  "serve_cancel e a d = (case a of (i, u) \<Rightarrow> get_db (cancel_booking e i u) d)"

lemma serve_cancel_eq: "schema_ok d \<Longrightarrow> serve_cancel e (i, u) d = cancel_ref e i u d"
  by (simp add: serve_cancel_def get_db_def cancel_open)

lemma cancel_ref_cases:
  assumes "cancel_ref e i u d = (r, d')"
  shows "d' = d \<or> (\<exists>b. find_by b_id i (bookings d) = Some b \<and> status b \<noteq> CANCELLED \<and>
    d' = snd (serve_promote e (slot_id b) (release (cancel (now e)) b d)))"
  using assms by (auto simp: cancel_ref_def split: option.splits if_splits prod.splits sum.splits)

section \<open>When a cancellation is safe\<close>

text \<open>
  The handler cancels every booking that is not already cancelled, expired ones included, and
  frees the slot. That is right unless an expired booking's slot has been booked again.
\<close>

definition cancel_safe :: "int \<times> user \<Rightarrow> db \<Rightarrow> bool" where
  "cancel_safe a d = (case find_by b_id (fst a) (bookings d) of
     None \<Rightarrow> True
   | Some b \<Rightarrow> status b = EXPIRED \<longrightarrow> holder_of d (slot_id b) = None)"

lemma holder_None_confirmed: "holder_of d s = None \<Longrightarrow> confirmed_on s d = []"
  by (simp add: holder_of_def split: list.splits)

lemma not_confirmed_cases: "status b \<noteq> CANCELLED \<Longrightarrow> status b \<noteq> EXPIRED \<Longrightarrow> status b = CONFIRMED"
  by (cases "status b") auto

lemma cancel_release_keeps:
  assumes "base_inv d" and "find_by b_id i (bookings d) = Some b" and "status b \<noteq> CANCELLED"
  shows "base_inv (snd (serve_promote e (slot_id b) (release (cancel t) b d)))"
    and "exclusive d \<Longrightarrow> cancel_safe (i, u) d \<Longrightarrow>
      exclusive (snd (serve_promote e (slot_id b) (release (cancel t) b d)))"
proof -
  have mem: "b \<in> set (bookings d)"
    using find_by_SomeD [OF assms(2)] by simp
  have base: "base_inv (release (cancel t) b d)"
    using release_base [OF assms(1) closing_cancel mem] .
  show "base_inv (snd (serve_promote e (slot_id b) (release (cancel t) b d)))"
    using promote.keeps_base [OF base] .
  assume safe: "exclusive d" "cancel_safe (i, u) d"
  have "status b = CONFIRMED \<or> confirmed_on (slot_id b) d = []"
    using safe(2) assms(2,3) not_confirmed_cases holder_None_confirmed by (auto simp: cancel_safe_def)
  then have "exclusive (release (cancel t) b d)"
    using release_exclusive [OF assms(1) safe(1) closing_cancel mem] by blast
  then show "exclusive (snd (serve_promote e (slot_id b) (release (cancel t) b d)))"
    using promote.keeps_exclusive [OF base] by simp
qed

interpretation cancel: calendar_op serve_cancel cancel_safe
proof
  fix d e and a :: "int \<times> user"
  assume inv: "base_inv d"
  obtain i u where a: "a = (i, u)"
    by (cases a) auto
  obtain r d' where r: "cancel_ref e i u d = (r, d')"
    by (cases "cancel_ref e i u d") auto
  have d': "snd (serve_cancel e a d) = d'"
    using r a serve_cancel_eq [OF base_inv_schema [OF inv]] by simp
  show "base_inv (snd (serve_cancel e a d))"
    using cancel_ref_cases [OF r] cancel_release_keeps(1) [OF inv] inv by (auto simp: d')
  show "exclusive (snd (serve_cancel e a d))" if "exclusive d" "cancel_safe a d"
    using cancel_ref_cases [OF r] cancel_release_keeps(2) [OF inv _ _ that [unfolded a]] that
    by (auto simp: d')
qed

section \<open>A cancellation on holders and queues\<close>

lemma cancel_calendar:
  assumes "base_inv d" and "exclusive d" and "generated_ok e" and "no_faults e"
    and "find_by b_id i (bookings d) = Some b" and "status b = CONFIRMED"
    and "allowed_on u b (slot_of d b) d" and "slot_id b \<noteq> 0"
  shows "\<exists>d'. get_db (cancel_booking e i u) d = (Inr (booking_view (cancel (now e) b)), d') \<and>
    holder_of d (slot_id b) = Some (client_id b) \<and>
    holder_of d' = (holder_of d)(slot_id b := next_holder (queue_of d (slot_id b))) \<and>
    queue_of d' = (queue_of d)(slot_id b := tl (queue_of d (slot_id b)))"
proof -
  note ok = base_inv_schema [OF assms(1)]
  have mem: "b \<in> set (bookings d)"
    using find_by_SomeD [OF assms(5)] by simp
  let ?d = "release (cancel (now e)) b d"
  have x: "base_inv ?d" "exclusive ?d" "holder_of ?d = (holder_of d)(slot_id b := None)"
    using release_base [OF assms(1) closing_cancel mem] assms(6)
      release_exclusive [OF assms(1,2) closing_cancel mem]
      release_holder [OF assms(1,2) closing_cancel mem] by simp_all
  then obtain v d' where p: "promote_next_wait_list_entry e (slot_id b) (open_session ?d)
      = (Inr v, open_session d')"
    "holder_of d' = (holder_of ?d)(slot_id b := next_holder (queue_of ?d (slot_id b)))"
    "queue_of d' = (queue_of ?d)(slot_id b := tl (queue_of ?d (slot_id b)))"
    using promote_calendar [OF x(1,2) assms(3,4) _ assms(8)] by auto
  have "serve_promote e (slot_id b) ?d = (Inr v, d')"
    using p(1) by (simp add: serve_promote_def get_db_def)
  then have "get_db (cancel_booking e i u) d = (Inr (booking_view (cancel (now e) b)), d')"
    using assms(5-7) by (simp add: get_db_def cancel_open [OF ok] cancel_ref_def)
  moreover have "holder_of d (slot_id b) = Some (client_id b)"
    using holder_of_confirmed [OF assms(1,2) mem assms(6)] .
  ultimately show ?thesis
    using p(2,3) x(3) by simp
qed

end
