(* ===== verification/Bookings_Handlers.thy ===== *)
theory Bookings_Handlers
  imports Booking_Cancellation
begin

text \<open>
  The other handlers of the bookings router: the writing ones keep the contract of the calendar,
  by the contract of the service they call; the reading ones are described without joins, as
  filters of the bookings table.
\<close>

section \<open>Handlers that write\<close>

definition serve_book :: "env \<Rightarrow> int \<times> string option \<times> user \<Rightarrow> db \<Rightarrow> booking_response res \<times> db" where
  "serve_book e a d = (case a of (slot, header, u) \<Rightarrow> get_db (create_booking e slot header u) d)"

definition serve_move :: "env \<Rightarrow> int \<times> int \<times> user \<Rightarrow> db \<Rightarrow> booking_response res \<times> db" where
  "serve_move e a d = (case a of (i, n, u) \<Rightarrow> get_db (reschedule_existing_booking e i n u) d)"

definition serve_wait :: "env \<Rightarrow> int \<times> user \<Rightarrow> db \<Rightarrow> wait_list_entry_response res \<times> db" where
  "serve_wait e a d = (case a of (slot, u) \<Rightarrow> get_db (join_wait_list e slot u) d)"

definition serve_leave :: "env \<Rightarrow> int \<times> user \<Rightarrow> db \<Rightarrow> unit res \<times> db" where
  "serve_leave e a d = (case a of (i, u) \<Rightarrow> get_db (leave_wait_list i u) d)"

lemma serve_book_cases:
  "snd (serve_book e (slot, header, u) d) = d \<or>
   (\<exists>key. normalize_key header = Inr key \<and> role u \<in> {CLIENT, ADMIN} \<and>
     snd (serve_book e (slot, header, u) d) = snd (serve_create e (slot, u_id u, key) d))"
  by (auto simp: serve_book_def serve_create_def get_db_def create_booking_def depends_def
      require_roles_eq split: sum.split prod.split)

lemma serve_move_cases:
  "snd (serve_move e (i, n, u) d) = d \<or>
   snd (serve_move e (i, n, u) d) = snd (serve_reschedule e (i, n) d)"
  by (auto simp: serve_move_def serve_reschedule_def get_db_def reschedule_existing_booking_def
      split: option.split sum.split prod.split)

lemma serve_wait_cases:
  "snd (serve_wait e (slot, u) d) = d \<or>
   snd (serve_wait e (slot, u) d) = snd (serve_join e (slot, u_id u) d)"
  by (auto simp: serve_wait_def serve_join_def get_db_def join_wait_list_def depends_def
      require_roles_eq split: sum.split prod.split)

lemma serve_leave_cases:
  "snd (serve_leave e (i, u) d) = d \<or> snd (serve_leave e (i, u) d) = remove_entry i d"
proof (cases "find_by w_id i (wait_list_entries d)")
  case None
  then show ?thesis
    by (simp add: serve_leave_def get_db_def leave_wait_list_def)
next
  case (Some w)
  then have "w_id w = i"
    by (auto dest: find_by_SomeD)
  then show ?thesis
    using Some by (simp add: serve_leave_def get_db_def leave_wait_list_def commit_def Let_def)
qed

interpretation book: calendar_op serve_book "\<lambda>a d. True"
proof
  fix d e and a :: "int \<times> string option \<times> user"
  assume inv: "base_inv d"
  obtain slot header u where a: "a = (slot, header, u)"
    by (cases a) auto
  show "base_inv (snd (serve_book e a d))"
    using serve_book_cases [of e slot header u d] inv a create.keeps_base [OF inv] by auto
  show "exclusive (snd (serve_book e a d))" if "exclusive d"
    using serve_book_cases [of e slot header u d] that a create.keeps_exclusive [OF inv that] by auto
qed

interpretation move: calendar_op serve_move "\<lambda>a d. True"
proof
  fix d e and a :: "int \<times> int \<times> user"
  assume inv: "base_inv d"
  obtain i n u where a: "a = (i, n, u)"
    by (cases a) auto
  show "base_inv (snd (serve_move e a d))"
    using serve_move_cases [of e i n u d] inv a reschedule.keeps_base [OF inv] by auto
  show "exclusive (snd (serve_move e a d))" if "exclusive d"
    using serve_move_cases [of e i n u d] that a reschedule.keeps_exclusive [OF inv that] by auto
qed

interpretation wait: calendar_op serve_wait "\<lambda>a d. True"
proof
  fix d e and a :: "int \<times> user"
  assume inv: "base_inv d"
  obtain slot u where a: "a = (slot, u)"
    by (cases a) auto
  show "base_inv (snd (serve_wait e a d))"
    using serve_wait_cases [of e slot u d] inv a join.keeps_base [OF inv] by auto
  show "exclusive (snd (serve_wait e a d))" if "exclusive d"
    using serve_wait_cases [of e slot u d] that a join.keeps_exclusive [OF inv that] by auto
qed

interpretation leave: calendar_op serve_leave "\<lambda>a d. True"
proof
  fix d e and a :: "int \<times> user"
  assume inv: "base_inv d"
  obtain i u where a: "a = (i, u)"
    by (cases a) auto
  show "base_inv (snd (serve_leave e a d))"
    using serve_leave_cases [of e i u d] inv a base_inv_remove_entry by auto
  show "exclusive (snd (serve_leave e a d))" if "exclusive d"
    using serve_leave_cases [of e i u d] that a by auto
qed

section \<open>Idempotency keys\<close>

text \<open>A key that passes is never empty, so the service always checks for a replay.\<close>

lemma normalize_key_given:
  assumes "normalize_key (Some raw) = Inr key"
  shows "key = Some (py_strip raw) \<and> key_given key \<and> length (py_strip raw) \<le> 128"
  using assms by (auto simp: normalize_key_def key_given_def Let_def split: if_splits)

lemma normalize_key_cases:
  assumes "normalize_key header = Inr key"
  shows "key \<noteq> Some []"
  using assms by (auto simp: normalize_key_def Let_def split: option.splits if_splits)

section \<open>Handlers that read\<close>

lemma day_bounds:
  "midnight a \<le> t \<longleftrightarrow> a \<le> t div day_length" "t < midnight (a + 1) \<longleftrightarrow> t div day_length \<le> a"
  using mult_le_iff_le_div [of day_length a t] mult_le_iff_le_div [of day_length "a + 1" t]
  by (auto simp: midnight_def day_length_def)

text \<open>The filters of a listing in days: the day of the slot's start lies between both dates.\<close>

definition in_listing ::
  "booking_status option \<Rightarrow> date option \<Rightarrow> date option \<Rightarrow> booking \<Rightarrow> time_slot \<Rightarrow> bool" where
  "in_listing st date_from date_to b t \<longleftrightarrow>
     (st = None \<or> st = Some (status b)) \<and>
     (\<forall>a. date_from = Some a \<longrightarrow> a \<le> start_at t div day_length) \<and>
     (\<forall>z. date_to = Some z \<longrightarrow> start_at t div day_length \<le> z)"

lemma status_value_inject [simp]: "status_value s = status_value s' \<longleftrightarrow> s = s'"
  by (cases s; cases s') auto

lemma listing_filter_eq:
  "listing_filter st date_from date_to =
     (if date_to = Some date_max \<or> (\<exists>z. date_to = Some z \<and> date_max < z) then Inl OverflowError
      else Inr (in_listing st date_from date_to))"
  by (auto simp: listing_filter_def next_day_def in_listing_def fun_eq_iff day_bounds
      split: option.splits)

lemma filter_map_fst: "map fst (filter P (map (\<lambda>b. (b, f b)) bs)) = filter (\<lambda>b. P (b, f b)) bs"
  by (induction bs) auto

lemma list_my_bookings_eq:
  assumes "schema_ok d"
  shows "list_my_bookings st date_from date_to l offs u d =
    (if \<exists>z. date_to = Some z \<and> date_max \<le> z then Inl OverflowError
     else Inr (map booking_view (page l offs (sort_key b_id
       (filter (\<lambda>b. client_id b = u_id u \<and> in_listing st date_from date_to b (slot_of d b)) (bookings d))))))"
  by (auto simp: list_my_bookings_def listing_filter_eq booking_slot_join_eq [OF assms]
      filter_map_fst Let_def)

lemma sort_key_map: "sort_key f (map g xs) = map g (sort_key (\<lambda>x. f (g x)) xs)"
proof -
  have "insort_key f (g x) (map g ys) = map g (insort_key (\<lambda>x. f (g x)) x ys)" for x ys
    by (induction ys) auto
  then show ?thesis
    by (induction xs) auto
qed

lemma page_map: "page l offs (map g xs) = map g (page l offs xs)"
  by (simp add: page_def take_map drop_map)

lemma list_specialist_bookings_eq:
  assumes "schema_ok d" and "role u \<in> {SPECIALIST, ADMIN}"
    and "find_by sp_user_id (u_id u) (specialist_profiles d) = Some p"
    and "\<forall>z. date_to = Some z \<longrightarrow> z < date_max"
  shows "list_specialist_bookings st date_from date_to l offs u d =
    Inr (map (\<lambda>b. summary_view (b, slot_of d b, client_of d b)) (page l offs (sort_key b_id
      (filter (\<lambda>b. specialist_id (slot_of d b) = sp_id p \<and> in_listing st date_from date_to b (slot_of d b))
        (bookings d)))))"
proof -
  let ?row = "\<lambda>b. (b, slot_of d b, client_of d b)"
  have rows: "filter (\<lambda>(b, t, v). specialist_id t = sp_id p \<and> in_listing st date_from date_to b t)
      (booking_slot_client_join d)
    = map ?row (filter (\<lambda>b. specialist_id (slot_of d b) = sp_id p \<and>
        in_listing st date_from date_to b (slot_of d b)) (bookings d))"
    by (simp add: booking_slot_client_join_eq [OF assms(1)] filter_map comp_def)
  have "listing_filter st date_from date_to = Inr (in_listing st date_from date_to)"
    using assms(4) by (auto simp: listing_filter_eq)
  then show ?thesis
    using assms(2,3)
    by (simp add: list_specialist_bookings_def require_roles_eq rows sort_key_map page_map Let_def comp_def)
qed

lemma find_by_pair:
  "first_row (filter (\<lambda>(b, x, y). b_id b = i) (map (\<lambda>b. (b, f b, g b)) bs))
    = map_option (\<lambda>b. (b, f b, g b)) (find_by b_id i bs)"
  by (induction bs) (simp_all add: first_row_def)

lemma get_booking_by_id_eq:
  assumes "schema_ok d"
  shows "get_booking_by_id i u d = (case find_by b_id i (bookings d) of
      None \<Rightarrow> Inl (http 404 ''Booking not found'')
    | Some b \<Rightarrow> if may_read u b (profile_of d (slot_of d b)) then Inr (booking_view b)
        else Inl (http 403 ''Not enough permissions''))"
  by (simp add: get_booking_by_id_def booking_specialist_join_eq [OF assms] find_by_pair
      split: option.split)

text \<open>Who may read a booking is who may change it.\<close>

lemma may_read_allowed:
  assumes "schema_ok d" and "b \<in> set (bookings d)"
  shows "may_read u b (profile_of d (slot_of d b)) \<longleftrightarrow> allowed_on u b (slot_of d b) d"
proof -
  have "specialist_id (slot_of d b) \<in> sp_id ` set (specialist_profiles d)"
    using schema_ok_references(5) [OF assms(1) slot_of_mem(2) [OF assms]] .
  then have "find_by sp_id (specialist_id (slot_of d b)) (specialist_profiles d)
      = Some (profile_of d (slot_of d b))"
    using find_by_the [of _ sp_id "specialist_profiles d"] by (simp add: profile_of_def)
  then show ?thesis
    by (auto simp: may_read_def allowed_on_eq Let_def simp del: role_value.simps)
qed

end
