(* ===== verification/Specialists_Api.thy ===== *)
theory Specialists_Api
  imports Bookings_Handlers
begin

text \<open>
  \<^verbatim>\<open>app/api/v1/specialists.py\<close> and \<^verbatim>\<open>app/api/v1/users.py\<close>: profiles of specialists, their services
  and slots, the public listings and the availability of a specialist by day; the current user
  and the list of users. Request and response models are those of \<^verbatim>\<open>schemas/slot.py\<close>,
  \<^verbatim>\<open>schemas/service.py\<close> and \<^verbatim>\<open>schemas/user.py\<close>.
\<close>

section \<open>Requests and responses\<close>

record service_create_request =
  rq_title :: string
  rq_description :: "string option"
  rq_duration_minutes :: int
  rq_price :: int

record service_response =
  vr_id :: int
  vr_specialist_id :: int
  vr_title :: string
  vr_description :: "string option"
  vr_duration_minutes :: int
  vr_price :: int
  vr_created_at :: instant

record slot_create_request =
  rq_start_at :: instant
  rq_end_at :: instant

record slot_response =
  tr_id :: int
  tr_specialist_id :: int
  tr_start_at :: instant
  tr_end_at :: instant
  tr_is_booked :: bool

record specialist_profile_response =
  pr_id :: int
  pr_user_id :: int
  pr_display_name :: string
  pr_description :: "string option"

record specialist_availability_day_response =
  ar_date :: date
  ar_total_slots :: int
  ar_free_slots :: int
  ar_booked_slots :: int

record user_response =
  ur_id :: int
  ur_email :: string
  ur_role :: user_role
  ur_is_active :: bool
  ur_created_at :: instant

definition service_view :: "service \<Rightarrow> service_response" where
  "service_view v = \<lparr>vr_id = sv_id v, vr_specialist_id = sv_specialist_id v, vr_title = title v,
     vr_description = sv_description v, vr_duration_minutes = duration_minutes v,
     vr_price = price v, vr_created_at = sv_created_at v\<rparr>"

definition slot_view :: "time_slot \<Rightarrow> slot_response" where
  "slot_view t = \<lparr>tr_id = ts_id t, tr_specialist_id = specialist_id t, tr_start_at = start_at t,
     tr_end_at = end_at t, tr_is_booked = is_booked t\<rparr>"

definition profile_view :: "specialist_profile \<Rightarrow> specialist_profile_response" where
  "profile_view p = \<lparr>pr_id = sp_id p, pr_user_id = sp_user_id p, pr_display_name = display_name p,
     pr_description = sp_description p\<rparr>"

definition user_view :: "user \<Rightarrow> user_response" where
  "user_view u = \<lparr>ur_id = u_id u, ur_email = email u, ur_role = role u, ur_is_active = is_active u,
     ur_created_at = u_created_at u\<rparr>"

text \<open>The validation of a new slot and of a new service; a price is a number of hundredths.\<close>

definition validate_interval :: "slot_create_request \<Rightarrow> slot_create_request res" where
  "validate_interval r = (if rq_end_at r \<le> rq_start_at r then Inl ValueError else Inr r)"

definition service_request_ok :: "service_create_request \<Rightarrow> bool" where
  "service_request_ok r \<longleftrightarrow>
     2 \<le> length (rq_title r) \<and> length (rq_title r) \<le> 120 \<and>
     (case rq_description r of None \<Rightarrow> True | Some x \<Rightarrow> length x \<le> 500) \<and>
     5 \<le> rq_duration_minutes r \<and> rq_duration_minutes r \<le> 480 \<and>
     0 < rq_price r \<and> rq_price r < 10 ^ 10"

section \<open>Profiles and services\<close>

definition new_profile :: "env \<Rightarrow> user \<Rightarrow> db \<Rightarrow> specialist_profile" where
  "new_profile e u d =
     (let g = generated e Specialist_Profiles (map sp_id (specialist_profiles d))
      in \<lparr>sp_id = fst g, sp_user_id = u_id u, display_name = py_split_first CHR ''@'' (email u),
          sp_description = None, sp_created_at = snd g\<rparr>)"

definition add_profile :: "specialist_profile \<Rightarrow> db \<Rightarrow> db" where
  "add_profile p d = d\<lparr>specialist_profiles := specialist_profiles d @ [p]\<rparr>"

definition get_or_create_specialist_profile ::
  "env \<Rightarrow> user \<Rightarrow> session \<Rightarrow> specialist_profile res \<times> session" where
  "get_or_create_specialist_profile e u s =
     (case find_by sp_user_id (u_id u) (specialist_profiles (current s)) of
        Some profile \<Rightarrow> (Inr profile, s)
      | None \<Rightarrow>
        (let profile = new_profile e u (current s);
             s = modify (add_profile profile) s
         in case flush s of
              (Inl err, s) \<Rightarrow> (Inl err, s)
            | (Inr _, s) \<Rightarrow> (Inr profile, s)))"

definition new_service :: "env \<Rightarrow> int \<Rightarrow> service_create_request \<Rightarrow> db \<Rightarrow> service" where
  "new_service e profile_id payload d =
     (let g = generated e Services (map sv_id (services d))
      in \<lparr>sv_id = fst g, sv_specialist_id = profile_id, title = rq_title payload,
          sv_description = rq_description payload, duration_minutes = rq_duration_minutes payload,
          price = rq_price payload, sv_created_at = snd g\<rparr>)"

definition add_service :: "service \<Rightarrow> db \<Rightarrow> db" where
  "add_service v d = d\<lparr>services := services d @ [v]\<rparr>"

definition create_service_for_me ::
  "env \<Rightarrow> service_create_request \<Rightarrow> user \<Rightarrow> session \<Rightarrow> service_response res \<times> session" where
  "create_service_for_me e payload user =
     depends (require_roles [SPECIALIST, ADMIN] user) (\<lambda>current_user s.
       case get_or_create_specialist_profile e current_user s of
         (Inl err, s) \<Rightarrow> (Inl err, s)
       | (Inr profile, s) \<Rightarrow>
         (let v = new_service e (sp_id profile) payload (current s);
              s = modify (add_service v) s
          in case commit s of
               (Inl err, s) \<Rightarrow> (Inl err, s)
             | (Inr _, s) \<Rightarrow> (Inr (service_view v), s)))"

definition list_specialist_services ::
  "int \<Rightarrow> int \<Rightarrow> int \<Rightarrow> db \<Rightarrow> service_response list res" where
  "list_specialist_services specialist l offs d =
     (case find_by sp_id specialist (specialist_profiles d) of
        None \<Rightarrow> Inl (http 404 ''Specialist not found'')
      | Some _ \<Rightarrow>
        (let found = page l offs (sort_key sv_id
               (filter (\<lambda>v. sv_specialist_id v = specialist) (services d)))
         in Inr (map service_view found)))"

definition get_my_specialist_profile :: "user \<Rightarrow> db \<Rightarrow> specialist_profile_response res" where
  "get_my_specialist_profile current_user d =
     (case find_by sp_user_id (u_id current_user) (specialist_profiles d) of
        None \<Rightarrow> Inl (http 404 ''Specialist profile not found'')
      | Some profile \<Rightarrow> Inr (profile_view profile))"

section \<open>Slots\<close>

definition new_slot :: "env \<Rightarrow> int \<Rightarrow> slot_create_request \<Rightarrow> db \<Rightarrow> time_slot" where
  "new_slot e profile_id payload d =
     (let g = generated e Time_Slots (map ts_id (time_slots d))
      in \<lparr>ts_id = fst g, specialist_id = profile_id, start_at = rq_start_at payload,
          end_at = rq_end_at payload, is_booked = False, ts_created_at = snd g\<rparr>)"

definition add_slot :: "time_slot \<Rightarrow> db \<Rightarrow> db" where
  "add_slot t d = d\<lparr>time_slots := time_slots d @ [t]\<rparr>"

text \<open>The query for an overlap, which also finds a slot that is booked.\<close>

definition overlap_found :: "int \<Rightarrow> slot_create_request \<Rightarrow> db \<Rightarrow> bool" where
  "overlap_found profile_id payload d =
     holds_for (\<lambda>t. specialist_id t = profile_id \<and> start_at t < rq_end_at payload \<and>
       end_at t > rq_start_at payload) (time_slots d)"

definition create_slot_for_me ::
  "env \<Rightarrow> slot_create_request \<Rightarrow> user \<Rightarrow> session \<Rightarrow> slot_response res \<times> session" where
  "create_slot_for_me e payload user =
     depends (require_roles [SPECIALIST, ADMIN] user) (\<lambda>current_user s.
       case get_or_create_specialist_profile e current_user s of
         (Inl err, s) \<Rightarrow> (Inl err, s)
       | (Inr profile, s) \<Rightarrow>
         if overlap_found (sp_id profile) payload (current s)
         then (Inl (http 409 ''Time slot overlaps with existing slot''), s)
         else
           (let t = new_slot e (sp_id profile) payload (current s);
                s = modify (add_slot t) s
            in case commit s of
                 (Inl err, s) \<Rightarrow> (Inl err, s)
               | (Inr _, s) \<Rightarrow> (Inr (slot_view t), s)))"

text \<open>
  \<open>db.delete(slot)\<close>: the wait list entries of the slot go with it (\<open>ON DELETE CASCADE\<close>), its
  bookings stay and make the commit fail (\<open>ON DELETE RESTRICT\<close>, and \<open>slot_id\<close> may not be NULL).
\<close>

definition remove_slot :: "int \<Rightarrow> db \<Rightarrow> db" where
  "remove_slot i d = d\<lparr>time_slots := delete_by ts_id i (time_slots d),
     wait_list_entries := filter (\<lambda>w. w_slot_id w \<noteq> i) (wait_list_entries d)\<rparr>"

definition delete_slot_for_me :: "int \<Rightarrow> user \<Rightarrow> session \<Rightarrow> unit res \<times> session" where
  "delete_slot_for_me slot user =
     depends (require_roles [SPECIALIST, ADMIN] user) (\<lambda>current_user s.
       case find_by sp_user_id (u_id current_user) (specialist_profiles (current s)) of
         None \<Rightarrow> (Inl (http 404 ''Specialist profile not found''), s)
       | Some profile \<Rightarrow>
         (case find (\<lambda>t. ts_id t = slot \<and> specialist_id t = sp_id profile) (time_slots (current s)) of
            None \<Rightarrow> (Inl (http 404 ''Slot not found''), s)
          | Some t \<Rightarrow>
            if is_booked t then (Inl (http 409 ''Booked slot cannot be deleted''), s)
            else
              (let s = modify (remove_slot (ts_id t)) s
               in case commit s of
                    (Inl err, s) \<Rightarrow> (Inl err, s)
                  | (Inr _, s) \<Rightarrow> (Inr (), s))))"

text \<open>\<open>dt + timedelta(days=n)\<close>, beyond the last day an \<open>OverflowError\<close>.\<close>

definition plus_days :: "instant \<Rightarrow> int \<Rightarrow> instant res" where
  "plus_days t n = (let r = t + n * day_length in if (date_max + 1) * day_length \<le> r then Inl OverflowError else Inr r)"

definition list_specialist_slots ::
  "int \<Rightarrow> date option \<Rightarrow> int \<Rightarrow> int \<Rightarrow> db \<Rightarrow> slot_response list res" where
  "list_specialist_slots specialist date_filter l offs d =
     (case find_by sp_id specialist (specialist_profiles d) of
        None \<Rightarrow> Inl (http 404 ''Specialist not found'')
      | Some _ \<Rightarrow>
        res_bind
          (case date_filter of
             None \<Rightarrow> Inr (\<lambda>t. True)
           | Some day \<Rightarrow>
             (let start_of_day = midnight day
              in res_bind (plus_days start_of_day 1) (\<lambda>end_of_day.
                   Inr (\<lambda>t. start_of_day \<le> start_at t \<and> start_at t < end_of_day))))
          (\<lambda>P. Inr (map slot_view (page l offs (sort_key start_at
             (filter (\<lambda>t. specialist_id t = specialist \<and> P t) (time_slots d)))))))"

section \<open>Availability\<close>

record day_stats =
  total :: int
  free :: int
  booked :: int

text \<open>
  \<open>stats\<close> is a dictionary in insertion order, here an association list. The step is the body of
  the loop over the slots of the window.
\<close>

definition empty_stats :: "date \<Rightarrow> int \<Rightarrow> (date \<times> day_stats) list" where
  "empty_stats start_date days =
     map (\<lambda>offset. (start_date + offset, \<lparr>total = 0, free = 0, booked = 0\<rparr>)) (upto 0 (days - 1))"

definition count_slot :: "time_slot \<Rightarrow> day_stats \<Rightarrow> day_stats" where
  "count_slot t st =
     (let st = st\<lparr>total := total st + 1\<rparr>
      in if is_booked t then st\<lparr>booked := booked st + 1\<rparr> else st\<lparr>free := free st + 1\<rparr>)"

definition stats_step :: "time_slot \<Rightarrow> (date \<times> day_stats) list \<Rightarrow> (date \<times> day_stats) list" where
  "stats_step t stats =
     (let slot_date = start_at t div day_length
      in case map_of stats slot_date of
           None \<Rightarrow> stats
         | Some _ \<Rightarrow> map (\<lambda>(k, st). (k, if k = slot_date then count_slot t st else st)) stats)"

definition get_specialist_availability ::
  "env \<Rightarrow> int \<Rightarrow> date option \<Rightarrow> int \<Rightarrow> db \<Rightarrow> specialist_availability_day_response list res" where
  "get_specialist_availability e specialist date_from days d =
     (case find_by sp_id specialist (specialist_profiles d) of
        None \<Rightarrow> Inl (http 404 ''Specialist not found'')
      | Some _ \<Rightarrow>
        (let start_date = (case date_from of None \<Rightarrow> now e div day_length | Some day \<Rightarrow> day);
             start_of_window = midnight start_date
         in res_bind (plus_days start_of_window days) (\<lambda>end_of_window.
              let slots = sort_key start_at (filter (\<lambda>t. specialist_id t = specialist \<and>
                    start_of_window \<le> start_at t \<and> start_at t < end_of_window) (time_slots d));
                  stats = fold stats_step slots (empty_stats start_date days)
              in Inr (map (\<lambda>(day, st). \<lparr>ar_date = day, ar_total_slots = total st,
                    ar_free_slots = free st, ar_booked_slots = booked st\<rparr>) stats))))"

section \<open>Users\<close>

definition get_me :: "user \<Rightarrow> user_response" where
  "get_me current_user = user_view current_user"

definition list_users :: "int \<Rightarrow> int \<Rightarrow> user \<Rightarrow> db \<Rightarrow> user_response list res" where
  "list_users l offs user d =
     res_bind (require_roles [ADMIN] user) (\<lambda>_.
       Inr (map user_view (page l offs (sort_key u_id (users d)))))"

end
