(* ===== verification/Auth_Api.thy ===== *)
theory Auth_Api
  imports Auth_Service Rate_Limiter Specialists_Api
begin

text \<open>
  \<^verbatim>\<open>app/api/v1/auth.py\<close>: registration and login behind the rate limiter. The limiter is an argument,
  so that the handlers are those of every limiter the application may build.
\<close>

section \<open>The code\<close>

definition rate_limit_key :: "string \<Rightarrow> string option \<Rightarrow> string" where
  "rate_limit_key endpoint host =
     (let client_ip = (case host of None \<Rightarrow> ''unknown'' | Some h \<Rightarrow> h) in endpoint @ '':'' @ client_ip)"

definition rate_limit_or_raise ::
  "settings \<Rightarrow> 's allow_op \<Rightarrow> instant \<Rightarrow> string \<Rightarrow> string option \<Rightarrow> 's \<Rightarrow> unit res \<times> 's" where
  "rate_limit_or_raise cfg allow t endpoint host st =
     (let key = rate_limit_key endpoint host;
          limit = (if endpoint = ''register'' then auth_register_max_attempts cfg
                   else auth_login_max_attempts cfg)
      in case allow t key limit (auth_rate_limit_window_seconds cfg) st of
           (Inl err, st) \<Rightarrow> (Inl err, st)
         | (Inr (allowed, retry_after), st) \<Rightarrow>
           if \<not> allowed
           then (Inl (HTTPException 429 ''Too many requests. Please try again later.''
                   [(''Retry-After'', int_str retry_after)]), st)
           else (Inr (), st))"

definition register ::
  "settings \<Rightarrow> 's allow_op \<Rightarrow> 'tok crypto \<Rightarrow> env \<Rightarrow> register_request \<Rightarrow> string option \<Rightarrow> 's \<Rightarrow> session
    \<Rightarrow> user_response res \<times> 's \<times> session" where
  "register cfg allow c e payload host st s =
     (case rate_limit_or_raise cfg allow (now e) ''register'' host st of
        (Inl err, st) \<Rightarrow> (Inl err, st, s)
      | (Inr _, st) \<Rightarrow>
        (case register_user c e payload s of
           (Inl err, s) \<Rightarrow> (Inl err, st, s)
         | (Inr u, s) \<Rightarrow> (Inr (user_view u), st, s)))"

definition login ::
  "settings \<Rightarrow> 's allow_op \<Rightarrow> 'tok crypto \<Rightarrow> env \<Rightarrow> login_request \<Rightarrow> string option \<Rightarrow> 's \<Rightarrow> session
    \<Rightarrow> 'tok token_response res \<times> 's \<times> session" where
  "login cfg allow c e payload host st s =
     (case rate_limit_or_raise cfg allow (now e) ''login'' host st of
        (Inl err, st) \<Rightarrow> (Inl err, st, s)
      | (Inr _, st) \<Rightarrow>
        (case login_user c cfg e payload s of (r, s) \<Rightarrow> (r, st, s)))"

section \<open>What the limiter protects\<close>

text \<open>
  Login attempts that reach the password check: requests at given times from given hosts, against
  the limiter of the application.
\<close>

fun login_passes ::
  "settings \<Rightarrow> 's allow_op \<Rightarrow> (instant \<times> string option) list \<Rightarrow> 's \<Rightarrow> bool list" where
  "login_passes cfg allow [] st = []"
| "login_passes cfg allow ((t, host) # requests) st =
     (case rate_limit_or_raise cfg allow t ''login'' host st of
        (r, st) \<Rightarrow> is_ok r # login_passes cfg allow requests st)"

lemma login_passes_run:
  "login_passes cfg allow requests st
    = run_calls (auth_rate_limit_window_seconds cfg) allow (\<lambda>_. auth_login_max_attempts cfg)
        (map (\<lambda>(t, host). (t, rate_limit_key ''login'' host)) requests) st"
proof (induction requests arbitrary: st)
  case Nil
  then show ?case by simp
next
  case (Cons a requests)
  obtain t host where a: "a = (t, host)"
    by (cases a) auto
  show ?case
    using Cons.IH by (auto simp: a rate_limit_or_raise_def Let_def split: prod.split sum.split)
qed

lemma rate_limit_key_inject:
  "rate_limit_key endpoint (Some h) = rate_limit_key endpoint (Some h') \<longleftrightarrow> h = h'"
  by (simp add: rate_limit_key_def)

lemma keys_differ: "rate_limit_key ''register'' h \<noteq> rate_limit_key ''login'' h'"
  by (simp add: rate_limit_key_def Let_def)

lemma login_refused:
  assumes "rate_limit_or_raise cfg allow (now e) ''login'' host st = (Inl err, st')"
  shows "login cfg allow c e payload host st s = (Inl err, st', s)"
  using assms by (simp add: login_def)

lemma register_refused:
  assumes "rate_limit_or_raise cfg allow (now e) ''register'' host st = (Inl err, st')"
  shows "register cfg allow c e payload host st s = (Inl err, st', s)"
  using assms by (simp add: register_def)

end
