(* ===== verification/Slot_Management.thy ===== *)
theory Slot_Management
  imports Specialists_Api
begin

text \<open>
  What the specialists router guarantees: the calendars of specialists stay free of overlaps, a
  slot is deleted only when nothing refers to it, a profile is made once, and the availability of
  a window is the count of its slots by day.
\<close>

section \<open>Rows that the router adds and removes\<close>

lemma add_profile_fields [simp]:
  "users (add_profile p d) = users d" "services (add_profile p d) = services d"
  "specialist_profiles (add_profile p d) = specialist_profiles d @ [p]"
  "time_slots (add_profile p d) = time_slots d" "bookings (add_profile p d) = bookings d"
  "wait_list_entries (add_profile p d) = wait_list_entries d"
  by (simp_all add: add_profile_def)

lemma add_service_fields [simp]:
  "users (add_service v d) = users d" "services (add_service v d) = services d @ [v]"
  "specialist_profiles (add_service v d) = specialist_profiles d"
  "time_slots (add_service v d) = time_slots d" "bookings (add_service v d) = bookings d"
  "wait_list_entries (add_service v d) = wait_list_entries d"
  by (simp_all add: add_service_def)

lemma add_slot_fields [simp]:
  "users (add_slot t d) = users d" "services (add_slot t d) = services d"
  "specialist_profiles (add_slot t d) = specialist_profiles d"
  "time_slots (add_slot t d) = time_slots d @ [t]" "bookings (add_slot t d) = bookings d"
  "wait_list_entries (add_slot t d) = wait_list_entries d"
  by (simp_all add: add_slot_def)

lemma remove_slot_fields [simp]:
  "users (remove_slot i d) = users d" "services (remove_slot i d) = services d"
  "specialist_profiles (remove_slot i d) = specialist_profiles d"
  "time_slots (remove_slot i d) = delete_by ts_id i (time_slots d)"
  "bookings (remove_slot i d) = bookings d"
  "wait_list_entries (remove_slot i d) = filter (\<lambda>w. w_slot_id w \<noteq> i) (wait_list_entries d)"
  by (simp_all add: remove_slot_def)

lemma new_slot_fields [simp]:
  "ts_id (new_slot e p r d) = fst (generated e Time_Slots (map ts_id (time_slots d)))"
  "specialist_id (new_slot e p r d) = p" "start_at (new_slot e p r d) = rq_start_at r"
  "end_at (new_slot e p r d) = rq_end_at r" "is_booked (new_slot e p r d) = False"
  by (simp_all add: new_slot_def Let_def)

lemma new_profile_fields [simp]:
  "sp_id (new_profile e u d) = fst (generated e Specialist_Profiles (map sp_id (specialist_profiles d)))"
  "sp_user_id (new_profile e u d) = u_id u"
  "display_name (new_profile e u d) = py_split_first CHR ''@'' (email u)"
  by (simp_all add: new_profile_def Let_def)

text \<open>Slots and bookings of a database decide the invariants.\<close>

lemma calendar_cong:
  assumes "time_slots d = time_slots d'" and "bookings d = bookings d'"
  shows "exclusive d = exclusive d'" "backed d = backed d'" "slots_disjoint d = slots_disjoint d'"
  using exclusive_cong [OF assms] backed_cong [OF assms] slots_disjoint_cong [OF assms(1)] by auto

lemma profile_service_invariants [simp]:
  "exclusive (add_profile p d) = exclusive d" "backed (add_profile p d) = backed d"
  "slots_disjoint (add_profile p d) = slots_disjoint d"
  "exclusive (add_service v d) = exclusive d" "backed (add_service v d) = backed d"
  "slots_disjoint (add_service v d) = slots_disjoint d"
  by (rule calendar_cong; simp)+

text \<open>A new slot is free, and has no bookings because bookings refer to the slots there are.\<close>

lemma new_slot_unused:
  assumes "schema_ok d" and "ts_id t \<notin> ts_id ` set (time_slots d)"
  shows "confirmed_on (ts_id t) d = []"
proof -
  have "slot_id b \<noteq> ts_id t" if "b \<in> set (bookings d)" for b
    using assms(2) schema_ok_references(1) [OF assms(1) that] by auto
  then show ?thesis
    by (auto simp: confirmed_on_def filter_empty_conv)
qed

lemma add_slot_exclusive:
  assumes "schema_ok d" and "schema_ok (add_slot t d)" and "\<not> is_booked t"
  shows "exclusive d \<Longrightarrow> exclusive (add_slot t d)" "backed d \<Longrightarrow> backed (add_slot t d)"
proof -
  have "ts_id t \<notin> ts_id ` set (time_slots d)"
    using schema_ok_distinct(6) [OF assms(2)] by simp
  from new_slot_unused [OF assms(1) this]
  show "exclusive d \<Longrightarrow> exclusive (add_slot t d)" "backed d \<Longrightarrow> backed (add_slot t d)"
    using assms(3) confirmed_on_cong [of "add_slot t d" d]
    by (simp_all add: exclusive_def backed_def)
qed

lemma add_slot_disjoint:
  assumes "slots_disjoint d" and "start_at t < end_at t"
    and "\<not> (\<exists>u \<in> set (time_slots d). specialist_id u = specialist_id t \<and> start_at u < end_at t \<and>
      end_at u > start_at t)"
  shows "slots_disjoint (add_slot t d)"
  using assms by (auto simp: slots_disjoint_def overlaps_def list_all_iff)

lemma remove_slot_invariants:
  "exclusive d \<Longrightarrow> exclusive (remove_slot i d)" "backed d \<Longrightarrow> backed (remove_slot i d)"
  "slots_disjoint d \<Longrightarrow> slots_disjoint (remove_slot i d)"
  using confirmed_on_cong [of "remove_slot i d" d]
  by (auto simp: exclusive_def backed_def slots_disjoint_def list_all_iff set_delete_by)

text \<open>A slot can go exactly when no booking refers to it, whatever the state of the booking.\<close>

lemma schema_ok_remove_slot:
  assumes "schema_ok d"
  shows "schema_ok (remove_slot i d) \<longleftrightarrow> i \<notin> slot_id ` set (bookings d)"
proof
  assume "schema_ok (remove_slot i d)"
  then show "i \<notin> slot_id ` set (bookings d)"
    using schema_ok_references(1) [of "remove_slot i d"] by (force simp: set_delete_by)
next
  assume free: "i \<notin> slot_id ` set (bookings d)"
  have "slot_id b \<noteq> i" if "b \<in> set (bookings d)" for b
    using that free by blast
  then show "schema_ok (remove_slot i d)"
    using assms
    by (fastforce simp: schema_defs list_all_iff set_delete_by distinct_map_delete_by distinct_map_filter)
qed

section \<open>Profiles\<close>

lemma schema_ok_add_profile:
  assumes "schema_ok d" and "generated_ok e" and "u_id u \<in> u_id ` set (users d)"
    and "find_by sp_user_id (u_id u) (specialist_profiles d) = None"
  shows "schema_ok (add_profile (new_profile e u d) d)"
  using assms generated_fresh [OF assms(2), of Specialist_Profiles "map sp_id (specialist_profiles d)"]
  by (auto simp: schema_defs find_by_mem_None list_all_iff)

text \<open>
  The session after \<open>get_or_create\<close>: the profile is there, pending if it is new, or the flush failed.
\<close>

definition with_profile :: "env \<Rightarrow> user \<Rightarrow> db \<Rightarrow> db" where
  "with_profile e u d = (case find_by sp_user_id (u_id u) (specialist_profiles d) of
     Some p \<Rightarrow> d | None \<Rightarrow> add_profile (new_profile e u d) d)"

lemma get_or_create_cases:
  assumes "get_or_create_specialist_profile e u (open_session d) = (r, s)" and "schema_ok d"
  shows "committed s = d \<and> (\<exists>err. r = Inl err) \<or>
    (\<exists>p. r = Inr p \<and> s = \<lparr>committed = d, current = with_profile e u d\<rparr> \<and> schema_ok (with_profile e u d) \<and>
      find_by sp_user_id (u_id u) (specialist_profiles (with_profile e u d)) = Some p)"
proof (cases "find_by sp_user_id (u_id u) (specialist_profiles d)")
  case None
  then show ?thesis
    using assms
    by (auto simp: get_or_create_specialist_profile_def with_profile_def flush_def Let_def
        modify_def open_session_def find_by_append split: if_splits)
next
  case (Some p)
  then show ?thesis
    using assms by (auto simp: get_or_create_specialist_profile_def with_profile_def open_session_def)
qed

lemma with_profile_invariants [simp]:
  "exclusive (with_profile e u d) = exclusive d" "backed (with_profile e u d) = backed d"
  "slots_disjoint (with_profile e u d) = slots_disjoint d"
  "time_slots (with_profile e u d) = time_slots d" "bookings (with_profile e u d) = bookings d"
  by (simp_all add: with_profile_def split: option.split)

section \<open>The contract of the handlers\<close>

definition serve_add_service ::
  "env \<Rightarrow> service_create_request \<times> user \<Rightarrow> db \<Rightarrow> service_response res \<times> db" where
  "serve_add_service e a d = (case a of (payload, u) \<Rightarrow> get_db (create_service_for_me e payload u) d)"

text \<open>The request of a slot is validated before the handler runs.\<close>

definition serve_add_slot ::
  "env \<Rightarrow> slot_create_request \<times> user \<Rightarrow> db \<Rightarrow> slot_response res \<times> db" where
  "serve_add_slot e a d = (case a of (payload, u) \<Rightarrow>
     (case validate_interval payload of
        Inl err \<Rightarrow> (Inl err, d)
      | Inr payload \<Rightarrow> get_db (create_slot_for_me e payload u) d))"

definition serve_delete_slot :: "env \<Rightarrow> int \<times> user \<Rightarrow> db \<Rightarrow> unit res \<times> db" where
  "serve_delete_slot e a d = (case a of (slot, u) \<Rightarrow> get_db (delete_slot_for_me slot u) d)"

lemma serve_add_service_cases:
  assumes "schema_ok d"
  shows "snd (serve_add_service e (payload, u) d) = d \<or>
    (\<exists>v. snd (serve_add_service e (payload, u) d) = add_service v (with_profile e u d) \<and>
      schema_ok (add_service v (with_profile e u d)))"
proof (cases "role u \<in> {SPECIALIST, ADMIN}")
  case False
  then show ?thesis
    by (simp add: serve_add_service_def get_db_def create_service_for_me_def require_roles_eq)
next
  case True
  obtain r s where r: "get_or_create_specialist_profile e u (open_session d) = (r, s)"
    by (cases "get_or_create_specialist_profile e u (open_session d)") auto
  consider err where "committed s = d" "r = Inl err"
    | p where "r = Inr p" "s = \<lparr>committed = d, current = with_profile e u d\<rparr>"
    using get_or_create_cases [OF r assms] by blast
  then show ?thesis
  proof cases
    case 1
    then show ?thesis
      using True r by (auto simp: serve_add_service_def get_db_def create_service_for_me_def
          require_roles_eq)
  next
    case (2 p)
    then show ?thesis
      using True r by (auto simp: serve_add_service_def get_db_def create_service_for_me_def
          require_roles_eq commit_def modify_def Let_def)
  qed
qed

lemma serve_add_slot_cases:
  assumes "schema_ok d"
  shows "snd (serve_add_slot e (payload, u) d) = d \<or>
    (\<exists>p. let t = new_slot e p payload (with_profile e u d) in
      snd (serve_add_slot e (payload, u) d) = add_slot t (with_profile e u d) \<and>
      schema_ok (with_profile e u d) \<and> schema_ok (add_slot t (with_profile e u d)) \<and>
      rq_start_at payload < rq_end_at payload \<and> \<not> overlap_found p payload (with_profile e u d))"
proof (cases "role u \<in> {SPECIALIST, ADMIN} \<and> rq_start_at payload < rq_end_at payload")
  case False
  then show ?thesis
    by (auto simp: serve_add_slot_def get_db_def create_slot_for_me_def require_roles_eq
        validate_interval_def)
next
  case True
  obtain r s where r: "get_or_create_specialist_profile e u (open_session d) = (r, s)"
    by (cases "get_or_create_specialist_profile e u (open_session d)") auto
  consider err where "committed s = d" "r = Inl err"
    | p where "r = Inr p" "s = \<lparr>committed = d, current = with_profile e u d\<rparr>" "schema_ok (with_profile e u d)"
    using get_or_create_cases [OF r assms] by blast
  then show ?thesis
  proof cases
    case 1
    then show ?thesis
      using True r by (auto simp: serve_add_slot_def get_db_def create_slot_for_me_def
          require_roles_eq validate_interval_def)
  next
    case (2 p)
    let ?d = "with_profile e u d" and ?t = "new_slot e (sp_id p) payload (with_profile e u d)"
    have "snd (serve_add_slot e (payload, u) d)
        = (if overlap_found (sp_id p) payload ?d \<or> \<not> schema_ok (add_slot ?t ?d) then d else add_slot ?t ?d)"
      using True r 2 by (auto simp: serve_add_slot_def get_db_def create_slot_for_me_def
          require_roles_eq validate_interval_def commit_def modify_def Let_def)
    then show ?thesis
    proof (cases "overlap_found (sp_id p) payload ?d \<or> \<not> schema_ok (add_slot ?t ?d)")
      case False
      with \<open>snd (serve_add_slot e (payload, u) d) = _\<close> True 2(3) show ?thesis
        by (intro disjI2 exI [of _ "sp_id p"]) (simp add: Let_def)
    qed simp
  qed
qed

lemma serve_delete_slot_cases:
  "snd (serve_delete_slot e (slot, u) d) = d \<or>
   (snd (serve_delete_slot e (slot, u) d) = remove_slot slot d \<and> schema_ok (remove_slot slot d) \<and>
    (\<exists>t \<in> set (time_slots d). ts_id t = slot \<and> \<not> is_booked t))"
  by (auto simp: serve_delete_slot_def get_db_def delete_slot_for_me_def depends_def require_roles_eq
      commit_def modify_def Let_def find_Some_iff
      split: option.split sum.split)

interpretation add_service: calendar_op serve_add_service "\<lambda>a d. True"
proof
  fix d e and a :: "service_create_request \<times> user"
  assume inv: "base_inv d"
  obtain payload u where a: "a = (payload, u)"
    by (cases a) auto
  note cases = serve_add_service_cases [OF base_inv_schema [OF inv], of e payload u]
  show "base_inv (snd (serve_add_service e a d))"
    using cases inv by (auto simp: a base_inv_def)
  show "exclusive (snd (serve_add_service e a d))" if "exclusive d"
    using cases that by (auto simp: a)
qed

interpretation add_slot: calendar_op serve_add_slot "\<lambda>a d. True"
proof
  fix d e and a :: "slot_create_request \<times> user"
  assume inv: "base_inv d"
  obtain payload u where a: "a = (payload, u)"
    by (cases a) auto
  let ?d = "with_profile e u d"
  have "slots_disjoint ?d" "backed ?d"
    using inv by (simp_all add: base_inv_def)
  then have ok: "base_inv (add_slot (new_slot e p payload ?d) ?d)"
    if "schema_ok ?d" "schema_ok (add_slot (new_slot e p payload ?d) ?d)"
      "rq_start_at payload < rq_end_at payload" "\<not> overlap_found p payload ?d" for p
    using that add_slot_exclusive(2) [OF that(1,2)]
      add_slot_disjoint [of ?d "new_slot e p payload ?d"]
    by (auto simp: base_inv_def overlap_found_def)
  note cases = serve_add_slot_cases [OF base_inv_schema [OF inv], of e payload u]
  show "base_inv (snd (serve_add_slot e a d))"
    using cases inv ok unfolding a Let_def by metis
  have "exclusive (add_slot (new_slot e p payload ?d) ?d)"
    if "exclusive d" "schema_ok ?d" "schema_ok (add_slot (new_slot e p payload ?d) ?d)" for p
    using add_slot_exclusive(1) [OF that(2,3)] that(1) by simp
  then show "exclusive (snd (serve_add_slot e a d))" if "exclusive d"
    using cases that unfolding a Let_def by metis
qed

interpretation delete_slot: calendar_op serve_delete_slot "\<lambda>a d. True"
proof
  fix d e and a :: "int \<times> user"
  assume inv: "base_inv d"
  obtain slot u where a: "a = (slot, u)"
    by (cases a) auto
  note cases = serve_delete_slot_cases [of e slot u d]
  show "base_inv (snd (serve_delete_slot e a d))"
    using cases inv remove_slot_invariants(2,3) [of d slot] by (auto simp: a base_inv_def)
  show "exclusive (snd (serve_delete_slot e a d))" if "exclusive d"
    using cases that remove_slot_invariants(1) [of d slot] by (auto simp: a)
qed

end
