(* ===== verification/Availability.thy ===== *)
theory Availability
  imports Slot_Management
begin

text \<open>
  The availability of a specialist: the dictionary that the handler fills in a loop over the
  ordered slots is, for each day of the window, the count of the specialist's slots of that day,
  of the free ones and of the booked ones.
\<close>

section \<open>The loop\<close>

abbreviation day_of :: "time_slot \<Rightarrow> date" where
  "day_of t \<equiv> start_at t div day_length"

lemma stats_step_eq:
  "stats_step t (map (\<lambda>k. (k, f k)) ks)
    = map (\<lambda>k. (k, if k = day_of t then count_slot t (f k) else f k)) ks"
proof (cases "day_of t \<in> set ks")
  case True
  then have "map_of (map (\<lambda>k. (k, f k)) ks) (day_of t) = Some (f (day_of t))"
    by (induction ks) auto
  then show ?thesis
    by (simp add: stats_step_def)
next
  case False
  then have "map_of (map (\<lambda>k. (k, f k)) ks) (day_of t) = None"
    by (induction ks) auto
  then show ?thesis
    using False by (auto simp: stats_step_def)
qed

lemma fold_stats_step:
  "fold stats_step ts (map (\<lambda>k. (k, f k)) ks)
    = map (\<lambda>k. (k, fold count_slot (filter (\<lambda>t. day_of t = k) ts) (f k))) ks"
proof (induction ts arbitrary: f)
  case Nil
  then show ?case by simp
next
  case (Cons t ts)
  show ?case
    by (simp add: stats_step_eq Cons.IH)
qed

lemma fold_count_slot:
  "fold count_slot ts st = \<lparr>total = total st + int (length ts),
     free = free st + int (length (filter (\<lambda>t. \<not> is_booked t) ts)),
     booked = booked st + int (length (filter is_booked ts))\<rparr>"
  by (induction ts arbitrary: st) (simp_all add: count_slot_def Let_def)

lemma length_filter_sort: "length (filter P (sort_key f xs)) = length (filter P xs)"
  by (simp add: filter_sort)

lemma filter_sort_length: "length (filter P (filter Q (sort_key f xs))) = length (filter (\<lambda>x. Q x \<and> P x) xs)"
  by (simp add: length_filter_sort conj_commute)

section \<open>The window\<close>

definition slots_on :: "db \<Rightarrow> int \<Rightarrow> date \<Rightarrow> time_slot list" where
  "slots_on d specialist k = filter (\<lambda>t. specialist_id t = specialist \<and> day_of t = k) (time_slots d)"

definition availability_day :: "db \<Rightarrow> int \<Rightarrow> date \<Rightarrow> specialist_availability_day_response" where
  "availability_day d specialist k = \<lparr>ar_date = k,
     ar_total_slots = int (length (slots_on d specialist k)),
     ar_free_slots = int (length (filter (\<lambda>t. \<not> is_booked t) (slots_on d specialist k))),
     ar_booked_slots = int (length (filter is_booked (slots_on d specialist k)))\<rparr>"

lemma plus_days_midnight:
  "plus_days (midnight a) n = (if date_max < a + n then Inl OverflowError else Inr (midnight (a + n)))"
proof -
  have pos: "0 < day_length"
    by (simp add: day_length_def)
  have "(date_max + 1) * day_length \<le> (a + n) * day_length \<longleftrightarrow> date_max < a + n"
    by (simp only: mult_le_cancel_right_pos [OF pos] add1_zle_eq)
  then show ?thesis
    by (simp add: plus_days_def midnight_def ring_distribs Let_def)
qed

lemma window_days: "midnight a \<le> t \<and> t < midnight (a + n) \<longleftrightarrow> a \<le> t div day_length \<and> t div day_length < a + n"
  using day_bounds(1) [of a t] day_bounds(2) [of t "a + n - 1"] by auto

lemma empty_stats_eq:
  "empty_stats a n = map (\<lambda>k. (k, \<lparr>total = 0, free = 0, booked = 0\<rparr>)) (upto a (a + n - 1))"
proof -
  have "map (\<lambda>i. a + i) (upto 0 (n - 1)) = upto a (a + n - 1)"
    by (rule nth_equalityI) simp_all
  then show ?thesis
    unfolding empty_stats_def by (metis (no_types, lifting) map_map comp_apply map_eq_conv)
qed

text \<open>The loop over the slots of a window, on a day of the window.\<close>

lemma availability_stats:
  assumes "a \<le> k" and "k < a + n"
  shows "fold count_slot (filter (\<lambda>t. day_of t = k) (sort_key start_at (filter (\<lambda>t. specialist_id t = s \<and>
      midnight a \<le> start_at t \<and> start_at t < midnight (a + n)) (time_slots d))))
      \<lparr>total = 0, free = 0, booked = 0\<rparr>
    = \<lparr>total = int (length (slots_on d s k)),
       free = int (length (filter (\<lambda>t. \<not> is_booked t) (slots_on d s k))),
       booked = int (length (filter is_booked (slots_on d s k)))\<rparr>"
proof -
  have day: "(specialist_id t = s \<and> midnight a \<le> start_at t \<and> start_at t < midnight (a + n)) \<and> day_of t = k
      \<longleftrightarrow> specialist_id t = s \<and> day_of t = k" for t
    using assms window_days [of a "start_at t" n] by auto
  have "length (filter P (filter (\<lambda>t. day_of t = k) (sort_key start_at (filter (\<lambda>t. specialist_id t = s \<and>
      midnight a \<le> start_at t \<and> start_at t < midnight (a + n)) (time_slots d)))))
    = length (filter P (slots_on d s k))" for P
    unfolding slots_on_def filter_filter filter_sort length_sort
    by (rule arg_cong [of _ _ length], rule filter_cong [OF refl]) (use day in blast)
  from this [of "\<lambda>t. True"] this [of is_booked] this [of "\<lambda>t. \<not> is_booked t"] show ?thesis
    by (simp add: fold_count_slot)
qed

lemma availability_eq:
  assumes "find_by sp_id s (specialist_profiles d) = Some p"
    and "a = (case date_from of None \<Rightarrow> now e div day_length | Some day \<Rightarrow> day)"
  shows "get_specialist_availability e s date_from n d =
    (if date_max < a + n then Inl OverflowError
     else Inr (map (availability_day d s) (upto a (a + n - 1))))"
proof (cases "date_max < a + n")
  case True
  then show ?thesis
    using assms by (simp add: get_specialist_availability_def plus_days_midnight)
next
  case False
  let ?slots = "sort_key start_at (filter (\<lambda>t. specialist_id t = s \<and>
      midnight a \<le> start_at t \<and> start_at t < midnight (a + n)) (time_slots d))"
  have "map (\<lambda>(day, st). \<lparr>ar_date = day, ar_total_slots = total st, ar_free_slots = free st,
      ar_booked_slots = booked st\<rparr>) (fold stats_step ?slots (empty_stats a n))
    = map (availability_day d s) (upto a (a + n - 1))"
    unfolding empty_stats_eq fold_stats_step map_map
    by (rule map_cong [OF refl]) (simp add: availability_stats availability_day_def)
  then show ?thesis
    using False assms by (simp add: get_specialist_availability_def plus_days_midnight Let_def)
qed

lemma availability_day_total:
  "ar_total_slots (availability_day d s k) = ar_free_slots (availability_day d s k) + ar_booked_slots (availability_day d s k)"
proof -
  have "length ts = length (filter (\<lambda>t. \<not> is_booked t) ts) + length (filter is_booked ts)" for ts
    by (induction ts) auto
  from this [of "slots_on d s k"] show ?thesis
    by (simp add: availability_day_def)
qed

end
