(* ===== verification/Tasks.thy ===== *)
theory Tasks
  imports Config Release Joins Wait_List_Service
begin

text \<open>
  The periodic tasks: \<^verbatim>\<open>app/tasks/expirations.py\<close> expires confirmed bookings of slots that have
  started, frees the slots and promotes their wait lists; \<^verbatim>\<open>app/tasks/reminders.py\<close> counts the
  bookings that start soon. The lemmas describe a run of the first as one step on holders and
  queues, and show that the invariants survive failing statements.
\<close>

section \<open>The code\<close>

definition stale_bookings :: "instant \<Rightarrow> db \<Rightarrow> booking list" where
  "stale_bookings expire_before d =
     map fst (filter (\<lambda>(b, t). status b = CONFIRMED \<and> start_at t \<le> expire_before) (booking_slot_join d))"

definition expire_booking :: "instant \<Rightarrow> booking \<Rightarrow> booking" where
  "expire_booking current_time b = b\<lparr>status := EXPIRED, cancelled_at := Some current_time\<rparr>"

text \<open>
  The second loop. Each promotion is a call of its own, with its own answers of the environment:
  \<open>ep i\<close> for the promotion that follows the expiry of the booking with id \<open>i\<close>. An exception ends
  the loop.
\<close>

fun promote_all :: "(int \<Rightarrow> env) \<Rightarrow> booking list \<Rightarrow> session \<Rightarrow> unit res \<times> session" where
  "promote_all ep [] s = (Inr (), s)"
| "promote_all ep (b # bs) s =
     (case promote_next_wait_list_entry (ep (b_id b)) (slot_id b) s of
        (Inl err, s) \<Rightarrow> (Inl err, s)
      | (Inr _, s) \<Rightarrow> promote_all ep bs s)"

definition expire_started_slots ::
  "settings \<Rightarrow> env \<Rightarrow> (int \<Rightarrow> env) \<Rightarrow> instant option \<Rightarrow> session \<Rightarrow> int res \<times> session" where
  "expire_started_slots cfg e ep now_arg s =
     (let current_time = (case now_arg of None \<Rightarrow> now e | Some t \<Rightarrow> t);
          expire_before = current_time - minutes (booking_expire_after_start_minutes cfg);
          stale = stale_bookings expire_before (current s);
          s = modify (fold (\<lambda>b. release (expire_booking current_time) b) stale) s
      in if stale \<noteq> []
         then
           (case commit s of
              (Inl err, s) \<Rightarrow> (Inl err, s)
            | (Inr _, s) \<Rightarrow>
              (case promote_all ep stale s of
                 (Inl err, s) \<Rightarrow> (Inl err, s)
               | (Inr _, s) \<Rightarrow> (Inr (int (length stale)), s)))
         else (Inr 0, s))"

definition expire_started_slots_task ::
  "settings \<Rightarrow> env \<Rightarrow> (int \<Rightarrow> env) \<Rightarrow> db \<Rightarrow> (string \<times> int) list res \<times> db" where
  "expire_started_slots_task cfg e ep d =
     (case get_db (expire_started_slots cfg e ep None) d of
        (Inl err, d) \<Rightarrow> (Inl err, d)
      | (Inr expired_count, d) \<Rightarrow> (Inr [(''expired'', expired_count)], d))"

definition count_upcoming_bookings_for_reminder ::
  "settings \<Rightarrow> env \<Rightarrow> instant option \<Rightarrow> db \<Rightarrow> int" where
  "count_upcoming_bookings_for_reminder cfg e now_arg d =
     (let current_time = (case now_arg of None \<Rightarrow> now e | Some t \<Rightarrow> t);
          reminder_until = current_time + minutes (reminder_lookahead_minutes cfg);
          upcoming = map fst (filter (\<lambda>(b, t). status b = CONFIRMED \<and> current_time \<le> start_at t
            \<and> start_at t < reminder_until) (booking_slot_join d))
      in int (length upcoming))"

definition remind_upcoming_bookings_task :: "settings \<Rightarrow> env \<Rightarrow> db \<Rightarrow> (string \<times> int) list" where
  "remind_upcoming_bookings_task cfg e d =
     [(''to_remind'', count_upcoming_bookings_for_reminder cfg e None d)]"

section \<open>Stale bookings\<close>

definition is_stale :: "instant \<Rightarrow> db \<Rightarrow> booking \<Rightarrow> bool" where
  "is_stale expire_before d b \<longleftrightarrow> status b = CONFIRMED \<and> start_at (slot_of d b) \<le> expire_before"

lemma stale_bookings_eq:
  assumes "schema_ok d"
  shows "stale_bookings t d = filter (is_stale t d) (bookings d)"
  by (simp add: stale_bookings_def booking_slot_join_eq [OF assms] filter_map comp_def
      is_stale_def [abs_def] case_prod_beta)

lemma closing_expire [simp]: "closing (expire_booking t)"
  by (simp add: closing_def expire_booking_def)

section \<open>The first loop\<close>

text \<open>
  Expiring a list of distinct bookings: every one is closed and its slot freed, and no other
  booking changes.
\<close>

lemma release_keeps_list:
  assumes "distinct (map b_id (b # bs))" and "set bs \<subseteq> set (bookings d)"
  shows "set bs \<subseteq> set (bookings (release f b d))"
proof
  fix c
  assume c: "c \<in> set bs"
  then have "b_id c \<noteq> b_id b"
    using assms(1) by (auto intro: rev_image_eqI)
  then show "c \<in> set (bookings (release f b d))"
    using c assms(2) release_keeps_others by blast
qed

lemma fold_release_base:
  assumes "base_inv d" and "closing f" and "distinct (map b_id bs)" and "set bs \<subseteq> set (bookings d)"
  shows "base_inv (fold (release f) bs d)"
  using assms
proof (induction bs arbitrary: d)
  case Nil
  then show ?case by simp
next
  case (Cons b bs)
  have "base_inv (release f b d)"
    using Cons.prems by (intro release_base) auto
  moreover have "set bs \<subseteq> set (bookings (release f b d))"
    using Cons.prems by (intro release_keeps_list) auto
  ultimately show ?case
    using Cons by simp
qed

lemma fold_release_exclusive:
  assumes "base_inv d" and "exclusive d" and "closing f" and "distinct (map b_id bs)"
    and "set bs \<subseteq> set (bookings d)" and "\<forall>b \<in> set bs. status b = CONFIRMED"
  shows "exclusive (fold (release f) bs d) \<and>
    holder_of (fold (release f) bs d)
      = (\<lambda>s. if s \<in> slot_id ` set bs then None else holder_of d s)"
  using assms
proof (induction bs arbitrary: d)
  case Nil
  then show ?case by simp
next
  case (Cons b bs)
  have mem: "b \<in> set (bookings d)" and conf: "status b = CONFIRMED"
    using Cons.prems by auto
  have "base_inv (release f b d)" "exclusive (release f b d)"
    and h: "holder_of (release f b d) = (holder_of d)(slot_id b := None)"
    using Cons.prems mem conf release_base release_exclusive release_holder by auto
  moreover have "set bs \<subseteq> set (bookings (release f b d))"
    using Cons.prems by (intro release_keeps_list) auto
  ultimately have "exclusive (fold (release f) bs (release f b d)) \<and>
    holder_of (fold (release f) bs (release f b d))
      = (\<lambda>s. if s \<in> slot_id ` set bs then None else holder_of (release f b d) s)"
    using Cons.prems by (intro Cons.IH) auto
  then show ?case
    by (auto simp: h)
qed

lemma fold_release_fields [simp]:
  "wait_list_entries (fold (release f) bs d) = wait_list_entries d"
  "users (fold (release f) bs d) = users d"
  "specialist_profiles (fold (release f) bs d) = specialist_profiles d"
  "services (fold (release f) bs d) = services d"
  "map ts_id (time_slots (fold (release f) bs d)) = map ts_id (time_slots d)"
  by (induction bs arbitrary: d) simp_all

lemma queue_of_fold_release [simp]: "queue_of (fold (release f) bs d) = queue_of d"
  by (rule queue_of_cong) simp

text \<open>The rows after the loop, in one equation.\<close>

lemma bookings_fold_release:
  assumes "closing f" and "distinct (map b_id bs)"
  shows "bookings (fold (release f) bs d) = map (\<lambda>b. if b_id b \<in> b_id ` set bs then f b else b) (bookings d)"
  using assms(2)
proof (induction bs arbitrary: d)
  case Nil
  then show ?case by simp
next
  case (Cons b bs)
  have "bookings (fold (release f) (b # bs) d)
      = map (\<lambda>c. if b_id c \<in> b_id ` set bs then f c else c) (update_by b_id (b_id b) f (bookings d))"
    using Cons by simp
  also have "\<dots> = map (\<lambda>c. if b_id c \<in> b_id ` set (b # bs) then f c else c) (bookings d)"
    using Cons.prems by (auto simp: update_by_def closing_simps(1) [OF assms(1)])
  finally show ?case .
qed

section \<open>The second loop\<close>

text \<open>Whatever fails, the loop leaves a clean session, and the invariants hold.\<close>

lemma promote_all_keeps:
  assumes "base_inv d" and "promote_all ep bs (open_session d) = (r, s')"
  shows "s' = open_session (committed s') \<and> base_inv (committed s') \<and>
    (exclusive d \<longrightarrow> exclusive (committed s'))"
  using assms
proof (induction bs arbitrary: d)
  case Nil
  then show ?case by auto
next
  case (Cons b bs)
  let ?d = "snd (serve_promote (ep (b_id b)) (slot_id b) d)"
  obtain r1 where r1: "promote_next_wait_list_entry (ep (b_id b)) (slot_id b) (open_session d)
      = (r1, open_session ?d)"
    using serve_promote_open [OF base_inv_schema [OF Cons.prems(1)]] by blast
  have keeps: "base_inv ?d" "exclusive d \<Longrightarrow> exclusive ?d"
    using promote.keeps_base [OF Cons.prems(1)] promote.keeps_exclusive [OF Cons.prems(1)] by simp_all
  show ?case
  proof (cases r1)
    case (Inl err)
    then show ?thesis
      using Cons.prems r1 keeps by auto
  next
    case (Inr x)
    then show ?thesis
      using Cons.prems(2) r1 keeps Cons.IH [of ?d] by simp
  qed
qed

lemma promote_all_calendar:
  assumes "base_inv d" and "exclusive d" and "distinct (map slot_id bs)"
    and "\<forall>b \<in> set bs. generated_ok (ep (b_id b)) \<and> no_faults (ep (b_id b)) \<and>
      holder_of d (slot_id b) = None \<and> slot_id b \<noteq> 0"
  shows "\<exists>d'. promote_all ep bs (open_session d) = (Inr (), open_session d') \<and>
    base_inv d' \<and> exclusive d' \<and>
    holder_of d' = (\<lambda>s. if s \<in> slot_id ` set bs then next_holder (queue_of d s) else holder_of d s) \<and>
    queue_of d' = (\<lambda>s. if s \<in> slot_id ` set bs then tl (queue_of d s) else queue_of d s)"
  using assms
proof (induction bs arbitrary: d)
  case Nil
  then show ?case by simp
next
  case (Cons b bs)
  then obtain x d1 where d1: "promote_next_wait_list_entry (ep (b_id b)) (slot_id b) (open_session d)
      = (Inr x, open_session d1)" "base_inv d1" "exclusive d1"
    "holder_of d1 = (holder_of d)(slot_id b := next_holder (queue_of d (slot_id b)))"
    "queue_of d1 = (queue_of d)(slot_id b := tl (queue_of d (slot_id b)))"
    using promote_calendar [of d "ep (b_id b)" "slot_id b"] by auto
  have fresh: "slot_id b \<notin> slot_id ` set bs"
    using Cons.prems(3) by simp
  then have "\<forall>c \<in> set bs. generated_ok (ep (b_id c)) \<and> no_faults (ep (b_id c)) \<and>
      holder_of d1 (slot_id c) = None \<and> slot_id c \<noteq> 0"
    using Cons.prems(4) by (auto simp: d1(4) intro: rev_image_eqI)
  then obtain d' where "promote_all ep bs (open_session d1) = (Inr (), open_session d')"
    "base_inv d'" "exclusive d'"
    "holder_of d' = (\<lambda>s. if s \<in> slot_id ` set bs then next_holder (queue_of d1 s) else holder_of d1 s)"
    "queue_of d' = (\<lambda>s. if s \<in> slot_id ` set bs then tl (queue_of d1 s) else queue_of d1 s)"
    using Cons.IH [OF d1(2,3)] Cons.prems(3) by auto
  then show ?case
    using d1 fresh by (auto simp: fun_eq_iff)
qed

section \<open>The task\<close>

lemma stale_bookings_facts:
  assumes "schema_ok d"
  shows "distinct (map b_id (stale_bookings t d))" "set (stale_bookings t d) \<subseteq> set (bookings d)"
    "\<forall>b \<in> set (stale_bookings t d). status b = CONFIRMED"
  using schema_ok_distinct(7) [OF assms]
  by (auto simp: stale_bookings_eq [OF assms] is_stale_def distinct_map_filter)

definition serve_expire ::
  "settings \<Rightarrow> (int \<Rightarrow> env) \<Rightarrow> env \<Rightarrow> instant option \<Rightarrow> db \<Rightarrow> int res \<times> db" where
  "serve_expire cfg ep e t d = get_db (expire_started_slots cfg e ep t) d"

text \<open>The database after the first loop.\<close>

definition expired_db :: "settings \<Rightarrow> instant \<Rightarrow> db \<Rightarrow> db" where
  "expired_db cfg t d = fold (release (expire_booking t))
     (stale_bookings (t - minutes (booking_expire_after_start_minutes cfg)) d) d"

lemma expired_db_base: "base_inv d \<Longrightarrow> base_inv (expired_db cfg t d)"
  unfolding expired_db_def
  by (intro fold_release_base) (simp_all add: stale_bookings_facts base_inv_schema)

lemma expired_db_exclusive:
  assumes "base_inv d" and "exclusive d"
  shows "exclusive (expired_db cfg t d) \<and>
    holder_of (expired_db cfg t d) = (\<lambda>s. if s \<in> slot_id `
      set (stale_bookings (t - minutes (booking_expire_after_start_minutes cfg)) d)
      then None else holder_of d s)"
  unfolding expired_db_def
  by (rule fold_release_exclusive [OF assms closing_expire
      stale_bookings_facts [OF base_inv_schema [OF assms(1)]]])

abbreviation cutoff :: "settings \<Rightarrow> instant \<Rightarrow> instant" where
  "cutoff cfg t \<equiv> t - minutes (booking_expire_after_start_minutes cfg)"

lemma expired_db_schema: "schema_ok d \<Longrightarrow> schema_ok (expired_db cfg t d)"
proof -
  have "schema_ok (fold (release (expire_booking t)) bs d)" if "schema_ok d" for bs
    using that by (induction bs arbitrary: d) (simp_all add: schema_ok_release)
  then show "schema_ok d \<Longrightarrow> schema_ok (expired_db cfg t d)"
    by (simp add: expired_db_def)
qed

lemma expire_started_slots_schema:
  assumes "schema_ok d" and "t = (case arg of None \<Rightarrow> now e | Some u \<Rightarrow> u)"
  shows "expire_started_slots cfg e ep arg (open_session d) =
    (if stale_bookings (cutoff cfg t) d = [] then (Inr 0, open_session d)
     else (case promote_all ep (stale_bookings (cutoff cfg t) d) (open_session (expired_db cfg t d)) of
       (Inl err, s) \<Rightarrow> (Inl err, s)
     | (Inr _, s) \<Rightarrow> (Inr (int (length (stale_bookings (cutoff cfg t) d))), s)))"
  using expired_db_schema [OF assms(1), of cfg t] unfolding expired_db_def
  by (simp add: expire_started_slots_def assms(2) [symmetric] commit_def open_session_def
      modify_def Let_def split: prod.splits sum.splits)

lemmas expire_started_slots_open = expire_started_slots_schema [OF base_inv_schema]

lemma serve_expire_keeps:
  assumes "base_inv d"
  shows "base_inv (snd (serve_expire cfg ep e arg d))"
    and "exclusive d \<Longrightarrow> exclusive (snd (serve_expire cfg ep e arg d))"
proof -
  define t where "t = (case arg of None \<Rightarrow> now e | Some u \<Rightarrow> u)"
  note open_eq = expire_started_slots_open [OF assms t_def, of cfg ep]
  obtain r s' where loop: "promote_all ep (stale_bookings (cutoff cfg t) d)
      (open_session (expired_db cfg t d)) = (r, s')"
    by (cases "promote_all ep (stale_bookings (cutoff cfg t) d) (open_session (expired_db cfg t d))") auto
  have result: "snd (serve_expire cfg ep e arg d)
      = (if stale_bookings (cutoff cfg t) d = [] then d else committed s')"
    by (simp add: serve_expire_def get_db_def open_eq loop split: prod.splits sum.splits)
  note keeps = promote_all_keeps [OF expired_db_base [OF assms] loop]
  show "base_inv (snd (serve_expire cfg ep e arg d))"
    using assms keeps by (simp add: result)
  show "exclusive (snd (serve_expire cfg ep e arg d))" if "exclusive d"
    using that keeps expired_db_exclusive [OF assms that, of cfg t] by (simp add: result)
qed

interpretation expire: calendar_op "serve_expire cfg ep" "\<lambda>a d. True"
  by unfold_locales (rule serve_expire_keeps; assumption)+

text \<open>While bookings are exclusive, different stale bookings are on different slots.\<close>

lemma distinct_stale_slots:
  assumes "base_inv d" and "exclusive d"
  shows "distinct (map slot_id (stale_bookings t d))"
proof -
  note ok = base_inv_schema [OF assms(1)] and facts = stale_bookings_facts [OF base_inv_schema [OF assms(1)], of t]
  have "inj_on slot_id (set (stale_bookings t d))"
  proof (rule inj_onI)
    fix b c
    assume b: "b \<in> set (stale_bookings t d)" and c: "c \<in> set (stale_bookings t d)"
      and eq: "slot_id b = slot_id c"
    have "confirmed_on (slot_id b) d = [b]"
      by (rule exclusive_single [OF assms(2) ok]) (use b facts(2,3) in blast)+
    moreover have "confirmed_on (slot_id c) d = [c]"
      by (rule exclusive_single [OF assms(2) ok]) (use c facts(2,3) in blast)+
    ultimately have "[b] = [c]"
      unfolding eq by (rule subst)
    then show "b = c"
      by (rule list.inject [THEN iffD1, THEN conjunct1])
  qed
  then show ?thesis
    using facts(1) by (simp add: distinct_map)
qed

definition slots_positive :: "db \<Rightarrow> bool" where
  "slots_positive d \<longleftrightarrow> list_all (\<lambda>t. 0 < ts_id t) (time_slots d)"

lemma expire_calendar:
  assumes "base_inv d" and "exclusive d" and "slots_positive d"
    and "\<forall>i. generated_ok (ep i) \<and> no_faults (ep i)"
    and "t = (case arg of None \<Rightarrow> now e | Some u \<Rightarrow> u)"
    and "stale = stale_bookings (cutoff cfg t) d"
  shows "\<exists>d'. get_db (expire_started_slots cfg e ep arg) d = (Inr (int (length stale)), d') \<and>
    base_inv d' \<and> exclusive d' \<and>
    holder_of d' = (\<lambda>s. if s \<in> slot_id ` set stale then next_holder (queue_of d s) else holder_of d s) \<and>
    queue_of d' = (\<lambda>s. if s \<in> slot_id ` set stale then tl (queue_of d s) else queue_of d s)"
proof (cases "stale = []")
  case True
  then show ?thesis
    using assms(1,2,6) expire_started_slots_open [OF assms(1,5), of cfg ep]
    by (auto simp: get_db_def fun_eq_iff)
next
  case False
  note ok = base_inv_schema [OF assms(1)]
  let ?x = "expired_db cfg t d"
  have x: "base_inv ?x" "exclusive ?x"
    "holder_of ?x = (\<lambda>s. if s \<in> slot_id ` set stale then None else holder_of d s)"
    "queue_of ?x = queue_of d"
    using expired_db_base [OF assms(1)] expired_db_exclusive [OF assms(1,2), of cfg t] assms(6)
    by (simp_all add: expired_db_def)
  have "slot_id b \<noteq> 0" if "b \<in> set stale" for b
  proof -
    have "slot_id b \<in> ts_id ` set (time_slots d)"
      using that assms(6) stale_bookings_facts(2) [OF ok] schema_ok_references(1) [OF ok] by blast
    then show ?thesis
      using assms(3) by (auto simp: slots_positive_def list_all_iff)
  qed
  then have "\<forall>b \<in> set stale. generated_ok (ep (b_id b)) \<and> no_faults (ep (b_id b)) \<and>
      holder_of ?x (slot_id b) = None \<and> slot_id b \<noteq> 0"
    using assms(4) x(3) by simp
  then obtain d' where "promote_all ep stale (open_session ?x) = (Inr (), open_session d')"
    "base_inv d'" "exclusive d'"
    "holder_of d' = (\<lambda>s. if s \<in> slot_id ` set stale then next_holder (queue_of ?x s) else holder_of ?x s)"
    "queue_of d' = (\<lambda>s. if s \<in> slot_id ` set stale then tl (queue_of ?x s) else queue_of ?x s)"
    using promote_all_calendar [OF x(1,2)] distinct_stale_slots [OF assms(1,2)] assms(6) by blast
  then show ?thesis
    using False x(3,4) assms(6) expire_started_slots_open [OF assms(1,5), of cfg ep]
    by (auto simp: get_db_def fun_eq_iff)
qed

end
