(* ===== verification/System.thy ===== *)
theory System
  imports Auth_Api Availability Tasks
begin

text \<open>
  The program as a whole: every request and every task that writes, as an operation on the
  committed database, and the runs of operations in any order. A request takes its user as an
  argument, which covers every user its dependency may authenticate.
\<close>

section \<open>Operations\<close>

datatype operation =
    Op_Register env register_request
  | Op_Book env int "string option" user
  | Op_Cancel env int user
  | Op_Move env int int user
  | Op_Wait env int user
  | Op_Leave env int user
  | Op_Add_Service env service_create_request user
  | Op_Add_Slot env slot_create_request user
  | Op_Delete_Slot env int user
  | Op_Expire env "int \<Rightarrow> env" "instant option"

fun exec_op :: "'tok crypto \<Rightarrow> settings \<Rightarrow> operation \<Rightarrow> db \<Rightarrow> db" where
  "exec_op c cfg (Op_Register e payload) d = snd (serve_register c e payload d)"
| "exec_op c cfg (Op_Book e slot header u) d = snd (serve_book e (slot, header, u) d)"
| "exec_op c cfg (Op_Cancel e i u) d = snd (serve_cancel e (i, u) d)"
| "exec_op c cfg (Op_Move e i n u) d = snd (serve_move e (i, n, u) d)"
| "exec_op c cfg (Op_Wait e slot u) d = snd (serve_wait e (slot, u) d)"
| "exec_op c cfg (Op_Leave e i u) d = snd (serve_leave e (i, u) d)"
| "exec_op c cfg (Op_Add_Service e payload u) d = snd (serve_add_service e (payload, u) d)"
| "exec_op c cfg (Op_Add_Slot e payload u) d = snd (serve_add_slot e (payload, u) d)"
| "exec_op c cfg (Op_Delete_Slot e slot u) d = snd (serve_delete_slot e (slot, u) d)"
| "exec_op c cfg (Op_Expire e ep t) d = snd (serve_expire cfg ep e t d)"

text \<open>Only a cancellation can be unsafe: that of an expired booking whose slot is held again.\<close>

fun op_safe :: "operation \<Rightarrow> db \<Rightarrow> bool" where
  "op_safe (Op_Cancel e i u) d = cancel_safe (i, u) d"
| "op_safe _ d = True"

section \<open>Runs\<close>

lemma exec_op_base: "base_inv d \<Longrightarrow> base_inv (exec_op c cfg q d)"
  by (cases q) (simp_all add: register.keeps_base book.keeps_base cancel.keeps_base move.keeps_base
      wait.keeps_base leave.keeps_base add_service.keeps_base add_slot.keeps_base
      delete_slot.keeps_base expire.keeps_base)

lemma exec_op_exclusive:
  "base_inv d \<Longrightarrow> exclusive d \<Longrightarrow> op_safe q d \<Longrightarrow> exclusive (exec_op c cfg q d)"
  by (cases q) (simp_all add: register.keeps_exclusive book.keeps_exclusive cancel.keeps_exclusive
      move.keeps_exclusive wait.keeps_exclusive leave.keeps_exclusive add_service.keeps_exclusive
      add_slot.keeps_exclusive delete_slot.keeps_exclusive expire.keeps_exclusive)

interpretation program: db_machine "exec_op c cfg" base_inv
  by unfold_locales (rule exec_op_base)

text \<open>A second machine: operations that are not safe are not run.\<close>

definition exec_safe :: "'tok crypto \<Rightarrow> settings \<Rightarrow> operation \<Rightarrow> db \<Rightarrow> db" where
  "exec_safe c cfg q d = (if op_safe q d then exec_op c cfg q d else d)"

interpretation safe_program: db_machine "exec_safe c cfg" "\<lambda>d. base_inv d \<and> exclusive d"
  by unfold_locales (auto simp: exec_safe_def intro: exec_op_base exec_op_exclusive)

fun safe_run :: "'tok crypto \<Rightarrow> settings \<Rightarrow> operation list \<Rightarrow> db \<Rightarrow> bool" where
  "safe_run c cfg [] d = True"
| "safe_run c cfg (q # qs) d = (op_safe q d \<and> safe_run c cfg qs (exec_op c cfg q d))"

lemma safe_run_exec: "safe_run c cfg qs d \<Longrightarrow> fold (exec_op c cfg) qs d = fold (exec_safe c cfg) qs d"
  by (induction qs arbitrary: d) (simp_all add: exec_safe_def)

lemma safe_run_keeps:
  assumes "base_inv d" and "exclusive d" and "safe_run c cfg qs d"
  shows "base_inv (fold (exec_op c cfg) qs d) \<and> exclusive (fold (exec_op c cfg) qs d)"
  using safe_program.run_good [of d c cfg qs] assms(1,2) safe_run_exec [OF assms(3)] by simp

lemma empty_db_inv [simp]: "base_inv empty_db" "exclusive empty_db"
  by (simp_all add: base_inv_def exclusive_def backed_def slots_disjoint_def empty_db_def schema_defs)

text \<open>Runs without cancellations are safe.\<close>

fun is_cancel :: "operation \<Rightarrow> bool" where
  "is_cancel (Op_Cancel e i u) = True"
| "is_cancel _ = False"

lemma no_cancel_safe: "list_all (\<lambda>q. \<not> is_cancel q) qs \<Longrightarrow> safe_run c cfg qs d"
proof (induction qs arbitrary: d)
  case Nil
  then show ?case by simp
next
  case (Cons q qs)
  then show ?case by (cases q) simp_all
qed

section \<open>A run from the empty database\<close>

text \<open>
  Two clients and a specialist register; the specialist opens a slot; the first client books it
  and the second joins its wait list; the slot starts, the task expires the booking and promotes
  the second client; the first client cancels the expired booking, which frees the slot; and the
  first client books it again.
\<close>

definition trace_env :: env where
  "trace_env = \<lparr>postgresql = True, now = 1000,
     generated = (\<lambda>t ids. (int (length ids) + 1, int (length ids) + 1)), fault = (\<lambda>st. None)\<rparr>"

definition trace_user :: "int \<Rightarrow> string \<Rightarrow> user_role \<Rightarrow> user" where
  "trace_user i mail r =
     \<lparr>u_id = i, email = mail, hashed_password = ''p'', role = r, is_active = True, u_created_at = i\<rparr>"

definition opening_trace :: "operation list" where
  "opening_trace = [
     Op_Register trace_env \<lparr>rq_email = ''a'', rq_password = ''p'', rq_role = CLIENT\<rparr>,
     Op_Register trace_env \<lparr>rq_email = ''b'', rq_password = ''p'', rq_role = CLIENT\<rparr>,
     Op_Register trace_env \<lparr>rq_email = ''s'', rq_password = ''p'', rq_role = SPECIALIST\<rparr>,
     Op_Add_Slot trace_env \<lparr>rq_start_at = 100, rq_end_at = 200\<rparr> (trace_user 3 ''s'' SPECIALIST),
     Op_Book trace_env 1 None (trace_user 1 ''a'' CLIENT),
     Op_Wait trace_env 1 (trace_user 2 ''b'' CLIENT),
     Op_Expire trace_env (\<lambda>_. trace_env) None]"

definition reopening_trace :: "operation list" where
  "reopening_trace = [
     Op_Cancel trace_env 1 (trace_user 1 ''a'' CLIENT),
     Op_Book trace_env 1 None (trace_user 1 ''a'' CLIENT)]"

lemma opening_state:
  "fold (exec_op plain_crypto default_settings) opening_trace empty_db = \<lparr>
     users = [trace_user 1 ''a'' CLIENT, trace_user 2 ''b'' CLIENT, trace_user 3 ''s'' SPECIALIST],
     specialist_profiles = [\<lparr>sp_id = 1, sp_user_id = 3, display_name = ''s'', sp_description = None, sp_created_at = 1\<rparr>],
     services = [],
     time_slots = [\<lparr>ts_id = 1, specialist_id = 1, start_at = 100, end_at = 200, is_booked = True, ts_created_at = 1\<rparr>],
     bookings = [
       \<lparr>b_id = 1, slot_id = 1, client_id = 1, idempotency_key = None, status = EXPIRED, b_created_at = 1, cancelled_at = Some 1000\<rparr>,
       \<lparr>b_id = 2, slot_id = 1, client_id = 2, idempotency_key = None, status = CONFIRMED, b_created_at = 2, cancelled_at = None\<rparr>],
     wait_list_entries = []\<rparr>"
  by code_simp

end
