(* ===== verification/Scenario.thy ===== *)
theory Scenario
  imports Slot_Calendar
begin

text \<open>
  A small concrete database and environment, on which the hypotheses of the theorems are shown to
  hold: two clients, a specialist and an admin, three slots of the specialist, of which the second
  is booked by the first client and waited for by the second.
\<close>

definition demo_env :: env where
  "demo_env = \<lparr>postgresql = True, now = 1000,
     generated = (\<lambda>t ids. (fold max ids 0 + 1, fold max ids 0 + 1)), fault = (\<lambda>st. None)\<rparr>"

definition demo_user :: "int \<Rightarrow> string \<Rightarrow> user_role \<Rightarrow> user" where
  "demo_user i mail r =
     \<lparr>u_id = i, email = mail, hashed_password = ''x'', role = r, is_active = True, u_created_at = 0\<rparr>"

definition demo_slot :: "int \<Rightarrow> int \<Rightarrow> int \<Rightarrow> bool \<Rightarrow> time_slot" where
  "demo_slot i a b bk =
     \<lparr>ts_id = i, specialist_id = 1, start_at = a, end_at = b, is_booked = bk, ts_created_at = 0\<rparr>"

definition demo_booking :: "int \<Rightarrow> int \<Rightarrow> int \<Rightarrow> booking_status \<Rightarrow> booking" where
  "demo_booking i s c st =
     \<lparr>b_id = i, slot_id = s, client_id = c, idempotency_key = None, status = st,
      b_created_at = 0, cancelled_at = None\<rparr>"

definition demo_db :: db where
  "demo_db = \<lparr>
     users = [demo_user 1 ''a@x'' CLIENT, demo_user 2 ''b@x'' CLIENT, demo_user 3 ''s@x'' SPECIALIST,
       demo_user 4 ''r@x'' ADMIN],
     specialist_profiles = [\<lparr>sp_id = 1, sp_user_id = 3, display_name = ''s'', sp_description = None,
       sp_created_at = 0\<rparr>],
     services = [],
     time_slots = [demo_slot 1 100 200 False, demo_slot 2 200 300 True, demo_slot 3 300 400 False],
     bookings = [demo_booking 1 2 1 CONFIRMED],
     wait_list_entries = [\<lparr>w_id = 1, w_slot_id = 2, w_client_id = 2, w_created_at = 1\<rparr>]\<rparr>"

lemmas demo_defs = demo_env_def demo_user_def demo_slot_def demo_booking_def demo_db_def

lemma le_fold_max: "x \<in> set xs \<Longrightarrow> x \<le> fold max xs a" and le_fold_max_start: "a \<le> fold max xs a"
  for a :: "'a::linorder"
proof (induction xs arbitrary: a)
  case Nil
  {
    case 1
    then show ?case by simp
  next
    case 2
    then show ?case by simp
  }
next
  case (Cons y ys)
  {
    case 1
    then show ?case
      using Cons.IH(1) [of "max y a"] Cons.IH(2) [of "max y a"] by auto
  next
    case 2
    then show ?case
      using Cons.IH(2) [of "max y a"] by simp
  }
qed

lemma demo_generated_ok [simp]: "generated_ok demo_env"
  using le_fold_max [of _ _ "0::int"] le_fold_max_start [of "0::int"]
  by (fastforce simp: generated_ok_def demo_env_def)

lemma demo_no_faults [simp]: "no_faults demo_env"
  by (simp add: no_faults_def demo_env_def)

lemma demo_schema_ok [simp]: "schema_ok demo_db"
  by (simp add: schema_defs demo_defs)

lemma demo_ids [simp]:
  "u_id ` set (users demo_db) = {1, 2, 3, 4}" "ts_id ` set (time_slots demo_db) = {1, 2, 3}"
  by (simp_all add: demo_defs)

lemma demo_exclusive [simp]: "exclusive demo_db"
  by (simp add: exclusive_def confirmed_on_def demo_defs)

lemma demo_disjoint [simp]: "slots_disjoint demo_db"
  by (simp add: slots_disjoint_def overlaps_def demo_defs)

lemma demo_base_inv [simp]: "base_inv demo_db"
  by (simp add: base_inv_def exclusive_backed)

end
