(* ===== verification/Booking_Properties.thy ===== *)
theory Booking_Properties
  imports Booking_Service Scenario
begin

text \<open>The properties of the booking service, with a concrete instance of each.\<close>

section \<open>Creating a booking\<close>

text \<open>C17: When no statement of the driver fails, creating a booking for a known client returns and
  commits exactly what the reference function says, on every branch: the replay of an idempotency
  key, its reuse with another slot, an unknown slot, a booked slot, and the claim of a free slot.\<close>

theorem create_booking_matches_reference:
  assumes "schema_ok d" and "generated_ok e" and "no_faults e" and "client \<in> u_id ` set (users d)"
    and "key \<noteq> Some []"
  shows "get_db (create_booking_for_slot e slot client key) d = create_booking_ref e slot client key d"
  by (rule get_db_create [OF assms])

theorem create_booking_matches_reference_witness:
  "get_db (create_booking_for_slot demo_env 1 2 (Some ''k'')) demo_db
     = create_booking_ref demo_env 1 2 (Some ''k'') demo_db"
  by (rule create_booking_matches_reference) simp_all

text \<open>C18: Whatever statements fail, a call commits nothing or exactly one claim of a free slot with
  its new booking; unless the final refresh fails, a call that raises has committed nothing.\<close>

theorem create_booking_all_or_nothing:
  assumes "schema_ok d" and "get_db (create_booking_for_slot e slot client key) d = (r, d')"
  shows "(d' = d \<or>
      (\<exists>t. find_by ts_id slot (time_slots d) = Some t \<and> \<not> is_booked t) \<and>
      d' = booked_db e slot client key d)
    \<and> (fault e Refresh = None \<and> \<not> is_ok r \<longrightarrow> d' = d)"
proof -
  obtain s' where s': "create_booking_for_slot e slot client key (open_session d) = (r, s')"
    "d' = committed s'"
    using assms(2) by (auto simp: get_db_def split: prod.splits)
  then show ?thesis
    using create_booking_shape [OF assms(1) s'(1)] by (auto simp: claims_def)
qed

theorem create_booking_all_or_nothing_witness:
  "get_db (create_booking_for_slot (demo_env\<lparr>fault := (\<lambda>st. if st = Commit then Some None else None)\<rparr>)
     1 2 None) demo_db = (Inl (OperationalError None), demo_db)"
proof -
  let ?e = "demo_env\<lparr>fault := (\<lambda>st. if st = Commit then Some None else None)\<rparr>"
  have r: "fst (get_db (create_booking_for_slot ?e 1 2 None) demo_db) = Inl (OperationalError None)"
    by (simp add: get_db_def create_booking_for_slot_def create_booking_try_def claim_and_insert_def
        key_given_def exec_def demo_defs claim_rowcount_def claimable_def is_pg_lock_not_available_def
        Let_def open_session_def modify_def)
  obtain r' d' where eq: "get_db (create_booking_for_slot ?e 1 2 None) demo_db = (r', d')"
    by (cases "get_db (create_booking_for_slot ?e 1 2 None) demo_db") auto
  then show ?thesis
    using create_booking_all_or_nothing [OF demo_schema_ok eq] r by (simp add: demo_env_def)
qed

text \<open>While bookings are exclusive, a call that makes a booking finds the slot held by nobody and
  leaves it held by the client, changes no other holder and no wait list, and keeps bookings
  exclusive: in terms of holders it is one update at a free slot.\<close>

theorem create_booking_takes_free_slot:
  assumes "base_inv d" and "exclusive d" and "replay slot client key d = None"
    and "get_db (create_booking_for_slot e slot client key) d = (Inr b, d')"
  shows "holder_of d slot = None \<and> holder_of d' = (holder_of d)(slot := Some client)
    \<and> queue_of d' = queue_of d \<and> base_inv d' \<and> exclusive d'"
proof -
  obtain s' where s': "create_booking_for_slot e slot client key (open_session d) = (Inr b, s')"
    "d' = committed s'"
    using assms(4) by (auto simp: get_db_def split: prod.splits)
  then obtain r' where "claims e slot client key d r' d'"
    using create_booking_shape [OF base_inv_schema [OF assms(1)] s'(1)] assms(3) by auto
  then show ?thesis
    using claims_holder [OF assms(2)] claims_base [OF assms(1)] claims_exclusive [OF assms(2)]
    by blast
qed

theorem create_booking_takes_free_slot_witness:
  "holder_of demo_db 1 = None \<and>
   holder_of (snd (get_db (create_booking_for_slot demo_env 1 2 None) demo_db)) 1 = Some 2"
proof -
  have eq: "get_db (create_booking_for_slot demo_env 1 2 None) demo_db
      = create_booking_ref demo_env 1 2 None demo_db"
    by (rule get_db_create) simp_all
  have "fst (create_booking_ref demo_env 1 2 None demo_db) = Inr (new_booking demo_env 1 2 None demo_db)"
    by (simp add: create_booking_ref_def replay_def demo_db_def demo_slot_def Let_def)
  then obtain d' where r: "create_booking_ref demo_env 1 2 None demo_db
      = (Inr (new_booking demo_env 1 2 None demo_db), d')"
    by (cases "create_booking_ref demo_env 1 2 None demo_db") auto
  have "replay 1 2 None demo_db = None"
    by (simp add: replay_def)
  from create_booking_takes_free_slot [OF demo_base_inv demo_exclusive this eq [unfolded r]]
  show ?thesis
    by (simp add: eq r)
qed

text \<open>C28: A retry with the idempotency key of a call that returned a booking returns the same booking
  and changes nothing, whatever failed the first time and whatever time and ids the retry sees.\<close>

theorem create_booking_retry_idempotent:
  assumes "schema_ok d" and "k \<noteq> []"
    and "get_db (create_booking_for_slot e slot client (Some k)) d = (Inr b, d')"
    and "fault e' Select_Idempotency = None"
  shows "get_db (create_booking_for_slot e' slot client (Some k)) d' = (Inr b, d')"
proof -
  obtain s' where s': "create_booking_for_slot e slot client (Some k) (open_session d) = (Inr b, s')"
    "d' = committed s'"
    using assms(3) by (auto simp: get_db_def split: prod.splits)
  then show ?thesis
    using create_booking_retry [OF assms(1,2) s'(1) assms(4)] by (intro get_db_open) simp
qed

theorem create_booking_retry_idempotent_witness:
  "\<exists>b d'. get_db (create_booking_for_slot demo_env 1 2 (Some ''k'')) demo_db = (Inr b, d') \<and>
     get_db (create_booking_for_slot (demo_env\<lparr>now := 9\<rparr>) 1 2 (Some ''k'')) d' = (Inr b, d')"
proof -
  have eq: "get_db (create_booking_for_slot demo_env 1 2 (Some ''k'')) demo_db
      = create_booking_ref demo_env 1 2 (Some ''k'') demo_db"
    by (rule get_db_create) simp_all
  have "is_ok (fst (create_booking_ref demo_env 1 2 (Some ''k'') demo_db))"
    by (simp add: create_booking_ref_def replay_def existing_outcome_def
        get_booking_by_idempotency_key_def demo_db_def demo_slot_def demo_booking_def Let_def)
  then obtain b d' where r: "get_db (create_booking_for_slot demo_env 1 2 (Some ''k'')) demo_db = (Inr b, d')"
    by (cases "create_booking_ref demo_env 1 2 (Some ''k'') demo_db") (auto simp: eq elim: is_ok_E)
  have "fault (demo_env\<lparr>now := 9\<rparr>) Select_Idempotency = None"
    by (simp add: demo_env_def)
  then show ?thesis
    using r create_booking_retry_idempotent [OF demo_schema_ok _ r, of "demo_env\<lparr>now := 9\<rparr>"] by auto
qed

text \<open>When another transaction holds the row lock of the slot, the locking \<open>SELECT\<close> fails, and the
  caller gets a 409 asking to retry; any other driver error is raised as it came. Nothing is
  committed in either case.\<close>

theorem create_booking_lock_conflict:
  assumes "postgresql e" and "fault e (Select_Slot True) = Some err"
    and "fault e Select_Idempotency = None" and "replay slot client key d = None"
  shows "get_db (create_booking_for_slot e slot client key) d
    = (Inl (if is_pg_lock_not_available err then http 409 LOCK_CONFLICT_DETAIL else OperationalError err), d)"
  by (intro get_db_open create_booking_lock_fault assms)

theorem create_booking_lock_conflict_witness:
  "get_db (create_booking_for_slot (demo_env\<lparr>fault := (\<lambda>st. if st = Select_Slot True
       then Some (Some \<lparr>sqlstate = None, pgcode = Some ''55P03''\<rparr>) else None)\<rparr>) 1 2 None) demo_db
     = (Inl (http 409 ''Slot booking is in progress. Retry the request.''), demo_db)"
proof -
  let ?err = "Some \<lparr>sqlstate = None, pgcode = Some ''55P03''\<rparr> :: driver_error option"
  let ?e = "demo_env\<lparr>fault := (\<lambda>st. if st = Select_Slot True then Some ?err else None)\<rparr>"
  have "get_db (create_booking_for_slot ?e 1 2 None) demo_db
    = (Inl (if is_pg_lock_not_available ?err then http 409 LOCK_CONFLICT_DETAIL
        else OperationalError ?err), demo_db)"
    by (rule create_booking_lock_conflict) (simp_all add: demo_env_def replay_def)
  then show ?thesis
    by (simp add: is_pg_lock_not_available_def detail_defs)
qed

section \<open>Moving a booking\<close>

text \<open>When no statement fails, moving a booking returns and commits what the reference function
  says on every branch, and with the dictionary of locked slots and the order of locking gone.\<close>

theorem reschedule_matches_reference:
  assumes "schema_ok d" and "no_faults e"
  shows "get_db (reschedule_booking e i n) d = reschedule_ref i n d"
  by (rule get_db_reschedule [OF assms])

theorem reschedule_matches_reference_witness:
  "get_db (reschedule_booking demo_env 1 3) demo_db = reschedule_ref 1 3 demo_db"
  by (rule reschedule_matches_reference) simp_all

text \<open>While bookings are exclusive, a successful move changes nothing or takes the booking's client
  from its slot to a slot nobody held; both updates are committed together, no other holder and
  no wait list changes, and bookings stay exclusive, whatever statements fail.\<close>

theorem reschedule_moves_holder:
  assumes "base_inv d" and "exclusive d" and "get_db (reschedule_booking e i n) d = (r, d')"
  shows "base_inv d' \<and> exclusive d' \<and> queue_of d' = queue_of d \<and>
    (d' = d \<or> (\<exists>c m. holder_of d m = Some c \<and> holder_of d n = None \<and>
       holder_of d' = (holder_of d)(m := None, n := Some c)))"
proof -
  have "serve_reschedule e (i, n) d = (r, d')"
    using assms(3) by (simp add: serve_reschedule_def)
  then have "d' = d \<or> (\<exists>bk. movable i n d bk \<and> d' = moved_db bk n d)"
    using serve_reschedule_cases [OF base_inv_schema [OF assms(1)]] by blast
  then show ?thesis
    using assms moved_db_base moved_db_exclusive moved_db_holder by blast
qed

theorem reschedule_moves_holder_witness:
  "holder_of demo_db 2 = Some 1 \<and>
   exclusive (snd (get_db (reschedule_booking demo_env 1 3) demo_db)) \<and>
   holder_of (snd (get_db (reschedule_booking demo_env 1 3) demo_db)) 3 = Some 1"
proof -
  obtain r d' where r: "get_db (reschedule_booking demo_env 1 3) demo_db = (r, d')"
    by (cases "get_db (reschedule_booking demo_env 1 3) demo_db") auto
  then have "d' = snd (reschedule_ref 1 3 demo_db)"
    by (simp add: get_db_reschedule)
  then have "holder_of d' 3 = Some 1"
    by (simp add: reschedule_ref_def moved_db_def holder_of_def confirmed_on_def update_booking_def
        set_booked_def demo_defs)
  then show ?thesis
    using reschedule_moves_holder [OF demo_base_inv demo_exclusive r] r
    by (simp add: holder_of_def confirmed_on_def demo_defs)
qed

end
