(* ===== verification/Expiry_Runs.thy ===== *)
theory Expiry_Runs
  imports Tasks
begin

text \<open>
  Repeated runs of the expiry task: a slot that has started is passed from one waiting client to
  the next, one per run, until nobody waits for it and nobody holds it.
\<close>

section \<open>Times of slots do not change\<close>

definition slot_starts :: "db \<Rightarrow> (int \<times> instant) list" where
  "slot_starts d = map (\<lambda>t. (ts_id t, start_at t)) (time_slots d)"

lemma slot_starts_set_booked [simp]: "slot_starts (set_booked i v d) = slot_starts d"
  by (simp add: slot_starts_def map_update_by)

lemma slot_starts_cong: "time_slots d = time_slots d' \<Longrightarrow> slot_starts d = slot_starts d'"
  by (simp add: slot_starts_def)

lemma slot_starts_simps [simp]:
  "slot_starts (update_booking i f d) = slot_starts d" "slot_starts (add_booking b d) = slot_starts d"
  "slot_starts (remove_entry i d) = slot_starts d" "slot_starts (booked_db e s c k d) = slot_starts d"
  "slot_starts (release f b d) = slot_starts d" "slot_starts (fold (release f) bs d) = slot_starts d"
proof -
  show "slot_starts (update_booking i f d) = slot_starts d" "slot_starts (remove_entry i d) = slot_starts d"
    by (rule slot_starts_cong, simp)+
  have add: "slot_starts (add_booking b d) = slot_starts d" for b d
    by (rule slot_starts_cong) simp
  then show "slot_starts (add_booking b d) = slot_starts d" "slot_starts (booked_db e s c k d) = slot_starts d"
    by (simp_all add: booked_db_def)
  have one: "slot_starts (release f b d) = slot_starts d" for b d
    unfolding release_def slot_starts_set_booked by (rule slot_starts_cong) simp
  then show "slot_starts (release f b d) = slot_starts d" .
  show "slot_starts (fold (release f) bs d) = slot_starts d"
    using one by (induction bs arbitrary: d) simp_all
qed

lemma serve_promote_starts:
  assumes "schema_ok d"
  shows "slot_starts (snd (serve_promote e slot d)) = slot_starts d"
proof -
  have "slot_starts d1 = slot_starts d" if "claims e slot c None d r d1" for c r d1
    using that by (simp add: claims_def)
  moreover obtain r d' where r: "serve_promote e slot d = (r, d')"
    by (cases "serve_promote e slot d")
  ultimately show ?thesis
    using serve_promote_cases [OF assms r] by auto
qed

lemma promote_all_starts:
  assumes "base_inv d" and "promote_all ep bs (open_session d) = (r, s')"
  shows "slot_starts (committed s') = slot_starts d"
  using assms
proof (induction bs arbitrary: d)
  case Nil
  then show ?case by auto
next
  case (Cons b bs)
  let ?d = "snd (serve_promote (ep (b_id b)) (slot_id b) d)"
  note ok = base_inv_schema [OF Cons.prems(1)]
  obtain r1 where r1: "promote_next_wait_list_entry (ep (b_id b)) (slot_id b) (open_session d)
      = (r1, open_session ?d)"
    using serve_promote_open [OF ok] by blast
  have "base_inv ?d"
    using promote.keeps_base [OF Cons.prems(1)] .
  then show ?case
    using Cons.prems(2) Cons.IH [of ?d] r1 serve_promote_starts [OF ok, of "ep (b_id b)" "slot_id b"]
    by (auto split: sum.splits)
qed

lemma serve_expire_starts:
  assumes "base_inv d"
  shows "slot_starts (snd (serve_expire cfg ep e None d)) = slot_starts d"
proof -
  note open_eq = expire_started_slots_open [OF assms, of "now e" e None cfg ep, simplified]
  obtain r s' where loop: "promote_all ep (stale_bookings (cutoff cfg (now e)) d)
      (open_session (expired_db cfg (now e) d)) = (r, s')"
    by (cases "promote_all ep (stale_bookings (cutoff cfg (now e)) d) (open_session (expired_db cfg (now e) d))") auto
  have "slot_starts (committed s') = slot_starts d"
    using promote_all_starts [OF expired_db_base [OF assms] loop] by (simp add: expired_db_def)
  then show ?thesis
    by (simp add: serve_expire_def get_db_def open_eq loop split: prod.splits sum.splits)
qed

lemma slot_starts_find:
  assumes "slot_starts d' = slot_starts d" and "find_by ts_id s (time_slots d) = Some t"
  shows "\<exists>t'. find_by ts_id s (time_slots d') = Some t' \<and> start_at t' = start_at t"
proof -
  have key: "map_option start_at (find_by ts_id s ts) = map_of (map (\<lambda>t. (ts_id t, start_at t)) ts) s" for ts
    by (induction ts) auto
  have "map_option start_at (find_by ts_id s (time_slots d')) = map_option start_at (find_by ts_id s (time_slots d))"
    unfolding key using assms(1) by (simp add: slot_starts_def)
  then show ?thesis
    using assms(2) by auto
qed

lemma slots_positive_starts: "slots_positive d \<longleftrightarrow> list_all (\<lambda>i. 0 < i) (map fst (slot_starts d))"
  by (simp add: slots_positive_def slot_starts_def list_all_iff)

section \<open>One run on one slot\<close>

definition run_ok :: "settings \<Rightarrow> instant \<Rightarrow> env \<times> (int \<Rightarrow> env) \<Rightarrow> bool" where
  "run_ok cfg start run \<longleftrightarrow> start \<le> cutoff cfg (now (fst run)) \<and>
     (\<forall>i. generated_ok (snd run i) \<and> no_faults (snd run i))"

definition expire_run :: "settings \<Rightarrow> env \<times> (int \<Rightarrow> env) \<Rightarrow> db \<Rightarrow> db" where
  "expire_run cfg run d = snd (serve_expire cfg (snd run) (fst run) None d)"

definition drainable :: "int \<Rightarrow> instant \<Rightarrow> db \<Rightarrow> bool" where
  "drainable s start d \<longleftrightarrow> base_inv d \<and> exclusive d \<and> slots_positive d \<and>
     (\<exists>t. find_by ts_id s (time_slots d) = Some t \<and> start_at t = start)"

lemma holder_stale:
  assumes "drainable s start d" and "start \<le> c" and "holder_of d s \<noteq> None"
  shows "s \<in> slot_id ` set (stale_bookings c d)"
proof -
  have ok: "schema_ok d"
    using assms(1) base_inv_schema by (simp add: drainable_def)
  obtain b where "b \<in> set (confirmed_on s d)"
    using assms(3) by (cases "confirmed_on s d") (auto simp: holder_of_def simp del: mem_confirmed_on)
  then have b: "b \<in> set (bookings d)" "slot_id b = s" "status b = CONFIRMED"
    by simp_all
  have "start_at (slot_of d b) = start"
    using assms(1) b(2) by (auto simp: drainable_def slot_of_def)
  then have "is_stale c d b"
    using b(3) assms(2) by (simp add: is_stale_def)
  then show ?thesis
    using b(1,2) by (auto simp: stale_bookings_eq [OF ok] intro: rev_image_eqI)
qed

lemma expire_run_step:
  assumes "drainable s start d" and "run_ok cfg start run" and "holder_of d s \<noteq> None"
  shows "drainable s start (expire_run cfg run d) \<and>
    holder_of (expire_run cfg run d) s = next_holder (queue_of d s) \<and>
    queue_of (expire_run cfg run d) s = tl (queue_of d s)"
proof -
  have d: "base_inv d" "exclusive d" "slots_positive d"
    using assms(1) by (simp_all add: drainable_def)
  obtain e ep where run: "run = (e, ep)"
    by (cases run)
  have envs: "\<forall>i. generated_ok (ep i) \<and> no_faults (ep i)" and late: "start \<le> cutoff cfg (now e)"
    using assms(2) by (simp_all add: run_ok_def run)
  let ?d = "expire_run cfg run d"
  obtain d' where d': "get_db (expire_started_slots cfg e ep None) d
      = (Inr (int (length (stale_bookings (cutoff cfg (now e)) d))), d')" "base_inv d'" "exclusive d'"
    "holder_of d' = (\<lambda>u. if u \<in> slot_id ` set (stale_bookings (cutoff cfg (now e)) d)
      then next_holder (queue_of d u) else holder_of d u)"
    "queue_of d' = (\<lambda>u. if u \<in> slot_id ` set (stale_bookings (cutoff cfg (now e)) d)
      then tl (queue_of d u) else queue_of d u)"
    using expire_calendar [OF d envs, of "now e" e None] by auto
  then have "?d = d'"
    by (simp add: expire_run_def serve_expire_def run)
  moreover have starts: "slot_starts ?d = slot_starts d"
    using serve_expire_starts [OF d(1)] by (simp add: expire_run_def)
  then have "slots_positive ?d"
    using d(3) by (simp add: slots_positive_starts)
  moreover have "\<exists>t. find_by ts_id s (time_slots ?d) = Some t \<and> start_at t = start"
    using assms(1) slot_starts_find [OF starts, of s] by (auto simp: drainable_def)
  ultimately show ?thesis
    using d' holder_stale [OF assms(1) late assms(3)] by (simp add: drainable_def)
qed

section \<open>Until nobody waits\<close>

lemma expire_runs_drain:
  assumes "drainable s start d" and "holder_of d s \<noteq> None" and "\<forall>run \<in> set runs. run_ok cfg start run"
    and "length runs = Suc (length (queue_of d s))"
  shows "holder_of (fold (expire_run cfg) runs d) s = None \<and> queue_of (fold (expire_run cfg) runs d) s = []"
  using assms
proof (induction runs arbitrary: d)
  case Nil
  then show ?case by simp
next
  case (Cons run runs)
  have "run_ok cfg start run"
    using Cons.prems(3) by simp
  note step = expire_run_step [OF Cons.prems(1) this Cons.prems(2)]
  show ?case
  proof (cases "queue_of d s")
    case Nil
    then show ?thesis
      using step Cons.prems(4) by (simp add: next_holder_def)
  next
    case (Cons c q)
    then show ?thesis
      using step Cons.prems Cons.IH [of "expire_run cfg run d"] by (simp add: next_holder_def)
  qed
qed

end
