(* ===== verification/Wait_List_Properties.thy ===== *)
theory Wait_List_Properties
  imports Booking_Cancellation Expiry_Runs Scenario
begin

text \<open>
  The properties of the wait list, of cancellation and of the periodic tasks, with a concrete
  instance of each. Most are stated on holders and queues: \<open>holder_of\<close> and \<open>queue_of\<close>.
\<close>

section \<open>Facts of the concrete database\<close>

lemma demo_slot_two [simp]:
  "holder_of demo_db 2 = Some 1" "queue_of demo_db 2 = [2]" "holder_of demo_db 1 = None"
  "find_by b_id 1 (bookings demo_db) = Some (demo_booking 1 2 1 CONFIRMED)"
  by (simp_all add: holder_of_def confirmed_on_def queue_of_def slot_queue_def demo_defs)

lemma demo_slots_positive [simp]: "slots_positive demo_db"
  by (simp add: slots_positive_def demo_defs)

section \<open>The wait list\<close>

lemma get_db_join:
  assumes "schema_ok d" and "generated_ok e" and "client \<in> u_id ` set (users d)"
  shows "get_db (add_client_to_wait_list e slot client) d = join_ref e slot client d"
  by (simp add: get_db_def add_client_to_wait_list_open [OF assms])

lemma length_filter_card: "distinct xs \<Longrightarrow> length (filter P xs) = card {x \<in> set xs. P x}"
  by (metis distinct_card distinct_filter set_filter)

text \<open>Promoting a free slot gives it to the client at the head of its queue, who leaves the queue;
  with an empty queue nothing changes. No other holder or queue changes and bookings stay exclusive:
  the service implements \<open>holder := head queue; queue := tail queue\<close>.\<close>

theorem promotion_serves_queue_head:
  assumes "base_inv d" and "exclusive d" and "generated_ok e" and "no_faults e"
    and "holder_of d slot = None" and "slot \<noteq> 0"
  shows "\<exists>x d'. get_db (promote_next_wait_list_entry e slot) d = (Inr x, d') \<and> base_inv d' \<and> exclusive d' \<and>
    holder_of d' = (holder_of d)(slot := next_holder (queue_of d slot)) \<and>
    queue_of d' = (queue_of d)(slot := tl (queue_of d slot))"
  using promote_calendar [OF assms] get_db_open by blast

theorem promotion_serves_queue_head_witness:
  "\<exists>x d'. get_db (promote_next_wait_list_entry demo_env 1) demo_db = (Inr x, d') \<and>
     holder_of d' = (holder_of demo_db)(1 := next_holder (queue_of demo_db 1))"
  using promotion_serves_queue_head [of demo_db demo_env 1] by auto

text \<open>Joining a wait list returns and commits what the reference function says on every branch:
  unknown slot, free slot, own booking, already waiting (which the code learns from the unique
  constraint at commit), or a new entry.\<close>

theorem join_matches_reference:
  assumes "schema_ok d" and "generated_ok e" and "client \<in> u_id ` set (users d)"
  shows "get_db (add_client_to_wait_list e slot client) d = join_ref e slot client d"
  by (rule get_db_join [OF assms])

theorem join_matches_reference_witness:
  "get_db (add_client_to_wait_list demo_env 2 2) demo_db = (Inl (http 409 ALREADY_IN_WAIT_LIST_DETAIL), demo_db)"
proof -
  have "2 \<in> u_id ` set (users demo_db)"
    by simp
  from join_matches_reference [OF demo_schema_ok demo_generated_ok this, of 2]
  have "get_db (add_client_to_wait_list demo_env 2 2) demo_db = join_ref demo_env 2 2 demo_db" .
  moreover have "join_ref demo_env 2 2 demo_db = (Inl (http 409 ALREADY_IN_WAIT_LIST_DETAIL), demo_db)"
    by (simp add: join_ref_def has_confirmed_def queue_of_def slot_queue_def demo_defs)
  ultimately show ?thesis by simp
qed

text \<open>The wait list is first come, first served: when times of creation do not go backwards and
  ids grow, a client who joins is appended to the end of the queue of the slot, and no other queue
  and no holder changes.\<close>

theorem join_appends_to_queue:
  assumes "schema_ok d" and "generated_ok e" and "client \<in> u_id ` set (users d)"
    and "get_db (add_client_to_wait_list e slot client) d = (Inr w, d')"
    and "\<forall>v \<in> set (wait_list_entries d). queue_key v \<le> queue_key w"
  shows "holder_of d slot \<noteq> Some client \<and> client \<notin> set (queue_of d slot) \<and>
    queue_of d' = (queue_of d)(slot := queue_of d slot @ [client]) \<and> holder_of d' = holder_of d"
proof -
  have "join_ref e slot client d = (Inr w, d')"
    using assms(4) get_db_join [OF assms(1-3), of slot] by simp
  then have d': "d' = add_entry w d" and w: "w = new_entry e slot client d"
    and fresh: "client \<notin> set (queue_of d slot)" and mine: "\<not> has_confirmed slot client d"
    by (auto simp: join_ref_def Let_def split: option.splits if_splits)
  have "b \<in> set (bookings d) \<Longrightarrow> slot_id b = slot \<Longrightarrow> status b = CONFIRMED \<Longrightarrow> client_id b \<noteq> client" for b
    using mine by (auto simp: has_confirmed_def)
  then have "b \<in> set (confirmed_on slot d) \<Longrightarrow> client_id b \<noteq> client" for b
    by simp
  then have "holder_of d slot \<noteq> Some client"
    by (cases "confirmed_on slot d") (auto simp: holder_of_def simp del: mem_confirmed_on)
  then show ?thesis
    using queue_of_push [of d w] assms(5) fresh by (simp add: d' w del: queue_key_less_eq)
qed

theorem join_appends_to_queue_witness:
  "\<exists>w d'. get_db (add_client_to_wait_list demo_env 2 4) demo_db = (Inr w, d') \<and> queue_of d' 2 = [2, 4]"
proof -
  have "4 \<in> u_id ` set (users demo_db)"
    by simp
  note known = demo_schema_ok demo_generated_ok this
  let ?w = "new_entry demo_env 2 4 demo_db"
  have "join_ref demo_env 2 4 demo_db = (Inr ?w, add_entry ?w demo_db)"
    by (simp add: join_ref_def has_confirmed_def queue_of_def slot_queue_def demo_defs Let_def)
  then have call: "get_db (add_client_to_wait_list demo_env 2 4) demo_db = (Inr ?w, add_entry ?w demo_db)"
    using get_db_join [OF known, of 2] by simp
  have "\<forall>v \<in> set (wait_list_entries demo_db). queue_key v \<le> queue_key ?w"
    by (simp add: demo_defs new_entry_def)
  from join_appends_to_queue [OF known call this] call show ?thesis
    by simp
qed

section \<open>Cancelling\<close>

text \<open>Whatever statements fail in the promotion that follows, a cancellation returns and commits
  what the reference function says: refused without permission, nothing for a cancelled booking,
  otherwise the cancellation is committed first and stands even when the promotion raises.\<close>

theorem cancel_matches_reference:
  assumes "schema_ok d"
  shows "get_db (cancel_booking e i u) d = cancel_ref e i u d"
  using serve_cancel_eq [OF assms] by (simp add: serve_cancel_def)

theorem cancel_matches_reference_witness:
  "get_db (cancel_booking demo_env 7 (demo_user 1 ''a@x'' CLIENT)) demo_db
     = (Inl (http 404 ''Booking not found''), demo_db)"
  using cancel_matches_reference [OF demo_schema_ok, of demo_env 7 "demo_user 1 ''a@x'' CLIENT"]
  by (simp add: cancel_ref_def demo_defs)

text \<open>C23: Cancelling a confirmed booking takes its slot from its client and gives it to the first client
  waiting for it, if any, in one request; no other slot changes its holder or its queue.\<close>

theorem cancel_hands_slot_over:
  assumes "base_inv d" and "exclusive d" and "generated_ok e" and "no_faults e"
    and "find_by b_id i (bookings d) = Some b" and "status b = CONFIRMED"
    and "allowed_on u b (slot_of d b) d" and "slot_id b \<noteq> 0"
  shows "\<exists>d'. get_db (cancel_booking e i u) d = (Inr (booking_view (cancel (now e) b)), d') \<and>
    holder_of d (slot_id b) = Some (client_id b) \<and>
    holder_of d' = (holder_of d)(slot_id b := next_holder (queue_of d (slot_id b))) \<and>
    queue_of d' = (queue_of d)(slot_id b := tl (queue_of d (slot_id b)))"
  by (rule cancel_calendar [OF assms])

theorem cancel_hands_slot_over_witness:
  "\<exists>r d'. get_db (cancel_booking demo_env 1 (demo_user 1 ''a@x'' CLIENT)) demo_db = (Inr r, d') \<and>
     holder_of d' 2 = Some 2 \<and> queue_of d' 2 = []"
proof -
  let ?b = "demo_booking 1 2 1 CONFIRMED" and ?u = "demo_user 1 ''a@x'' CLIENT"
  have "status ?b = CONFIRMED" "slot_id ?b \<noteq> 0" "allowed_on ?u ?b (slot_of demo_db ?b) demo_db"
    by (simp_all add: demo_booking_def demo_user_def allowed_on_eq)
  from cancel_hands_slot_over [OF demo_base_inv demo_exclusive demo_generated_ok demo_no_faults
      demo_slot_two(4) this(1,3,2)]
  show ?thesis
    by (auto simp: next_holder_def demo_booking_def)
qed

section \<open>The expiry task\<close>

text \<open>C26: A run of the expiry task reports the number of confirmed bookings whose slots started before
  the cutoff, and passes each of these slots from its holder to the first client waiting for it;
  every other slot keeps its holder and its queue, and bookings stay exclusive.\<close>

theorem expiry_passes_slots_on:
  assumes "base_inv d" and "exclusive d" and "slots_positive d"
    and "\<forall>i. generated_ok (ep i) \<and> no_faults (ep i)"
    and "t = (case arg of None \<Rightarrow> now e | Some u \<Rightarrow> u)"
    and "stale = stale_bookings (cutoff cfg t) d"
  shows "\<exists>d'. get_db (expire_started_slots cfg e ep arg) d = (Inr (int (length stale)), d') \<and>
    base_inv d' \<and> exclusive d' \<and>
    holder_of d' = (\<lambda>s. if s \<in> slot_id ` set stale then next_holder (queue_of d s) else holder_of d s) \<and>
    queue_of d' = (\<lambda>s. if s \<in> slot_id ` set stale then tl (queue_of d s) else queue_of d s)"
  by (rule expire_calendar [OF assms])

theorem expiry_passes_slots_on_witness:
  "\<exists>d'. get_db (expire_started_slots default_settings demo_env (\<lambda>_. demo_env) (Some 250)) demo_db
     = (Inr 1, d') \<and> holder_of d' 2 = Some 2"
proof -
  have stale: "stale_bookings (cutoff default_settings 250) demo_db = [demo_booking 1 2 1 CONFIRMED]"
    by (simp add: stale_bookings_def booking_slot_join_def default_settings_def minutes_def demo_defs)
  from expiry_passes_slots_on [OF demo_base_inv demo_exclusive demo_slots_positive, of "\<lambda>_. demo_env" 250
      demo_env "Some 250" "[demo_booking 1 2 1 CONFIRMED]" default_settings]
  show ?thesis
    by (auto simp: stale next_holder_def demo_booking_def)
qed

text \<open>No wait list of a held slot that has started is served for ever: with n clients waiting, after
  n + 1 runs of the task, whatever their times, nobody holds the slot and nobody waits for it.\<close>

theorem expiry_drains_queue:
  assumes "base_inv d" and "exclusive d" and "slots_positive d"
    and "find_by ts_id s (time_slots d) = Some t" and "holder_of d s \<noteq> None"
    and "\<forall>run \<in> set runs. run_ok cfg (start_at t) run"
    and "length runs = Suc (length (queue_of d s))"
  shows "holder_of (fold (expire_run cfg) runs d) s = None \<and> queue_of (fold (expire_run cfg) runs d) s = []"
proof -
  have "drainable s (start_at t) d"
    using assms(1-4) by (simp add: drainable_def)
  then show ?thesis
    by (rule expire_runs_drain [OF _ assms(5-7)])
qed

theorem expiry_drains_queue_witness:
  "holder_of (fold (expire_run default_settings)
     [(demo_env, \<lambda>_. demo_env), (demo_env, \<lambda>_. demo_env)] demo_db) 2 = None"
proof -
  let ?runs = "[(demo_env, \<lambda>_. demo_env), (demo_env, \<lambda>_. demo_env)] :: (env \<times> (int \<Rightarrow> env)) list"
  have "find_by ts_id 2 (time_slots demo_db) = Some (demo_slot 2 200 300 True)"
    by (simp add: demo_defs)
  moreover have "holder_of demo_db 2 \<noteq> None"
    by simp
  moreover have "\<forall>run \<in> set ?runs. run_ok default_settings (start_at (demo_slot 2 200 300 True)) run"
    by (simp add: run_ok_def default_settings_def minutes_def demo_slot_def) (simp add: demo_env_def)
  moreover have "length ?runs = Suc (length (queue_of demo_db 2))"
    by simp
  ultimately show ?thesis
    using expiry_drains_queue [OF demo_base_inv demo_exclusive demo_slots_positive] by blast
qed

text \<open>The reminder task counts the confirmed bookings whose slot starts now or later and before the
  end of the lookahead, each of them once, and changes nothing.\<close>

theorem reminder_counts_window:
  assumes "schema_ok d"
  shows "remind_upcoming_bookings_task cfg e d = [(''to_remind'', int (card {b \<in> set (bookings d).
    status b = CONFIRMED \<and> now e \<le> start_at (slot_of d b) \<and>
    start_at (slot_of d b) < now e + minutes (reminder_lookahead_minutes cfg)}))]"
proof -
  have "distinct (bookings d)"
    using schema_ok_distinct(7) [OF assms] by (simp add: distinct_map)
  then show ?thesis
    by (simp add: remind_upcoming_bookings_task_def count_upcoming_bookings_for_reminder_def Let_def
        booking_slot_join_eq [OF assms] filter_map comp_def length_filter_card)
qed

theorem reminder_counts_window_witness:
  "remind_upcoming_bookings_task default_settings (demo_env\<lparr>now := 150\<rparr>) demo_db = [(''to_remind'', 1)]"
proof -
  have "{b \<in> set (bookings demo_db). status b = CONFIRMED \<and> now (demo_env\<lparr>now := 150\<rparr>) \<le> start_at (slot_of demo_db b) \<and>
      start_at (slot_of demo_db b) < now (demo_env\<lparr>now := 150\<rparr>) + minutes (reminder_lookahead_minutes default_settings)}
    = {demo_booking 1 2 1 CONFIRMED}"
    by (auto simp: slot_of_def demo_defs minutes_def default_settings_def)
  then show ?thesis
    using reminder_counts_window [OF demo_schema_ok, of default_settings "demo_env\<lparr>now := 150\<rparr>"] by simp
qed

end
