(* ===== verification/Api_Properties.thy ===== *)
theory Api_Properties
  imports Bookings_Handlers Availability Scenario
begin

text \<open>
  The properties of the bookings and specialists routers, with a concrete instance of each.
\<close>

section \<open>Booking over the API\<close>

text \<open>The booking endpoint refuses specialists, then an empty or too long idempotency key, and
  otherwise returns and commits what the reference function of the service says for the trimmed
  key.\<close>

theorem book_endpoint_matches_reference:
  assumes "schema_ok d" and "generated_ok e" and "no_faults e" and "u_id u \<in> u_id ` set (users d)"
  shows "get_db (create_booking e slot header u) d =
    (if role u = SPECIALIST then (Inl (http 403 ''Not enough permissions''), d)
     else case normalize_key header of
            Inl err \<Rightarrow> (Inl err, d)
          | Inr key \<Rightarrow>
            (case create_booking_ref e slot (u_id u) key d of
               (Inl err, d') \<Rightarrow> (Inl err, d') | (Inr b, d') \<Rightarrow> (Inr (booking_view b), d')))"
proof (cases "role u = SPECIALIST")
  case True
  then show ?thesis
    by (simp add: get_db_def create_booking_def require_roles_eq)
next
  case False
  then have "require_roles [CLIENT, ADMIN] u = Inr u"
    by (cases "role u") (simp_all add: require_roles_eq)
  moreover have "get_db (create_booking_for_slot e slot (u_id u) key) d = create_booking_ref e slot (u_id u) key d"
    if "normalize_key header = Inr key" for key
    using get_db_create [OF assms normalize_key_cases [OF that]] .
  ultimately show ?thesis
    using False by (auto simp: get_db_def create_booking_def split: sum.split prod.splits)
qed

theorem book_endpoint_matches_reference_witness:
  "get_db (create_booking demo_env 1 (Some ''  '') (demo_user 1 ''a@x'' CLIENT)) demo_db
     = (Inl (http 400 ''Idempotency-Key header must not be empty''), demo_db)"
proof -
  have "u_id (demo_user 1 ''a@x'' CLIENT) \<in> u_id ` set (users demo_db)"
    by (simp add: demo_user_def)
  from book_endpoint_matches_reference [OF demo_schema_ok demo_generated_ok demo_no_faults this, of 1 "Some ''  ''"]
  show ?thesis
    by (simp add: demo_user_def normalize_key_def py_strip_def py_isspace_def)
qed

text \<open>Retrying a successful booking request returns the same response and changes nothing, also when
  the idempotency key comes back with other white space around it.\<close>

theorem book_endpoint_retry_idempotent:
  assumes "schema_ok d" and "get_db (create_booking e slot (Some raw) u) d = (Inr r, d')"
    and "py_strip raw' = py_strip raw" and "fault e' Select_Idempotency = None"
  shows "get_db (create_booking e' slot (Some raw') u) d' = (Inr r, d')"
proof -
  have role: "require_roles [CLIENT, ADMIN] u = Inr u"
    using assms(2) by (auto simp: get_db_def create_booking_def require_roles_eq split: if_splits)
  have key: "normalize_key (Some raw) = Inr (Some (py_strip raw))" "py_strip raw \<noteq> []"
    using assms(2) by (auto simp: get_db_def create_booking_def role normalize_key_def Let_def split: if_splits)
  then have key': "normalize_key (Some raw') = Inr (Some (py_strip raw))"
    using assms(3) by (simp add: normalize_key_def)
  obtain b s' where call: "create_booking_for_slot e slot (u_id u) (Some (py_strip raw)) (open_session d) = (Inr b, s')"
    and r: "r = booking_view b" "d' = committed s'"
    using assms(2) by (auto simp: get_db_def create_booking_def role key(1) split: prod.splits sum.splits)
  show ?thesis
    using create_booking_retry [OF assms(1) key(2) call assms(4)]
    by (simp add: get_db_def create_booking_def role key' r)
qed

theorem book_endpoint_retry_idempotent_witness:
  "\<exists>r d'. get_db (create_booking demo_env 1 (Some ''k'') (demo_user 2 ''b@x'' CLIENT)) demo_db = (Inr r, d') \<and>
     get_db (create_booking demo_env 1 (Some '' k '') (demo_user 2 ''b@x'' CLIENT)) d' = (Inr r, d')"
proof -
  let ?u = "demo_user 2 ''b@x'' CLIENT"
  have strip: "py_strip '' k '' = py_strip ''k''" "normalize_key (Some ''k'') = Inr (Some ''k'')"
    by (simp_all add: normalize_key_def py_strip_def py_isspace_def)
  have "get_db (create_booking_for_slot demo_env 1 2 (Some ''k'')) demo_db = create_booking_ref demo_env 1 2 (Some ''k'') demo_db"
    by (rule get_db_create) simp_all
  moreover have "is_ok (fst (create_booking_ref demo_env 1 2 (Some ''k'') demo_db))"
    by (simp add: create_booking_ref_def replay_def existing_outcome_def
        get_booking_by_idempotency_key_def demo_db_def demo_slot_def demo_booking_def Let_def)
  ultimately have "is_ok (fst (create_booking_for_slot demo_env 1 2 (Some ''k'') (open_session demo_db)))"
    by (metis fst_conv get_db_result surj_pair)
  then obtain b s' where "create_booking_for_slot demo_env 1 2 (Some ''k'') (open_session demo_db) = (Inr b, s')"
    by (metis is_ok_E prod.collapse)
  then have call: "get_db (create_booking demo_env 1 (Some ''k'') ?u) demo_db = (Inr (booking_view b), committed s')"
    by (simp add: get_db_def create_booking_def require_roles_eq strip demo_user_def)
  have "fault demo_env Select_Idempotency = None"
    by (simp add: demo_env_def)
  from book_endpoint_retry_idempotent [OF demo_schema_ok call strip(1) this] call show ?thesis
    by blast
qed

section \<open>Reading bookings\<close>

text \<open>Reading the pages of the own bookings one after the other gives exactly the client's bookings
  with the status asked for whose slots start on or after the day given, each once, ordered by id.\<close>

theorem my_bookings_pages_cover:
  assumes "schema_ok d" and "limit_param l"
    and "rows = filter (\<lambda>b. client_id b = u_id u \<and> in_listing st date_from None b (slot_of d b)) (bookings d)"
    and "length rows \<le> n * nat l"
  shows "concat (map (\<lambda>k. projr (list_my_bookings st date_from None l (int k * l) u d)) [0..<n])
    = map booking_view (sort_key b_id rows)"
proof -
  have "0 < l"
    using assms(2) by (simp add: limit_param_def)
  have "concat (map (\<lambda>k. projr (list_my_bookings st date_from None l (int k * l) u d)) [0..<n])
      = map booking_view (concat (map (\<lambda>k. page l (int k * l) (sort_key b_id rows)) [0..<n]))"
    by (simp add: list_my_bookings_eq [OF assms(1)] assms(3) map_concat comp_def)
  then show ?thesis
    using assms(4) by (simp add: page_concat [OF \<open>0 < l\<close>])
qed

theorem my_bookings_pages_cover_witness:
  "concat (map (\<lambda>k. projr (list_my_bookings None None None 1 (int k * 1) (demo_user 1 ''a@x'' CLIENT) demo_db)) [0..<2])
     = [booking_view (demo_booking 1 2 1 CONFIRMED)]"
proof -
  have rows: "filter (\<lambda>b. client_id b = u_id (demo_user 1 ''a@x'' CLIENT) \<and> in_listing None None None b (slot_of demo_db b))
      (bookings demo_db) = [demo_booking 1 2 1 CONFIRMED]"
    by (simp add: in_listing_def demo_defs)
  show ?thesis
    using my_bookings_pages_cover [OF demo_schema_ok, of 1 "[demo_booking 1 2 1 CONFIRMED]" "demo_user 1 ''a@x'' CLIENT" None None 2]
      rows by (simp add: limit_param_def)
qed

text \<open>A booking can be read by exactly the users who may change it: its client, the specialist of its
  slot and the admins. Everyone else gets a 403 from reading, cancelling and moving it, and nothing
  changes.\<close>

theorem booking_access_control:
  assumes "schema_ok d" and "find_by b_id i (bookings d) = Some b"
  shows "get_booking_by_id i u d = (if allowed_on u b (slot_of d b) d then Inr (booking_view b)
      else Inl (http 403 ''Not enough permissions''))
    \<and> (\<not> allowed_on u b (slot_of d b) d \<longrightarrow>
       get_db (cancel_booking e i u) d = (Inl (http 403 ''Not enough permissions''), d) \<and>
       get_db (reschedule_existing_booking e i n u) d = (Inl (http 403 ''Not enough permissions''), d))"
proof -
  have mem: "b \<in> set (bookings d)"
    using find_by_SomeD [OF assms(2)] by simp
  note slot = slot_of_mem(1) [OF assms(1) mem]
  show ?thesis
    using assms(2) slot
    by (simp add: get_booking_by_id_eq [OF assms(1)] may_read_allowed [OF assms(1) mem] get_db_def
        cancel_booking_def reschedule_existing_booking_def)
qed

theorem booking_access_control_witness:
  "get_booking_by_id 1 (demo_user 2 ''b@x'' CLIENT) demo_db = Inl (http 403 ''Not enough permissions'')"
proof -
  have "find_by b_id 1 (bookings demo_db) = Some (demo_booking 1 2 1 CONFIRMED)"
    by (simp add: demo_defs)
  from booking_access_control [OF demo_schema_ok this, of "demo_user 2 ''b@x'' CLIENT" demo_env 3]
  show ?thesis
    by (simp add: allowed_on_eq slot_of_def demo_defs)
qed

text \<open>Leaving a wait list removes exactly that client from exactly that queue; only the client or an
  admin may do it, and no holder changes.\<close>

theorem leave_removes_from_queue:
  assumes "schema_ok d" and "find_by w_id i (wait_list_entries d) = Some w"
  shows "if role u = ADMIN \<or> w_client_id w = u_id u
    then \<exists>d'. get_db (leave_wait_list i u) d = (Inr (), d') \<and> holder_of d' = holder_of d \<and>
      queue_of d' = (queue_of d)(w_slot_id w := filter (\<lambda>c. c \<noteq> w_client_id w) (queue_of d (w_slot_id w)))
    else get_db (leave_wait_list i u) d = (Inl (http 403 ''Not enough permissions''), d)"
proof -
  have w: "w \<in> set (wait_list_entries d)" "w_id w = i"
    using find_by_SomeD [OF assms(2)] by simp_all
  have same: "w_id v = i \<longleftrightarrow> w_slot_id v = w_slot_id w \<and> w_client_id v = w_client_id w"
    if "v \<in> set (wait_list_entries d)" for v
    using distinct_key_eq [OF schema_ok_distinct(9) [OF assms(1)] that w(1)]
      distinct_key_eq [OF schema_ok_distinct(10) [OF assms(1)] that w(1)] w(2) by auto
  have "queue_of (remove_entry i d) s
      = ((queue_of d)(w_slot_id w := filter (\<lambda>c. c \<noteq> w_client_id w) (queue_of d (w_slot_id w)))) s" for s
  proof -
    have "filter (\<lambda>v. w_id v \<noteq> i) (slot_queue s d)
        = filter (\<lambda>v. s = w_slot_id w \<longrightarrow> w_client_id v \<noteq> w_client_id w) (slot_queue s d)"
      by (rule filter_cong [OF refl]) (use same in auto)
    then show ?thesis
      by (auto simp: queue_of_def slot_queue_remove filter_map comp_def)
  qed
  then have "queue_of (remove_entry i d)
      = (queue_of d)(w_slot_id w := filter (\<lambda>c. c \<noteq> w_client_id w) (queue_of d (w_slot_id w)))"
    by (rule ext)
  then show ?thesis
    using assms w(2) schema_ok_remove_entry [OF assms(1), of i]
    by (auto simp: get_db_def leave_wait_list_def commit_ok Let_def simp del: role_value.simps)
qed

theorem leave_removes_from_queue_witness:
  "\<exists>d'. get_db (leave_wait_list 1 (demo_user 2 ''b@x'' CLIENT)) demo_db = (Inr (), d') \<and> queue_of d' 2 = []"
proof -
  let ?w = "hd (wait_list_entries demo_db)"
  have "find_by w_id 1 (wait_list_entries demo_db) = Some ?w"
    and "w_slot_id ?w = 2" "w_client_id ?w = 2" "u_id (demo_user 2 ''b@x'' CLIENT) = 2" "queue_of demo_db 2 = [2]"
    by (simp_all add: demo_defs queue_of_def slot_queue_def)
  then show ?thesis
    using leave_removes_from_queue [OF demo_schema_ok, of 1 ?w "demo_user 2 ''b@x'' CLIENT"] by auto
qed

end
