(* ===== verification/Specialist_Properties.thy ===== *)
theory Specialist_Properties
  imports Availability Scenario
begin

text \<open>
  The properties of the specialists router, with a concrete instance of each: slots do not
  overlap, what can be deleted, how a profile comes to be, and what the availability counts.
\<close>

section \<open>Slots\<close>

lemma get_or_create_known:
  assumes "find_by sp_user_id (u_id u) (specialist_profiles (current s)) = Some p"
  shows "get_or_create_specialist_profile e u s = (Inr p, s)"
  using assms by (simp add: get_or_create_specialist_profile_def)

text \<open>A specialist with a profile who opens a slot gets a 409 exactly when an existing slot of the
  specialist, free or booked, shares a moment with it; touching intervals do not. Otherwise the free
  slot is added and the specialist's slots still do not overlap.\<close>

theorem open_slot_exact:
  assumes "base_inv d" and "generated_ok e" and "role u \<in> {SPECIALIST, ADMIN}"
    and "find_by sp_user_id (u_id u) (specialist_profiles d) = Some p"
    and "rq_start_at payload < rq_end_at payload"
    and "t = new_slot e (sp_id p) payload d"
  shows "serve_add_slot e (payload, u) d =
    (if \<exists>v \<in> set (time_slots d). overlaps v t
     then (Inl (http 409 ''Time slot overlaps with existing slot''), d)
     else (Inr (slot_view t), add_slot t d))
    \<and> slots_disjoint (snd (serve_add_slot e (payload, u) d))"
proof -
  note ok = base_inv_schema [OF assms(1)]
  have mem: "sp_id p \<in> sp_id ` set (specialist_profiles d)"
    using find_by_SomeD [OF assms(4)] by simp
  have fresh: "ts_id t \<notin> ts_id ` set (time_slots d)"
    using generated_fresh [OF assms(2), of Time_Slots "map ts_id (time_slots d)"] by (simp add: assms(6))
  have "schema_ok (add_slot t d)"
    using ok mem fresh by (auto simp: schema_defs list_all_iff assms(6))
  moreover have "overlap_found (sp_id p) payload d \<longleftrightarrow> (\<exists>v \<in> set (time_slots d). overlaps v t)"
    by (auto simp: overlap_found_def overlaps_def assms(6))
  moreover have "get_or_create_specialist_profile e u (open_session d) = (Inr p, open_session d)"
    using assms(4) by (intro get_or_create_known) simp
  ultimately have "serve_add_slot e (payload, u) d =
    (if \<exists>v \<in> set (time_slots d). overlaps v t
     then (Inl (http 409 ''Time slot overlaps with existing slot''), d)
     else (Inr (slot_view t), add_slot t d))"
    using assms(3,5,6)
    by (auto simp: serve_add_slot_def validate_interval_def get_db_def create_slot_for_me_def
        require_roles_eq commit_def modify_def Let_def simp del: holds_for_iff)
  moreover have "slots_disjoint (snd (serve_add_slot e (payload, u) d))"
    using add_slot.keeps_base [OF assms(1), of e "(payload, u)"] by (simp add: base_inv_def)
  ultimately show ?thesis by blast
qed

theorem open_slot_exact_witness:
  "serve_add_slot demo_env (\<lparr>rq_start_at = 250, rq_end_at = 350\<rparr>, demo_user 3 ''s@x'' SPECIALIST) demo_db
     = (Inl (http 409 ''Time slot overlaps with existing slot''), demo_db)"
proof -
  let ?u = "demo_user 3 ''s@x'' SPECIALIST" and ?p = "hd (specialist_profiles demo_db)"
  let ?r = "\<lparr>rq_start_at = 250, rq_end_at = 350\<rparr> :: slot_create_request"
  have "role ?u \<in> {SPECIALIST, ADMIN}" "find_by sp_user_id (u_id ?u) (specialist_profiles demo_db) = Some ?p"
    "rq_start_at ?r < rq_end_at ?r"
    by (simp_all add: demo_defs)
  from open_slot_exact [OF demo_base_inv demo_generated_ok this refl]
  show ?thesis
    by (simp add: demo_db_def demo_slot_def overlaps_def)
qed

text \<open>A specialist deletes an own free slot exactly when it was never booked. A free slot with an old
  booking, cancelled or expired, passes the handler's checks and the commit raises an
  \<open>IntegrityError\<close> that nothing handles: the request ends as an internal error, nothing is deleted.\<close>

theorem delete_slot_exact:
  assumes "schema_ok d" and "role u \<in> {SPECIALIST, ADMIN}"
    and "find_by sp_user_id (u_id u) (specialist_profiles d) = Some p"
    and "find_by ts_id slot (time_slots d) = Some t" and "specialist_id t = sp_id p" and "\<not> is_booked t"
  shows "get_db (delete_slot_for_me slot u) d =
    (if slot \<in> slot_id ` set (bookings d) then (Inl IntegrityError, d) else (Inr (), remove_slot slot d))"
proof -
  have t: "t \<in> set (time_slots d)" "ts_id t = slot"
    using find_by_SomeD [OF assms(4)] by simp_all
  obtain t' where t': "find (\<lambda>v. ts_id v = slot \<and> specialist_id v = sp_id p) (time_slots d) = Some t'"
    using t assms(5) by (metis (mono_tags, lifting) find_None_iff not_Some_eq)
  then have "t' \<in> set (time_slots d)" "ts_id t' = slot"
    by (auto simp: find_Some_iff)
  then have "t' = t"
    using t distinct_key_eq [OF schema_ok_distinct(6) [OF assms(1)]] by blast
  then show ?thesis
    using assms(2,3,6) t' t(2) schema_ok_remove_slot [OF assms(1), of slot]
    by (auto simp: get_db_def delete_slot_for_me_def require_roles_eq commit_def modify_def Let_def)
qed

theorem delete_slot_exact_witness:
  "get_db (delete_slot_for_me 1 (demo_user 3 ''s@x'' SPECIALIST))
     (demo_db\<lparr>bookings := [demo_booking 1 2 1 CONFIRMED, demo_booking 2 1 1 CANCELLED]\<rparr>)
   = (Inl IntegrityError, demo_db\<lparr>bookings := [demo_booking 1 2 1 CONFIRMED, demo_booking 2 1 1 CANCELLED]\<rparr>)"
proof -
  let ?d = "demo_db\<lparr>bookings := [demo_booking 1 2 1 CONFIRMED, demo_booking 2 1 1 CANCELLED]\<rparr>"
  let ?u = "demo_user 3 ''s@x'' SPECIALIST" and ?p = "hd (specialist_profiles demo_db)"
  have "schema_ok ?d" "role ?u \<in> {SPECIALIST, ADMIN}"
    "find_by sp_user_id (u_id ?u) (specialist_profiles ?d) = Some ?p"
    "find_by ts_id 1 (time_slots ?d) = Some (demo_slot 1 100 200 False)"
    "specialist_id (demo_slot 1 100 200 False) = sp_id ?p" "\<not> is_booked (demo_slot 1 100 200 False)"
    by (simp_all add: schema_defs demo_defs)
  from delete_slot_exact [OF this] show ?thesis
    by (simp add: demo_booking_def)
qed

section \<open>Profiles\<close>

text \<open>A service that is created belongs to the one profile of its specialist: the profile the user
  had, or a new one named by the part of the address before the \<open>@\<close>, stored with the service in one
  transaction.\<close>

theorem service_has_one_profile:
  assumes "schema_ok d" and "get_db (create_service_for_me e payload u) d = (Inr r, d')"
  shows "schema_ok d' \<and> (\<exists>p. filter (\<lambda>p. sp_user_id p = u_id u) (specialist_profiles d') = [p] \<and>
    vr_specialist_id r = sp_id p \<and>
    (find_by sp_user_id (u_id u) (specialist_profiles d) = None \<longrightarrow>
       display_name p = py_split_first CHR ''@'' (email u)) \<and>
    (\<forall>q. find_by sp_user_id (u_id u) (specialist_profiles d) = Some q \<longrightarrow> p = q))"
proof -
  have role: "require_roles [SPECIALIST, ADMIN] u = Inr u"
    using assms(2) by (auto simp: get_db_def create_service_for_me_def require_roles_eq split: if_splits)
  obtain r1 s where call: "get_or_create_specialist_profile e u (open_session d) = (r1, s)"
    by (cases "get_or_create_specialist_profile e u (open_session d)") auto
  let ?d = "with_profile e u d"
  obtain p where p: "r1 = Inr p" "s = \<lparr>committed = d, current = ?d\<rparr>"
    "find_by sp_user_id (u_id u) (specialist_profiles ?d) = Some p"
    using get_or_create_cases [OF call assms(1)] assms(2) call
    by (auto simp: get_db_def create_service_for_me_def role)
  let ?v = "new_service e (sp_id p) payload ?d"
  have ok: "schema_ok (add_service ?v ?d)" and d': "d' = add_service ?v ?d" and r: "r = service_view ?v"
    using assms(2) call p(1,2)
    by (auto simp: get_db_def create_service_for_me_def role commit_def modify_def Let_def split: if_splits)
  have mem: "u_id u \<in> sp_user_id ` set (specialist_profiles d')"
    using find_by_SomeD [OF p(3)] by (simp add: d') (metis imageI)
  have "distinct (map sp_user_id (specialist_profiles d'))"
    using schema_ok_distinct(4) [OF ok] by (simp add: d')
  from filter_key_one [OF this mem]
  have "filter (\<lambda>p. sp_user_id p = u_id u) (specialist_profiles d') = [p]"
    using p(3) by (simp add: d')
  then show ?thesis
    using ok p(3) by (auto simp: d' r service_view_def new_service_def Let_def with_profile_def
        find_by_append split: option.splits)
qed

theorem service_has_one_profile_witness:
  "\<exists>r d'. get_db (create_service_for_me demo_env \<lparr>rq_title = ''cut'', rq_description = None,
       rq_duration_minutes = 30, rq_price = 1000\<rparr> (demo_user 4 ''r@x'' ADMIN)) demo_db = (Inr r, d') \<and>
     (\<exists>p. filter (\<lambda>p. sp_user_id p = 4) (specialist_profiles d') = [p] \<and> display_name p = ''r'')"
proof -
  let ?r = "\<lparr>rq_title = ''cut'', rq_description = None, rq_duration_minutes = 30, rq_price = 1000\<rparr>
    :: service_create_request"
  let ?u = "demo_user 4 ''r@x'' ADMIN"
  have "is_ok (fst (get_db (create_service_for_me demo_env ?r ?u) demo_db))"
    by code_simp
  then obtain r d' where call: "get_db (create_service_for_me demo_env ?r ?u) demo_db = (Inr r, d')"
    by (metis is_ok_E prod.collapse)
  have "find_by sp_user_id (u_id ?u) (specialist_profiles demo_db) = None" "u_id ?u = 4"
    "py_split_first CHR ''@'' (email ?u) = ''r''"
    by (simp_all add: demo_defs py_split_first_def)
  then show ?thesis
    using call service_has_one_profile [OF demo_schema_ok call] by auto
qed

section \<open>Availability\<close>

text \<open>C35: The availability of a specialist lists every day of the window in order, with the number of the
  specialist's slots that start on that day in UTC, and how many of them are free and booked, which add
  up; a window that ends after 9999-12-31 raises an unhandled \<open>OverflowError\<close>.\<close>

theorem availability_exact:
  assumes "find_by sp_id s (specialist_profiles d) = Some p"
    and "a = (case date_from of None \<Rightarrow> now e div day_length | Some day \<Rightarrow> day)"
  shows "get_specialist_availability e s date_from n d =
      (if date_max < a + n then Inl OverflowError
       else Inr (map (availability_day d s) (upto a (a + n - 1))))
    \<and> ar_total_slots (availability_day d s k)
      = ar_free_slots (availability_day d s k) + ar_booked_slots (availability_day d s k)"
  using availability_eq [OF assms] availability_day_total by blast

theorem availability_exact_witness:
  "get_specialist_availability demo_env 1 (Some 0) 2 demo_db
     = Inr [\<lparr>ar_date = 0, ar_total_slots = 3, ar_free_slots = 2, ar_booked_slots = 1\<rparr>,
            \<lparr>ar_date = 1, ar_total_slots = 0, ar_free_slots = 0, ar_booked_slots = 0\<rparr>]"
proof -
  have "find_by sp_id 1 (specialist_profiles demo_db) = Some (hd (specialist_profiles demo_db))"
    by (simp add: demo_db_def)
  then have "get_specialist_availability demo_env 1 (Some 0) 2 demo_db
      = Inr (map (availability_day demo_db 1) (upto 0 1))"
    using availability_exact [of 1 demo_db "hd (specialist_profiles demo_db)" 0 demo_env "Some 0" 2]
    by (simp add: date_max_def)
  moreover have "upto 0 1 = [0, 1 :: int]"
    by code_simp
  ultimately show ?thesis
    by (simp add: availability_day_def slots_on_def day_length_def demo_db_def demo_slot_def)
qed

end
