(* ===== verification/Access_Properties.thy ===== *)
theory Access_Properties
  imports Auth_Api Scenario
begin

text \<open>
  The properties of accounts, tokens and the rate limiter, with a concrete instance of each. The
  hypotheses on the libraries are \<open>jwt_ok\<close> and \<open>passwords_ok\<close>; the instance is \<open>plain_crypto\<close>.
\<close>

section \<open>Accounts\<close>

text \<open>Registering an address that is taken, in whatever case it is written, is a 409 that changes
  nothing; any other address makes an active account with the address in lower case. The check before
  the insert and the unique constraint together are one test.\<close>

theorem register_matches_reference:
  assumes "schema_ok d" and "generated_ok e"
  shows "get_db (register_user c e payload) d = register_ref c e payload d \<and>
    (\<forall>u d'. register_ref c e payload d = (Inr u, d') \<longrightarrow>
       (\<forall>payload'. py_lower (rq_email payload') = py_lower (rq_email payload) \<longrightarrow>
          register_ref c e payload' d' = (Inl EMAIL_EXISTS, d')))"
proof -
  have "get_db (register_user c e payload) d = register_ref c e payload d"
    by (simp add: get_db_def register_open [OF assms])
  then show ?thesis
    by (auto simp: register_ref_def split: if_splits)
qed

theorem register_matches_reference_witness:
  "get_db (register_user plain_crypto demo_env \<lparr>rq_email = ''A@X'', rq_password = ''secret99'', rq_role = CLIENT\<rparr>) demo_db
     = (Inl EMAIL_EXISTS, demo_db)"
proof -
  let ?r = "\<lparr>rq_email = ''A@X'', rq_password = ''secret99'', rq_role = CLIENT\<rparr> :: register_request"
  have "py_lower ''A@X'' = ''a@x''"
    by code_simp
  then show ?thesis
    using register_matches_reference [OF demo_schema_ok demo_generated_ok, of plain_crypto ?r]
    by (simp add: register_ref_def demo_defs)
qed

text \<open>C29: Registration, login and authentication fit together: after a user has registered, logging in
  with the password and the address in any case gives a token which, while it has not expired, any
  later request is authenticated with as exactly that user.\<close>

theorem login_token_authenticates:
  assumes "jwt_ok c" and "passwords_ok c" and "schema_ok d"
    and "get_db (register_user c e0 payload) d = (Inr u, d')"
    and "py_lower (lq_email credentials) = py_lower (rq_email payload)"
    and "lq_password credentials = rq_password payload"
    and "now e' \<le> now e + minutes (access_token_expire_minutes cfg)"
  shows "\<exists>r. get_db (login_user c cfg e credentials) d' = (Inr r, d') \<and> token_type r = ''bearer'' \<and>
    get_db (get_current_user c cfg e' (access_token r)) d' = (Inr u, d')"
proof -
  have reg: "serve_register c e0 payload d = (Inr u, d')"
    using assms(4) by (simp add: serve_register_def)
  have new: "d' = add_user (new_user c e0 payload d) d" "schema_ok d'" "u = new_user c e0 payload d"
    using assms(4)
    by (auto simp: get_db_def register_user_def commit_def Let_def split: option.splits if_splits prod.splits)
  have mem: "u \<in> set (users d')"
    using new by simp
  have byid: "find_by u_id (u_id u) (users d') = Some u"
    using mem find_by_distinct [OF schema_ok_distinct(1) [OF new(2)]] by blast
  have "email u = py_lower (lq_email credentials)"
    using new(3) assms(5) by simp
  then have bymail: "find_by email (py_lower (lq_email credentials)) (users d') = Some u"
    using mem find_by_distinct [OF schema_ok_distinct(2) [OF new(2)]] by blast
  have pw: "pwd_verify c (lq_password credentials) (hashed_password u) = Inr True"
    using assms(2,6) new(3) by (simp add: passwords_ok_def)
  from login_known [of credentials "open_session d'" u c cfg e] bymail pw
  obtain r where login: "login_user c cfg e credentials (open_session d') = (Inr r, open_session d')"
    "token_type r = ''bearer''"
    by simp
  have "is_active u"
    using new(3) by simp
  from login_current_user [OF assms(1,7) _ this login(1), of "open_session d'"] byid bymail
  have "get_current_user c cfg e' (access_token r) (open_session d') = (Inr u, open_session d')"
    by simp
  then show ?thesis
    using login by (auto simp: get_db_def)
qed

theorem login_token_authenticates_witness:
  "\<exists>u d' r. get_db (register_user plain_crypto demo_env
       \<lparr>rq_email = ''New@x'', rq_password = ''secret99'', rq_role = CLIENT\<rparr>) demo_db = (Inr u, d') \<and>
     get_db (login_user plain_crypto default_settings demo_env
       \<lparr>lq_email = ''NEW@x'', lq_password = ''secret99''\<rparr>) d' = (Inr r, d') \<and>
     get_db (get_current_user plain_crypto default_settings (demo_env\<lparr>now := 2000\<rparr>) (access_token r)) d' = (Inr u, d')"
proof -
  let ?p = "\<lparr>rq_email = ''New@x'', rq_password = ''secret99'', rq_role = CLIENT\<rparr> :: register_request"
  let ?q = "\<lparr>lq_email = ''NEW@x'', lq_password = ''secret99''\<rparr> :: login_request"
  have "is_ok (fst (get_db (register_user plain_crypto demo_env ?p) demo_db))"
    by code_simp
  then obtain u d' where reg: "get_db (register_user plain_crypto demo_env ?p) demo_db = (Inr u, d')"
    by (metis is_ok_E prod.collapse)
  have "py_lower (lq_email ?q) = py_lower (rq_email ?p)" "lq_password ?q = rq_password ?p"
    "now (demo_env\<lparr>now := 2000\<rparr>) \<le> now demo_env + minutes (access_token_expire_minutes default_settings)"
    by code_simp+
  from login_token_authenticates [OF plain_crypto_ok demo_schema_ok reg this] reg show ?thesis
    by blast
qed

text \<open>Whatever the token, a request is either authenticated as the active user of the database whose
  id the token carries, or refused with one and the same 401; authentication never changes the
  database.\<close>

theorem current_user_sound:
  shows "case get_db (get_current_user c cfg e token) d of
      (Inr u, d') \<Rightarrow> d' = d \<and> u \<in> set (users d) \<and> is_active u \<and> token_user_id c cfg e token = Inr (u_id u)
    | (Inl err, d') \<Rightarrow> d' = d \<and> err = unauthorized_exc"
  by (auto simp: get_db_def get_current_user_eq dest: find_by_SomeD split: sum.split option.split)

section \<open>The rate limiter\<close>

text \<open>The in-memory limiter, which forgets the calls that left the window, answers every run of calls
  as the limiter that remembers all of them.\<close>

theorem memory_limiter_matches_history:
  assumes "0 < window" and "sorted (map fst calls)" and "\<forall>key. 0 < limits key"
  shows "run_calls window memory_allow limits calls no_events = fst (run_history window limits calls no_events)"
  by (rule window_limiter.run_from_start [OF memory_window_limiter [OF assms(1)] assms(2,3)])

theorem memory_limiter_matches_history_witness:
  "run_calls 60 memory_allow (\<lambda>_. 1) [(0, ''k''), (1000000, ''k''), (60000000, ''k'')] no_events = [True, False, True]"
proof -
  have "run_calls 60 memory_allow (\<lambda>_. 1) [(0, ''k''), (1000000, ''k''), (60000000, ''k'')] no_events
      = fst (run_history 60 (\<lambda>_. 1) [(0, ''k''), (1000000, ''k''), (60000000, ''k'')] no_events)"
    by (rule memory_limiter_matches_history) simp_all
  then show ?thesis
    by (simp add: history_step_def recent_def no_events_def second_def)
qed

text \<open>However the calls of all clients interleave, no span of time as long as the window has more
  accepted calls of a key than the limit of the key.\<close>

theorem memory_limiter_bounds_window:
  assumes "0 < window" and "sorted (map fst calls)" and "\<forall>key. 0 < limits key"
  shows "int (in_window window y (accepted_times key calls (run_calls window memory_allow limits calls no_events)))
    \<le> limits key"
  by (rule window_limiter.accepted_bounded [OF memory_window_limiter [OF assms(1)] assms(2,3)])

theorem memory_limiter_bounds_window_witness:
  "int (in_window 60 50000000 (accepted_times ''k'' [(0, ''k''), (1000000, ''k''), (50000000, ''k'')]
     (run_calls 60 memory_allow (\<lambda>_. 2) [(0, ''k''), (1000000, ''k''), (50000000, ''k'')] no_events))) \<le> 2"
  using memory_limiter_bounds_window [of 60 "[(0, ''k''), (1000000, ''k''), (50000000, ''k'')]" "\<lambda>_. 2" 50000000 "''k''"]
  by (simp del: run_calls.simps)

text \<open>A refused call announces between one second and the window, and one second after the announced
  time the call that filled the window has left it: a client that waits one second longer than told is
  not refused because of it.\<close>

theorem memory_retry_after_honest:
  assumes "memory_represents window s h t0" and "t0 \<le> t" and "0 < limit" and "0 < window"
    and "memory_allow t key limit window s = (Inr (False, retry), s')"
  shows "1 \<le> retry \<and> retry \<le> window \<and>
    hd (recent window t (h key)) \<le> (t + (retry + 1) * second) - window * second"
  using memory_retry_bounds [OF assms] by blast

theorem memory_retry_after_honest_witness:
  "\<exists>s'. memory_allow 100000 ''k'' 1 60 (no_events(''k'' := [0])) = (Inr (False, 59), s') \<and>
     (0::int) \<le> (100000 + (59 + 1) * second) - 60 * second"
proof -
  have rep: "memory_represents 60 (no_events(''k'' := [0])) (no_events(''k'' := [0])) 0"
    unfolding memory_represents_def
    by (intro allI conjI exI [of _ 0]) (simp_all add: no_events_def recent_def second_def)
  have "fst (memory_allow 100000 ''k'' 1 60 (no_events(''k'' := [0]))) = Inr (False, 59)"
    by (simp add: memory_allow_def second_def trunc_div_def)
  then obtain s' where call: "memory_allow 100000 ''k'' 1 60 (no_events(''k'' := [0])) = (Inr (False, 59), s')"
    by (metis prod.collapse)
  from memory_retry_after_honest [OF rep _ _ _ call] show ?thesis
    using call by (simp add: recent_def second_def)
qed

text \<open>The announced time can be too short: a client that waits exactly as long as the answer says is
  refused again, since the time is truncated to whole seconds.\<close>

theorem retry_after_can_be_too_short:
  "\<exists>t retry s'. memory_allow t ''k'' 1 60 (no_events(''k'' := [0])) = (Inr (False, retry), s') \<and>
     fst (memory_allow (t + retry * second) ''k'' 1 60 s') = Inr (False, 1)"
  by (rule exI [of _ 100000]) (simp add: memory_allow_def second_def trunc_div_def)

text \<open>While Redis is down, the limiter of the application answers as the in-memory one: falling back
  loses no limit.\<close>

theorem fallback_limits_without_redis:
  assumes "\<And>cmds r. \<exists>err r'. execute cmds r = (Inl err, r')"
    and "build_rate_limiter cfg = Redis_With_Fallback"
  shows "run_calls window (limiter_allow cfg execute uuid) limits calls (r, m)
    = run_calls window memory_allow limits calls m"
proof -
  have "limiter_allow cfg execute uuid = fallback_allow (redis_allow execute ''rl'' uuid) memory_allow"
    using assms(2) by (simp add: limiter_allow_def fun_eq_iff)
  moreover have "\<not> is_ok (fst (redis_allow execute ''rl'' uuid t key limit w p))" for t key limit w p
  proof -
    obtain err r' where "execute [Zremrangebyscore (''rl'' @ '':'' @ key) 0 (trunc_div t 1000 - w * 1000),
        Zcard (''rl'' @ '':'' @ key)] p = (Inl err, r')"
      using assms(1) by blast
    then show ?thesis
      by (simp add: redis_allow_def Let_def)
  qed
  ultimately show ?thesis
    by (simp add: fallback_down)
qed

theorem fallback_limits_without_redis_witness:
  "run_calls 60 (limiter_allow default_settings (\<lambda>cmds (). (Inl ServiceError, ())) ''u'') (\<lambda>_. 1)
     [(0, ''k''), (1000000, ''k'')] ((), no_events) = [True, False]"
proof -
  have "build_rate_limiter default_settings = Redis_With_Fallback"
    by code_simp
  then have "run_calls 60 (limiter_allow default_settings (\<lambda>cmds (). (Inl ServiceError, ())) ''u'') (\<lambda>_. 1)
      [(0, ''k''), (1000000, ''k'')] ((), no_events)
    = run_calls 60 memory_allow (\<lambda>_. 1) [(0, ''k''), (1000000, ''k'')] no_events"
    by (intro fallback_limits_without_redis exI) (simp_all split: unit.split)
  moreover have "run_calls 60 memory_allow (\<lambda>_. 1) [(0, ''k''), (1000000, ''k'')] no_events = [True, False]"
    by (simp add: memory_allow_def second_def no_events_def)
  ultimately show ?thesis
    by simp
qed

text \<open>Guessing passwords is throttled: in any minute at most twenty login requests of one host get past
  the limiter to the password check, and the others end with a 429 without reading the database.\<close>

theorem login_attempts_bounded:
  assumes "sorted (map fst requests)"
    and "calls = map (\<lambda>(t, h). (t, rate_limit_key ''login'' h)) requests"
  shows "in_window 60 y (accepted_times (rate_limit_key ''login'' host) calls
      (login_passes default_settings memory_allow requests no_events)) \<le> 20
    \<and> (rate_limit_or_raise default_settings memory_allow (now e) ''login'' host st = (Inl err, st') \<longrightarrow>
       login default_settings memory_allow c e credentials host st s = (Inl err, st', s))"
proof -
  note calls = assms(2)
  have "map fst calls = map fst requests"
    by (auto simp: calls)
  then have "sorted (map fst calls)"
    using assms(1) by simp
  from memory_limiter.accepted_bounded [OF this, of "\<lambda>_. 20" y]
  have "in_window 60 y (accepted_times (rate_limit_key ''login'' host) calls
      (run_calls 60 memory_allow (\<lambda>_. 20) calls no_events)) \<le> 20"
    by (simp add: default_settings_def)
  then have "in_window 60 y (accepted_times (rate_limit_key ''login'' host) calls
      (login_passes default_settings memory_allow requests no_events)) \<le> 20"
    by (simp add: login_passes_run calls [symmetric]) (simp add: default_settings_def)
  then show ?thesis
    by (intro conjI impI login_refused)
qed

theorem login_attempts_bounded_witness:
  "in_window 60 5 (accepted_times (rate_limit_key ''login'' (Some ''h'')) [(5, rate_limit_key ''login'' (Some ''h''))]
     (login_passes default_settings memory_allow [(5, Some ''h'')] no_events)) \<le> 20"
  by (rule login_attempts_bounded [THEN conjunct1]) simp_all

end
