(* ===== verification/Calendar_Properties.thy ===== *)
theory Calendar_Properties
  imports Calendar_Service Scenario
begin

text \<open>
  What a calendar program reads from the file of a booking: the lines, the texts and the times.
  The readers \<open>split_crlf\<close>, \<open>unescape\<close> and \<open>read_ics_time\<close> are the specification.
\<close>

section \<open>Lines\<close>

fun split_crlf :: "string \<Rightarrow> string list" where
  "split_crlf [] = [[]]"
| "split_crlf [c] = [[c]]"
| "split_crlf (c # c' # cs) =
     (if c = carriage_return \<and> c' = newline then [] # split_crlf cs
      else (case split_crlf (c' # cs) of [] \<Rightarrow> [[c]] | l # ls \<Rightarrow> (c # l) # ls))"

lemma split_crlf_line:
  assumes "newline \<notin> set l"
  shows "split_crlf (l @ [carriage_return, newline] @ rest) = l # split_crlf rest"
  using assms
proof (induction l)
  case Nil
  then show ?case by simp
next
  case (Cons c l)
  then show ?case by (cases l) (auto simp: control_defs)
qed

lemma split_crlf_last: "newline \<notin> set l \<Longrightarrow> split_crlf l = [l]"
proof (induction l)
  case Nil
  then show ?case by simp
next
  case (Cons c l)
  then show ?case by (cases l) auto
qed

lemma split_join:
  assumes "ls \<noteq> []" and "\<forall>l \<in> set ls. newline \<notin> set l"
  shows "split_crlf (py_join [carriage_return, newline] ls) = ls"
  using assms
proof (induction ls)
  case Nil
  then show ?case by simp
next
  case (Cons l ls)
  then show ?case
    using split_crlf_line [of l] by (cases ls) (simp_all add: split_crlf_last)
qed

lemma digits_no_newline: "is_digit c \<Longrightarrow> c \<noteq> newline"
  by (auto simp: is_digit_def control_defs)

lemma int_str_no_newline: "newline \<notin> set (int_str i)"
  using nat_str_digits digits_no_newline by (auto simp: int_str_def control_defs)

lemma padded_digits: "\<forall>c \<in> set (padded w n). is_digit c"
proof (induction w arbitrary: n)
  case 0
  then show ?case by simp
next
  case (Suc w)
  then show ?case by (auto intro: is_digit_char_of)
qed

lemma format_no_newline: "newline \<notin> set (format_ics_datetime v)"
proof -
  have "newline \<notin> set (padded w n)" for w n
    using padded_digits digits_no_newline by blast
  then show ?thesis
    by (auto simp: format_ics_datetime_def Let_def control_defs split: prod.splits)
qed

lemma status_no_newline: "newline \<notin> set (to_ics_status st)"
  by (auto simp: to_ics_status_def control_defs Let_def)

lemma ics_lines_no_newline: "\<forall>l \<in> set (ics_lines e i s t display client st). newline \<notin> set l"
  using int_str_no_newline [of i] format_no_newline escape_no_newline status_no_newline [of st]
  by (simp add: ics_lines_def ics_summary_def ics_description_def control_defs)

text \<open>Nothing a user can choose, a name or an address, adds, ends or merges a line of the calendar
  file: a reader that splits it at CR LF gets exactly the lines the service lists.\<close>

theorem calendar_lines_intact:
  "split_crlf (build_booking_calendar_ics e i s t display client st) = ics_lines e i s t display client st"
  unfolding build_booking_calendar_ics_def
  by (rule split_join [OF _ ics_lines_no_newline]) (simp add: ics_lines_def)

text \<open>Escaping can be undone: a reader that resolves the escapes gets the text back, line breaks of
  both kinds as LF, and the escaped text has no line break.\<close>

theorem escape_round_trip:
  "unescape (escape_ics_text v) = unify_newlines v \<and> newline \<notin> set (escape_ics_text v)"
  using unescape_escape_chars escape_no_newline by (simp add: escape_ics_text_eq)

text \<open>The separators of the description are escaped twice. The service writes a backslash and an
  \<open>n\<close> and escapes the backslash again, so a reader sees these two characters and never the line
  breaks that were meant.\<close>

theorem description_has_no_line_breaks:
  assumes "newline \<notin> set display" and "newline \<notin> set client"
  shows "newline \<notin> set (unescape (ics_description i display client)) \<and>
    (\<exists>rest. unescape (ics_description i display client)
      = ''Booking #'' @ int_str i @ backslash # ''nSpecialist: '' @ rest)"
proof -
  have keep: "unify_newlines v = v" if "newline \<notin> set v" for v
    using that by (induction v rule: unify_newlines.induct) auto
  let ?v = "''Booking #'' @ int_str i @ backslash # ''nSpecialist: '' @ display @ backslash # ''nClient: '' @ client"
  have v: "newline \<notin> set ?v"
    using assms int_str_no_newline [of i] by (simp add: control_defs)
  have "unescape (ics_description i display client) = ?v"
    by (simp only: ics_description_def escape_ics_text_eq unescape_escape_chars keep [OF v])
  then show ?thesis
    using v by simp
qed

theorem description_has_no_line_breaks_witness:
  "newline \<notin> set (unescape (ics_description 1 ''Ann'' ''a@x''))"
  by (rule description_has_no_line_breaks [THEN conjunct1]) (simp_all add: control_defs)

section \<open>Times\<close>

definition digits_num :: "string \<Rightarrow> nat" where
  "digits_num s = foldl (\<lambda>a c. 10 * a + (of_char c - 48)) 0 s"

lemma padded_length [simp]: "length (padded w n) = w"
  by (induction w arbitrary: n) simp_all

lemma digits_num_padded: "digits_num (padded w n) = n mod 10 ^ w"
proof (induction w arbitrary: n)
  case 0
  then show ?case by (simp add: digits_num_def)
next
  case (Suc w)
  have "n mod 10 < 10"
    by simp
  then have "48 + n mod 10 < 256"
    by linarith
  then have "digits_num (padded (Suc w) n) = 10 * digits_num (padded w (n div 10)) + n mod 10"
    by (simp add: digits_num_def of_char_of_nat)
  also have "\<dots> = n mod 10 ^ Suc w"
    by (simp add: Suc.IH mod_mult2_eq)
  finally show ?case .
qed

definition year_start :: "nat \<Rightarrow> nat" where
  "year_start y = sum_list (map year_length [1..<y])"

definition month_start :: "nat \<Rightarrow> nat \<Rightarrow> nat" where
  "month_start y m = sum_list (map (month_length y) [1..<m])"

lemma year_of_sound:
  assumes "year_of y days = (y', r)" and "1 \<le> y"
  shows "y \<le> y' \<and> year_start y + days = year_start y' + r \<and> r < year_length y'"
  using assms
proof (induction y days rule: year_of.induct)
  case (1 y days)
  show ?case
  proof (cases "days < year_length y")
    case True
    then show ?thesis
      using "1.prems" by (simp add: year_of.simps [of y days])
  next
    case False
    have "year_start (y + 1) = year_start y + year_length y"
      using "1.prems"(2) by (simp add: year_start_def)
    then show ?thesis
      using False "1.IH" "1.prems" by (auto simp: year_of.simps [of y days])
  qed
qed

lemma month_of_sound:
  assumes "month_of y [a..<13] days = (m, r)" and "1 \<le> a" and "a \<le> 12"
    and "month_start y a + days < month_start y 13"
  shows "a \<le> m \<and> m \<le> 12 \<and> month_start y a + days = month_start y m + r \<and> r < month_length y m"
  using assms
proof (induction "13 - a" arbitrary: a days)
  case 0
  then show ?case by simp
next
  case (Suc k)
  have list: "[a..<13] = a # [Suc a..<13]"
    using Suc.prems(3) by (simp add: upt_conv_Cons)
  have step: "month_start y (Suc a) = month_start y a + month_length y a"
    using Suc.prems(2) by (simp add: month_start_def)
  show ?case
  proof (cases "days < month_length y a")
    case True
    then show ?thesis
      using Suc.prems by (auto simp: list)
  next
    case False
    then have rest: "month_of y [Suc a..<13] (days - month_length y a) = (m, r)"
      and bound: "month_start y (Suc a) + (days - month_length y a) < month_start y 13"
      using Suc.prems(1,4) step by (auto simp: list)
    then have "Suc a \<le> 12"
      using Suc.prems(3) by (cases "a = 12") auto
    have "k = 13 - Suc a"
      using Suc.hyps(2) by simp
    from Suc.hyps(1) [OF this rest _ \<open>Suc a \<le> 12\<close> bound] show ?thesis
      using step False by auto
  qed
qed

lemma month_start_13: "month_start y 13 = year_length y"
proof -
  have "[1..<13] = [1, 2, 3, 4, 5, 6, 7, 8, 9, 10, 11, 12 :: nat]"
    by (simp add: upt_rec)
  then show ?thesis
    by (simp add: month_start_def month_length_def year_length_def)
qed

lemma ymd_sound:
  assumes "ymd n = (y, m, d)"
  shows "1 \<le> y \<and> 1 \<le> m \<and> m \<le> 12 \<and> 1 \<le> d \<and> d \<le> month_length y m \<and>
    n = year_start y + month_start y m + (d - 1)"
proof -
  obtain r where r: "year_of 1 n = (y, r)" "month_of y [1..<13] r = (m, d - 1)" "1 \<le> d"
    using assms by (auto simp: ymd_def split: prod.splits)
  have year: "1 \<le> y" "n = year_start y + r" "r < year_length y"
    using year_of_sound [OF r(1)] by (simp_all add: year_start_def)
  have "month_start y 1 + r < month_start y 13"
    using year(3) by (simp add: month_start_13) (simp add: month_start_def)
  from month_of_sound [OF r(2) _ _ this] show ?thesis
    using year r(3) by (auto simp: month_start_def)
qed

text \<open>The year has four digits up to 9999-12-31.\<close>

lemma leap_arith:
  assumes "P100 \<Longrightarrow> P4" and "P400 \<Longrightarrow> P100"
  shows "(if P4 \<and> (\<not> P100 \<or> P400) then 366 else 365) + (if P100 then Suc a else a) + b + c
    = 365 + a + (if P4 then Suc b else b) + (if P400 then Suc c else c)"
  using assms by auto

lemma leap_count: "year_length (Suc y) + Suc y div 100 + y div 4 + y div 400
    = 365 + y div 100 + Suc y div 4 + Suc y div 400"
proof -
  have "4 dvd Suc y" if "100 dvd Suc y"
    using dvd_trans [of 4 100 "Suc y"] that by simp
  moreover have "100 dvd Suc y" if "400 dvd Suc y"
    using dvd_trans [of 100 400 "Suc y"] that by simp
  ultimately show ?thesis
    unfolding year_length_def leap_def div_Suc mod_eq_0_iff_dvd by (rule leap_arith)
qed

lemma year_sum_step:
  fixes n :: nat
  assumes "n' = n + l" and "n + a = 365 * y + b + c" and "l + a' + b + c = 365 + a + b' + c'"
  shows "n' + a' = 365 * Suc y + b' + c'"
  using assms by simp

lemma year_start_formula: "year_start (Suc y) + y div 100 = 365 * y + y div 4 + y div 400"
proof (induction y)
  case 0
  then show ?case by (simp add: year_start_def)
next
  case (Suc y)
  have "year_start (Suc (Suc y)) = year_start (Suc y) + year_length (Suc y)"
    by (simp add: year_start_def)
  then show ?case
    using Suc leap_count [of y] by (rule year_sum_step)
qed

lemma year_start_mono: "y \<le> y' \<Longrightarrow> year_start y \<le> year_start y'"
proof -
  assume "y \<le> y'"
  show ?thesis
  proof (cases "1 \<le> y")
    case True
    then have "[1..<y'] = [1..<y] @ [y..<y']"
      using \<open>y \<le> y'\<close> upt_add_eq_append [of 1 y "y' - y"] by simp
    then show ?thesis
      by (simp add: year_start_def)
  qed (simp add: year_start_def)
qed

lemma ymd_year_bound:
  assumes "ymd n = (y, m, d)" and "int n \<le> date_max"
  shows "y < 10 ^ 4"
proof (rule ccontr)
  assume "\<not> y < 10 ^ 4"
  then have "year_start (Suc 9999) \<le> year_start y"
    by (intro year_start_mono) simp
  moreover have "year_start (Suc 9999) = 3652059"
    using year_start_formula [of 9999] by simp
  ultimately show False
    using ymd_sound [OF assms(1)] assms(2) by (simp add: date_max_def)
qed

definition read_ics_time :: "string \<Rightarrow> nat" where
  "read_ics_time s =
     (let field = (\<lambda>i w. digits_num (take w (drop i s)));
          y = field 0 4; m = field 4 2; d = field 6 2
      in (year_start y + month_start y m + (d - 1)) * 86400
         + field 9 2 * 3600 + field 11 2 * 60 + field 13 2)"

lemma month_length_le: "month_length y m \<le> 31"
  by (simp add: month_length_def)

lemma clock_parts: "s div 86400 * 86400 + s mod 86400 div 3600 * 3600 + s mod 3600 div 60 * 60 + s mod 60 = (s::nat)"
proof -
  have hours: "s mod 86400 div 3600 * 3600 + s mod 3600 = s mod 86400"
    using div_mult_mod_eq [of "s mod 86400" 3600] mod_mod_cancel [of 3600 86400 s] by simp
  have minutes: "s mod 3600 div 60 * 60 + s mod 60 = s mod 3600"
    using div_mult_mod_eq [of "s mod 3600" 60] mod_mod_cancel [of 60 3600 s] by simp
  show ?thesis
    by (simp only: add.assoc minutes hours div_mult_mod_eq)
qed

lemma read_fields:
  assumes "y < 10 ^ 4" "m < 10 ^ 2" "d < 10 ^ 2" "h < 10 ^ 2" "mi < 10 ^ 2" "s < 10 ^ 2"
  shows "read_ics_time (padded 4 y @ padded 2 m @ padded 2 d @ ''T'' @ padded 2 h @ padded 2 mi @ padded 2 s @ ''Z'')
    = (year_start y + month_start y m + (d - 1)) * 86400 + h * 3600 + mi * 60 + s"
proof -
  have num: "digits_num (padded w n) = n" if "n < 10 ^ w" for w n
    using that by (simp add: digits_num_padded)
  show ?thesis
    by (simp add: read_ics_time_def Let_def num [OF assms(1)] num [OF assms(2)] num [OF assms(3)]
        num [OF assms(4)] num [OF assms(5)] num [OF assms(6)])
qed

text \<open>The times in the file are the times of the slot: reading the printed date and time back gives
  the instant, to the second, for every time from year 1 to the end of year 9999.\<close>

theorem ics_time_round_trip:
  assumes "0 \<le> t" and "t < (date_max + 1) * day_length"
  shows "int (read_ics_time (format_ics_datetime (Aware t))) = t div 1000000"
proof -
  let ?s = "nat (t div 1000000)"
  obtain y m d where ymd: "ymd (?s div 86400) = (y, m, d)"
    by (cases "ymd (?s div 86400)") auto
  have "int (?s div 86400) = t div day_length"
    using assms(1) by (simp add: zdiv_int day_length_def zdiv_zmult2_eq [symmetric])
  also have "\<dots> \<le> date_max"
    using mult_le_iff_le_div [of day_length "date_max + 1" t] assms(2) by (simp add: day_length_def)
  finally have y: "y < 10 ^ 4"
    by (rule ymd_year_bound [OF ymd])
  note parts = ymd_sound [OF ymd]
  have small: "m < 10 ^ 2" "d < 10 ^ 2" "?s mod 86400 div 3600 < 10 ^ 2" "?s mod 3600 div 60 < 10 ^ 2"
    "?s mod 60 < 10 ^ 2"
    using parts month_length_le [of y m] by (auto intro: order_le_less_trans [of d 31])
  have "read_ics_time (format_ics_datetime (Aware t))
      = ?s div 86400 * 86400 + ?s mod 86400 div 3600 * 3600 + ?s mod 3600 div 60 * 60 + ?s mod 60"
    unfolding format_ics_datetime_def Let_def py_datetime.case ymd prod.case read_fields [OF y small]
    using parts by simp
  then have "read_ics_time (format_ics_datetime (Aware t)) = ?s"
    by (simp only: clock_parts)
  then show ?thesis
    using assms(1) by (simp add: pos_imp_zdiv_nonneg_iff)
qed

theorem ics_time_round_trip_witness:
  "int (read_ics_time (format_ics_datetime (Aware 100000000))) = 100"
  using ics_time_round_trip [of 100000000] by (simp add: date_max_def day_length_def)

end
