(* ===== verification/Catalog.thy ===== *)
theory Catalog
  imports Prelude "HOL-Library.Multiset" "HOL-Library.Sublist"
begin

text \<open>
  The schema of a relational database as data, and the operations of Alembic that the migrations
  call, by their documented effect on it: tables with columns, primary key, foreign keys and unique
  constraints, indexes, and the sequences owned by a table. An operation the server refuses (a name
  that is taken or missing, a reference to what does not exist) is \<open>None\<close>.

  \<open>ddl_engine\<close> is the interface the migrations rely on: a server on which dropping what was just
  created gives the schema back. Its law is proved for the operations of this theory.
\<close>

section \<open>Schemas\<close>

datatype sql_type = Sa_Integer | Sa_String nat | Sa_Boolean | Sa_DateTime_tz | Sa_Numeric nat nat

datatype server_default =
    Default_Literal string | Default_True | Default_False | Default_Now | Default_Nextval string

datatype on_delete = CASCADE | RESTRICT

record column =
  c_name :: string
  c_type :: sql_type
  c_nullable :: bool
  c_identity :: bool
  c_default :: "server_default option"

record foreign_key =
  fk_column :: string
  fk_table :: string
  fk_ref :: string
  fk_ondelete :: on_delete

record table =
  t_columns :: "column list"
  t_primary_key :: "string list"
  t_foreign_keys :: "foreign_key list"
  t_uniques :: "(string \<times> string list) list"

record index =
  ix_table :: string
  ix_columns :: "string list"
  ix_unique :: bool

record catalog =
  tables :: "(string \<times> table) list"
  indexes :: "(string \<times> index) list"
  sequences :: "(string \<times> string) list"

definition empty_catalog :: catalog where
  "empty_catalog = \<lparr>tables = [], indexes = [], sequences = []\<rparr>"

text \<open>\<open>sa.Column(name, type, nullable=...)\<close> with its optional \<open>Identity()\<close> and \<open>server_default\<close>.\<close>

definition sa_column :: "string \<Rightarrow> sql_type \<Rightarrow> bool \<Rightarrow> server_default option \<Rightarrow> column" where
  "sa_column n ty nullable dflt =
     \<lparr>c_name = n, c_type = ty, c_nullable = nullable, c_identity = False, c_default = dflt\<rparr>"

definition identity_column :: "string \<Rightarrow> column" where
  "identity_column n =
     \<lparr>c_name = n, c_type = Sa_Integer, c_nullable = False, c_identity = True, c_default = None\<rparr>"

definition foreign_key :: "string \<Rightarrow> string \<Rightarrow> string \<Rightarrow> on_delete \<Rightarrow> foreign_key" where
  "foreign_key col t ref od = \<lparr>fk_column = col, fk_table = t, fk_ref = ref, fk_ondelete = od\<rparr>"

section \<open>Operations\<close>

datatype ddl =
    Create_Table string table
  | Drop_Table string
  | Create_Index string string "string list" bool
  | Drop_Index string string
  | Add_Column string column
  | Drop_Column string string
  | Create_Unique_Constraint string string "string list"
  | Drop_Constraint string string

definition column_names :: "table \<Rightarrow> string list" where
  "column_names t = map c_name (t_columns t)"

definition update_table :: "string \<Rightarrow> (table \<Rightarrow> table) \<Rightarrow> catalog \<Rightarrow> catalog" where
  "update_table n f c = c\<lparr>tables := map (\<lambda>(m, t). (m, if m = n then f t else t)) (tables c)\<rparr>"

definition unique_names :: "catalog \<Rightarrow> string list" where
  "unique_names c = concat (map (\<lambda>(m, t). map fst (t_uniques t)) (tables c))"

text \<open>Tables, indexes, the indexes behind unique constraints and sequences share one name space.\<close>

definition relation_names :: "catalog \<Rightarrow> string list" where
  "relation_names c = map fst (tables c) @ map fst (indexes c) @ unique_names c @ map fst (sequences c)"

text \<open>A foreign key needs its column, and a key of one column in the table it refers to.\<close>

definition key_of :: "table \<Rightarrow> string \<Rightarrow> bool" where
  "key_of t col \<longleftrightarrow> t_primary_key t = [col] \<or> list_ex (\<lambda>(n, cols). cols = [col]) (t_uniques t)"

definition fk_ok :: "catalog \<Rightarrow> table \<Rightarrow> foreign_key \<Rightarrow> bool" where
  "fk_ok c t k \<longleftrightarrow> fk_column k \<in> set (column_names t) \<and>
     (case map_of (tables c) (fk_table k) of None \<Rightarrow> False | Some r \<Rightarrow> key_of r (fk_ref k))"

definition columns_ok :: "table \<Rightarrow> bool" where
  "columns_ok t \<longleftrightarrow> distinct (column_names t) \<and> set (t_primary_key t) \<subseteq> set (column_names t) \<and>
     list_all (\<lambda>(n, cols). cols \<noteq> [] \<and> set cols \<subseteq> set (column_names t)) (t_uniques t) \<and>
     list_all (\<lambda>col. c_name col \<in> set (t_primary_key t) \<longrightarrow> \<not> c_nullable col) (t_columns t)"

definition foreign_keys_ok :: "catalog \<Rightarrow> bool" where
  "foreign_keys_ok c \<longleftrightarrow> list_all (\<lambda>(n, t). list_all (fk_ok c t) (t_foreign_keys t)) (tables c)"

text \<open>What is dropped must not be in use by a foreign key.\<close>

definition if_unused :: "catalog \<Rightarrow> catalog option" where
  "if_unused c = (if foreign_keys_ok c then Some c else None)"

fun exec_ddl :: "ddl \<Rightarrow> catalog \<Rightarrow> catalog option" where
  "exec_ddl (Create_Table n t) c =
     (if n \<in> set (relation_names c) \<or> \<not> columns_ok t \<or> \<not> list_all (fk_ok c t) (t_foreign_keys t)
         \<or> n \<in> set (map fst (t_uniques t)) \<or> \<not> distinct (map fst (t_uniques t))
         \<or> set (map fst (t_uniques t)) \<inter> set (relation_names c) \<noteq> {}
      then None else Some (c\<lparr>tables := tables c @ [(n, t)]\<rparr>))"
| "exec_ddl (Drop_Table n) c =
     (if n \<notin> set (map fst (tables c)) then None
      else if_unused (c\<lparr>tables := filter (\<lambda>(m, t). m \<noteq> n) (tables c),
        indexes := filter (\<lambda>(m, i). ix_table i \<noteq> n) (indexes c),
        sequences := filter (\<lambda>(m, owner). owner \<noteq> n) (sequences c)\<rparr>))"
| "exec_ddl (Create_Index n tn cols uniq) c =
     (case map_of (tables c) tn of None \<Rightarrow> None
      | Some t \<Rightarrow> if n \<in> set (relation_names c) \<or> cols = [] \<or> \<not> set cols \<subseteq> set (column_names t) then None
          else Some (c\<lparr>indexes := indexes c @ [(n, \<lparr>ix_table = tn, ix_columns = cols, ix_unique = uniq\<rparr>)]\<rparr>))"
| "exec_ddl (Drop_Index n tn) c =
     (if n \<notin> set (map fst (indexes c)) then None
      else Some (c\<lparr>indexes := filter (\<lambda>(m, i). m \<noteq> n) (indexes c)\<rparr>))"
| "exec_ddl (Add_Column tn col) c =
     (case map_of (tables c) tn of None \<Rightarrow> None
      | Some t \<Rightarrow> if c_name col \<in> set (column_names t) then None
          else Some (update_table tn (\<lambda>t. t\<lparr>t_columns := t_columns t @ [col]\<rparr>) c))"
| "exec_ddl (Drop_Column tn cn) c =
     (case map_of (tables c) tn of None \<Rightarrow> None
      | Some t \<Rightarrow> if cn \<notin> set (column_names t) \<or> cn \<in> set (t_primary_key t) then None
          else if_unused ((update_table tn (\<lambda>t. t\<lparr>
              t_columns := filter (\<lambda>col. c_name col \<noteq> cn) (t_columns t),
              t_uniques := filter (\<lambda>(m, cols). cn \<notin> set cols) (t_uniques t)\<rparr>) c)
            \<lparr>indexes := filter (\<lambda>(m, i). \<not> (ix_table i = tn \<and> cn \<in> set (ix_columns i))) (indexes c)\<rparr>))"
| "exec_ddl (Create_Unique_Constraint n tn cols) c =
     (case map_of (tables c) tn of None \<Rightarrow> None
      | Some t \<Rightarrow> if n \<in> set (relation_names c) \<or> cols = [] \<or> \<not> set cols \<subseteq> set (column_names t) then None
          else Some (update_table tn (\<lambda>t. t\<lparr>t_uniques := t_uniques t @ [(n, cols)]\<rparr>) c))"
| "exec_ddl (Drop_Constraint n tn) c =
     (case map_of (tables c) tn of None \<Rightarrow> None
      | Some t \<Rightarrow> if n \<notin> set (map fst (t_uniques t)) then None
          else if_unused (update_table tn (\<lambda>t. t\<lparr>t_uniques := filter (\<lambda>(m, cs). m \<noteq> n) (t_uniques t)\<rparr>) c))"

fun run_with :: "(ddl \<Rightarrow> 'c \<Rightarrow> 'c option) \<Rightarrow> ddl list \<Rightarrow> 'c \<Rightarrow> 'c option" where
  "run_with ex [] c = Some c"
| "run_with ex (q # qs) c = (case ex q c of None \<Rightarrow> None | Some c' \<Rightarrow> run_with ex qs c')"

abbreviation run_ddl :: "ddl list \<Rightarrow> catalog \<Rightarrow> catalog option" where
  "run_ddl \<equiv> run_with exec_ddl"

text \<open>What takes back the creation of something.\<close>

fun inverse :: "ddl \<Rightarrow> ddl option" where
  "inverse (Create_Table n t) = Some (Drop_Table n)"
| "inverse (Create_Index n tn cols u) = Some (Drop_Index n tn)"
| "inverse (Add_Column tn col) = Some (Drop_Column tn (c_name col))"
| "inverse (Create_Unique_Constraint n tn cols) = Some (Drop_Constraint n tn)"
| "inverse _ = None"

definition mirrored :: "ddl list \<Rightarrow> ddl list \<Rightarrow> bool" where
  "mirrored up down \<longleftrightarrow> map inverse (rev up) = map Some down"

lemma run_with_append:
  "run_with ex (ps @ qs) c = (case run_with ex ps c of None \<Rightarrow> None | Some c' \<Rightarrow> run_with ex qs c')"
  by (induction ps arbitrary: c) (auto split: option.splits)

lemma run_with_Cons_Some:
  "run_with ex (q # qs) c = Some c' \<longleftrightarrow> (\<exists>c1. ex q c = Some c1 \<and> run_with ex qs c1 = Some c')"
  by (simp split: option.splits)

section \<open>A server that can take back\<close>

locale ddl_engine =
  fixes ex :: "ddl \<Rightarrow> 'c \<Rightarrow> 'c option" and good :: "'c \<Rightarrow> bool"
  assumes ex_good: "good c \<Longrightarrow> ex q c = Some c' \<Longrightarrow> good c'"
    and ex_undo: "good c \<Longrightarrow> inverse q = Some q' \<Longrightarrow> ex q c = Some c' \<Longrightarrow> ex q' c' = Some c"
begin

lemma run_good: "good c \<Longrightarrow> run_with ex qs c = Some c' \<Longrightarrow> good c'"
  by (induction qs arbitrary: c) (auto split: option.splits intro: ex_good)

lemma run_undo:
  assumes "good c" and "mirrored up down" and "run_with ex up c = Some c'"
  shows "run_with ex down c' = Some c"
  using assms
proof (induction up arbitrary: c down)
  case Nil
  then show ?case by (simp add: mirrored_def)
next
  case (Cons q up)
  obtain down' q' where down: "down = down' @ [q']" and "inverse q = Some q'" and m: "mirrored up down'"
    using Cons.prems(2) by (auto simp: mirrored_def append_eq_map_conv Cons_eq_map_conv)
  moreover obtain c1 where c1: "ex q c = Some c1" "run_with ex up c1 = Some c'"
    using Cons.prems(3) by (auto split: option.splits)
  ultimately have "run_with ex down' c' = Some c1" "ex q' c1 = Some c"
    using Cons.IH [OF ex_good [OF Cons.prems(1) c1(1)] m] ex_undo [OF Cons.prems(1)] by auto
  then show ?case
    by (simp add: down run_with_append)
qed

end

section \<open>Well-formed schemas\<close>

definition index_ok :: "catalog \<Rightarrow> index \<Rightarrow> bool" where
  "index_ok c i \<longleftrightarrow> (case map_of (tables c) (ix_table i) of None \<Rightarrow> False
     | Some t \<Rightarrow> ix_columns i \<noteq> [] \<and> set (ix_columns i) \<subseteq> set (column_names t))"

definition catalog_ok :: "catalog \<Rightarrow> bool" where
  "catalog_ok c \<longleftrightarrow> distinct (relation_names c) \<and> list_all (\<lambda>(n, t). columns_ok t) (tables c) \<and>
     foreign_keys_ok c \<and> list_all (\<lambda>(n, i). index_ok c i) (indexes c) \<and>
     list_all (\<lambda>(n, owner). owner \<in> set (map fst (tables c))) (sequences c)"

lemma catalog_ok_empty [simp]: "catalog_ok empty_catalog"
  by (simp add: catalog_ok_def empty_catalog_def foreign_keys_ok_def relation_names_def unique_names_def)

lemma catalog_ok_tables:
  assumes "catalog_ok c"
  shows "distinct (map fst (tables c))"
    and "(n, t) \<in> set (tables c) \<Longrightarrow> columns_ok t"
    and "(n, t) \<in> set (tables c) \<Longrightarrow> k \<in> set (t_foreign_keys t) \<Longrightarrow> fk_ok c t k"
    and "(m, i) \<in> set (indexes c) \<Longrightarrow> index_ok c i"
    and "(m, owner) \<in> set (sequences c) \<Longrightarrow> owner \<in> set (map fst (tables c))"
  using assms by (auto simp: catalog_ok_def relation_names_def foreign_keys_ok_def list_all_iff)

lemma update_table_fields [simp]:
  "indexes (update_table n f c) = indexes c" "sequences (update_table n f c) = sequences c"
  "map fst (tables (update_table n f c)) = map fst (tables c)"
  "map_of (tables (update_table n f c)) m
     = map_option (\<lambda>t. if m = n then f t else t) (map_of (tables c) m)"
proof -
  show "indexes (update_table n f c) = indexes c" "sequences (update_table n f c) = sequences c"
    by (simp_all add: update_table_def)
  show "map fst (tables (update_table n f c)) = map fst (tables c)"
    by (simp add: update_table_def comp_def case_prod_beta)
  have "map_of (map (\<lambda>(m, t). (m, if m = n then f t else t)) ts) m
      = map_option (\<lambda>t. if m = n then f t else t) (map_of ts m)" for ts :: "(string \<times> table) list"
    by (induction ts) auto
  then show "map_of (tables (update_table n f c)) m
     = map_option (\<lambda>t. if m = n then f t else t) (map_of (tables c) m)"
    by (simp add: update_table_def)
qed

lemma set_update_table:
  "set (tables (update_table n f c))
     = (\<lambda>(m, t). (m, if m = n then f t else t)) ` set (tables c)"
  by (simp add: update_table_def)

text \<open>Undoing a change of the one table of a name.\<close>

lemma update_table_undo:
  assumes "distinct (map fst (tables c))" and "map_of (tables c) n = Some t" and "g (f t) = t"
  shows "update_table n g (update_table n f c) = c"
proof -
  have one: "u = t" if "(n, u) \<in> set (tables c)" for u
    using map_of_is_SomeI [OF assms(1) that] assms(2) by simp
  have "((\<lambda>(m, t). (m, if m = n then g t else t)) \<circ> (\<lambda>(m, t). (m, if m = n then f t else t))) x = x"
    if "x \<in> set (tables c)" for x
  proof (cases x)
    case (Pair m u)
    then show ?thesis
      using that one [of u] assms(3) by auto
  qed
  then have "map ((\<lambda>(m, t). (m, if m = n then g t else t)) \<circ> (\<lambda>(m, t). (m, if m = n then f t else t))) (tables c)
      = tables c"
    by (rule map_idI)
  then show ?thesis
    by (simp add: update_table_def)
qed

section \<open>Every operation keeps a schema well-formed\<close>

lemma fk_ok_mono:
  assumes "fk_ok c t k"
    and "\<And>r. map_of (tables c) (fk_table k) = Some r \<Longrightarrow> key_of r (fk_ref k) \<Longrightarrow>
      \<exists>r'. map_of (tables c') (fk_table k) = Some r' \<and> key_of r' (fk_ref k)"
    and "set (column_names t) \<subseteq> set (column_names t')"
  shows "fk_ok c' t' k"
proof -
  obtain r where "map_of (tables c) (fk_table k) = Some r" "key_of r (fk_ref k)"
    using assms(1) by (auto simp: fk_ok_def split: option.splits)
  then obtain r' where "map_of (tables c') (fk_table k) = Some r'" "key_of r' (fk_ref k)"
    using assms(2) by blast
  then show ?thesis
    using assms(1,3) by (auto simp: fk_ok_def)
qed

lemma index_ok_mono:
  assumes "index_ok c i"
    and "\<And>t. map_of (tables c) (ix_table i) = Some t \<Longrightarrow> set (ix_columns i) \<subseteq> set (column_names t) \<Longrightarrow>
      \<exists>t'. map_of (tables c') (ix_table i) = Some t' \<and> set (ix_columns i) \<subseteq> set (column_names t')"
  shows "index_ok c' i"
proof -
  obtain t where "map_of (tables c) (ix_table i) = Some t" "set (ix_columns i) \<subseteq> set (column_names t)"
    "ix_columns i \<noteq> []"
    using assms(1) by (auto simp: index_ok_def split: option.splits)
  then show ?thesis
    using assms(2) by (fastforce simp: index_ok_def)
qed

lemma unused_ok: "if_unused c = Some c' \<longleftrightarrow> c' = c \<and> foreign_keys_ok c"
  by (auto simp: if_unused_def)

lemma map_of_append_fresh:
  assumes "map_of ts m = Some r" shows "map_of (ts @ [(n, t)]) m = Some r"
  using assms by simp

lemma subseq_unique_names:
  "subseq (concat (map (\<lambda>(m, t). map fst (t_uniques t)) (filter P ts)))
     (concat (map (\<lambda>(m, t). map fst (t_uniques t)) ts))"
  by (induction ts) (auto intro: list_emb_append_mono subseq_order.trans subseq_drop_many)

lemma subseq_update_uniques:
  assumes "\<And>t. subseq (map fst (t_uniques (f t))) (map fst (t_uniques t))"
  shows "subseq (unique_names (update_table n f c)) (unique_names c)"
proof -
  have "subseq (concat (map (\<lambda>(m, t). map fst (t_uniques t)) (map (\<lambda>(m, t). (m, if m = n then f t else t)) ts)))
      (concat (map (\<lambda>(m, t). map fst (t_uniques t)) ts))" for ts :: "(string \<times> table) list"
    by (induction ts) (auto intro!: list_emb_append_mono assms)
  then show ?thesis
    by (simp add: unique_names_def update_table_def)
qed

lemma distinct_subseq: "subseq xs ys \<Longrightarrow> distinct ys \<Longrightarrow> distinct xs"
  by (auto simp: subseq_conv_nths)

lemma subseq_map_filter: "subseq (map f (filter P xs)) (map f xs)"
  by (rule subseq_map) (rule subseq_filter_left)

lemma create_table_ok:
  assumes ok: "catalog_ok c" and ex: "exec_ddl (Create_Table n t) c = Some c'"
  shows "catalog_ok c'"
proof -
  have c': "c' = c\<lparr>tables := tables c @ [(n, t)]\<rparr>"
    and fresh: "n \<notin> set (relation_names c)" and cols: "columns_ok t"
    and fks: "list_all (fk_ok c t) (t_foreign_keys t)"
    and un: "n \<notin> set (map fst (t_uniques t))" "distinct (map fst (t_uniques t))"
      "set (map fst (t_uniques t)) \<inter> set (relation_names c) = {}"
    using ex by (auto split: if_splits)
  have fk: "fk_ok c' u k" if "fk_ok c u k" for u k
    by (rule fk_ok_mono [OF that]) (auto simp: c')
  have ix: "index_ok c' i" if "index_ok c i" for i
    by (rule index_ok_mono [OF that]) (auto simp: c')
  have "mset (relation_names c') = mset (n # map fst (t_uniques t) @ relation_names c)"
    by (simp add: c' relation_names_def unique_names_def)
  moreover have "distinct (n # map fst (t_uniques t) @ relation_names c)"
    using ok fresh un by (auto simp: catalog_ok_def)
  ultimately have "distinct (relation_names c')"
    using mset_eq_imp_distinct_iff by blast
  then show ?thesis
    using ok cols fks fk ix
    by (auto simp: catalog_ok_def list_all_iff foreign_keys_ok_def c')
qed

lemma drop_table_ok:
  assumes ok: "catalog_ok c" and ex: "exec_ddl (Drop_Table n) c = Some c'"
  shows "catalog_ok c'"
proof -
  have c': "c' = c\<lparr>tables := filter (\<lambda>(m, t). m \<noteq> n) (tables c),
      indexes := filter (\<lambda>(m, i). ix_table i \<noteq> n) (indexes c),
      sequences := filter (\<lambda>(m, owner). owner \<noteq> n) (sequences c)\<rparr>"
    and fks: "foreign_keys_ok c'"
    using ex by (auto simp: unused_ok split: if_splits)
  have "subseq (relation_names c') (relation_names c)"
    unfolding c' relation_names_def unique_names_def
    by (auto intro!: list_emb_append_mono subseq_map_filter subseq_unique_names)
  then have "distinct (relation_names c')"
    using ok distinct_subseq by (auto simp: catalog_ok_def)
  moreover have other: "map_of (tables c') m = map_of (tables c) m" if "m \<noteq> n" for m
  proof -
    have "map_of (filter (\<lambda>(m, t). m \<noteq> n) ts) m = map_of ts m" for ts :: "(string \<times> table) list"
      using that by (induction ts) auto
    then show ?thesis
      by (simp add: c')
  qed
  moreover have "index_ok c' i" if "index_ok c i" "ix_table i \<noteq> n" for i
    by (rule index_ok_mono [OF that(1)]) (auto simp: other that(2))
  moreover have "owner \<in> set (map fst (tables c'))" if "(m, owner) \<in> set (sequences c')" for m owner
    using that catalog_ok_tables(5) [OF ok, of m owner] by (force simp: c')
  then have "list_all (\<lambda>(m, owner). owner \<in> set (map fst (tables c'))) (sequences c')"
    by (auto simp: list_all_iff simp del: set_map)
  moreover have "columns_ok t" if "(m, t) \<in> set (tables c')" for m t
    using that catalog_ok_tables(2) [OF ok, of m t] by (simp add: c')
  moreover have "index_ok c i \<and> ix_table i \<noteq> n" if "(m, i) \<in> set (indexes c')" for m i
    using that catalog_ok_tables(4) [OF ok, of m i] by (simp add: c')
  ultimately show ?thesis
    using fks unfolding catalog_ok_def list_all_iff by blast
qed

lemma create_index_ok:
  assumes ok: "catalog_ok c" and ex: "exec_ddl (Create_Index n tn cols u) c = Some c'"
  shows "catalog_ok c'"
proof -
  obtain t where t: "map_of (tables c) tn = Some t" "cols \<noteq> []" "set cols \<subseteq> set (column_names t)"
    and fresh: "n \<notin> set (relation_names c)"
    and c': "c' = c\<lparr>indexes := indexes c @ [(n, \<lparr>ix_table = tn, ix_columns = cols, ix_unique = u\<rparr>)]\<rparr>"
    using ex by (auto split: option.splits if_splits)
  have fk: "fk_ok c' = fk_ok c" and ix: "index_ok c' = index_ok c"
    by (auto simp: fun_eq_iff fk_ok_def index_ok_def c')
  have "mset (relation_names c') = mset (n # relation_names c)"
    by (simp add: c' relation_names_def unique_names_def)
  then have "distinct (relation_names c')"
    using ok fresh mset_eq_imp_distinct_iff [of "relation_names c'" "n # relation_names c"]
    by (auto simp: catalog_ok_def)
  moreover have "index_ok c \<lparr>ix_table = tn, ix_columns = cols, ix_unique = u\<rparr>"
    using t by (simp add: index_ok_def)
  ultimately show ?thesis
    using ok fk ix by (auto simp: catalog_ok_def list_all_iff foreign_keys_ok_def c')
qed

lemma drop_index_ok:
  assumes ok: "catalog_ok c" and ex: "exec_ddl (Drop_Index n tn) c = Some c'"
  shows "catalog_ok c'"
proof -
  have c': "c' = c\<lparr>indexes := filter (\<lambda>(m, i). m \<noteq> n) (indexes c)\<rparr>"
    using ex by (auto split: if_splits)
  have fk: "fk_ok c' = fk_ok c" and ix: "index_ok c' = index_ok c"
    by (auto simp: fun_eq_iff fk_ok_def index_ok_def c')
  have "subseq (relation_names c') (relation_names c)"
    unfolding c' relation_names_def unique_names_def
    by (auto intro!: list_emb_append_mono subseq_map_filter)
  then have "distinct (relation_names c')"
    using ok distinct_subseq by (auto simp: catalog_ok_def)
  then show ?thesis
    using ok fk ix by (auto simp: catalog_ok_def list_all_iff foreign_keys_ok_def c')
qed

text \<open>The operations that change one table.\<close>

lemma change_table_ok:
  assumes ok: "catalog_ok c" and t: "map_of (tables c) n = Some t" and cols: "columns_ok (f t)"
    and c': "c' = update_table n f c\<lparr>indexes := filter P (indexes c)\<rparr>"
    and names: "distinct (relation_names c')" and fks: "foreign_keys_ok c'"
    and ix: "\<And>m i. (m, i) \<in> set (indexes c) \<Longrightarrow> P (m, i) \<Longrightarrow> ix_table i = n \<Longrightarrow>
      set (ix_columns i) \<subseteq> set (column_names t) \<Longrightarrow> set (ix_columns i) \<subseteq> set (column_names (f t))"
  shows "catalog_ok c'"
proof -
  have tabs: "map_of (tables c') m = map_option (\<lambda>t. if m = n then f t else t) (map_of (tables c) m)" for m
    using update_table_fields(4) by (simp add: c')
  have "columns_ok u'" if mem: "(m, u') \<in> set (tables c')" for m u'
  proof -
    obtain u where u: "(m, u) \<in> set (tables c)" "u' = (if m = n then f u else u)"
      using mem by (auto simp: c' set_update_table)
    have "u = t" if "m = n"
      using map_of_is_SomeI [OF catalog_ok_tables(1) [OF ok] u(1)] t that by simp
    then show ?thesis
      using u cols catalog_ok_tables(2) [OF ok u(1)] by auto
  qed
  moreover have "index_ok c' i" if "(m, i) \<in> set (indexes c)" "P (m, i)" for m i
  proof (rule index_ok_mono [OF catalog_ok_tables(4) [OF ok that(1)]])
    fix u
    assume "map_of (tables c) (ix_table i) = Some u" and "set (ix_columns i) \<subseteq> set (column_names u)"
    then show "\<exists>u'. map_of (tables c') (ix_table i) = Some u' \<and> set (ix_columns i) \<subseteq> set (column_names u')"
      using ix [OF that] t tabs by (cases "ix_table i = n") auto
  qed
  moreover have "map fst (tables c') = map fst (tables c)"
    by (simp add: c')
  ultimately show ?thesis
    using ok names fks by (auto simp: catalog_ok_def list_all_iff c')
qed

text \<open>Growing a table keeps the references to it.\<close>

lemma grow_table_references:
  assumes ok: "catalog_ok c" and t: "map_of (tables c) n = Some t"
    and fk: "t_foreign_keys (f t) = t_foreign_keys t"
    and cols: "set (column_names t) \<subseteq> set (column_names (f t))" and key: "\<And>x. key_of t x \<Longrightarrow> key_of (f t) x"
  shows "foreign_keys_ok (update_table n f c)"
proof -
  have "fk_ok (update_table n f c) u' k" if mem: "(m, u') \<in> set (tables (update_table n f c))"
    and k: "k \<in> set (t_foreign_keys u')" for m u' k
  proof -
    obtain u where u: "(m, u) \<in> set (tables c)" "u' = (if m = n then f u else u)"
      using mem by (auto simp: set_update_table)
    have one: "u = t" if "m = n"
      using map_of_is_SomeI [OF catalog_ok_tables(1) [OF ok] u(1)] t that by simp
    then have "k \<in> set (t_foreign_keys u)" "set (column_names u) \<subseteq> set (column_names u')"
      using k u(2) fk cols by (auto split: if_splits)
    then have "fk_ok c u k"
      using catalog_ok_tables(3) [OF ok u(1)] by simp
    then show ?thesis
    proof (rule fk_ok_mono)
      fix r
      assume "map_of (tables c) (fk_table k) = Some r" and "key_of r (fk_ref k)"
      then show "\<exists>r'. map_of (tables (update_table n f c)) (fk_table k) = Some r' \<and> key_of r' (fk_ref k)"
        using t key by (cases "fk_table k = n") auto
    qed fact
  qed
  then show ?thesis
    by (auto simp: foreign_keys_ok_def list_all_iff)
qed

lemma table_of_ok:
  assumes "catalog_ok c" and "map_of (tables c) n = Some t"
  shows "columns_ok t" "\<And>k. k \<in> set (t_foreign_keys t) \<Longrightarrow> fk_ok c t k"
  using assms(1) map_of_SomeD [OF assms(2)] catalog_ok_tables(2,3) by blast+

lemma mset_unique_names:
  assumes "distinct (map fst (tables c))" and "map_of (tables c) n = Some t"
    and "map fst (t_uniques (f t)) = map fst (t_uniques t) @ new"
  shows "mset (unique_names (update_table n f c)) = mset (new @ unique_names c)"
proof -
  have same: "concat (map (\<lambda>(m, t). map fst (t_uniques t)) (map (\<lambda>(m, t). (m, if m = n then f t else t)) ts))
      = concat (map (\<lambda>(m, t). map fst (t_uniques t)) ts)"
    if "n \<notin> set (map fst ts)" for ts :: "(string \<times> table) list"
    using that by (induction ts) auto
  have "mset (concat (map (\<lambda>(m, t). map fst (t_uniques t)) (map (\<lambda>(m, t). (m, if m = n then f t else t)) ts)))
      = mset (new @ concat (map (\<lambda>(m, t). map fst (t_uniques t)) ts))"
    if "distinct (map fst ts)" "map_of ts n = Some t" for ts :: "(string \<times> table) list"
    using that
  proof (induction ts)
    case Nil
    then show ?case by simp
  next
    case (Cons x ts)
    obtain m u where x: "x = (m, u)"
      by (cases x)
    show ?case
    proof (cases "m = n")
      case True
      then show ?thesis
        using Cons.prems same [of ts] assms(3) by (simp add: x)
    next
      case False
      then show ?thesis
        using Cons by (simp add: x)
    qed
  qed
  from this [OF assms(1,2)] show ?thesis
    by (simp add: unique_names_def update_table_def)
qed

lemma distinct_relation_names:
  assumes "catalog_ok c" and "map fst (tables c') = map fst (tables c)"
    and "subseq (map fst (indexes c')) (map fst (indexes c))"
    and "subseq (unique_names c') (unique_names c)" and "sequences c' = sequences c"
  shows "distinct (relation_names c')"
proof -
  have "subseq (relation_names c') (relation_names c)"
    unfolding relation_names_def assms(2,5) using assms(3,4) by (auto intro!: list_emb_append_mono)
  then show ?thesis
    using assms(1) distinct_subseq by (auto simp: catalog_ok_def)
qed

lemma add_column_ok:
  assumes ok: "catalog_ok c" and ex: "exec_ddl (Add_Column n col) c = Some c'"
  shows "catalog_ok c'"
proof -
  let ?f = "\<lambda>t. t\<lparr>t_columns := t_columns t @ [col]\<rparr>"
  obtain t where t: "map_of (tables c) n = Some t" and fresh: "c_name col \<notin> set (column_names t)"
    and c': "c' = update_table n ?f c"
    using ex by (auto split: option.splits if_splits)
  have tok: "columns_ok t"
    using table_of_ok(1) [OF ok t] .
  have "columns_ok (?f t)"
    using tok fresh unfolding columns_ok_def column_names_def list_all_iff
    by (simp add: subset_iff case_prod_beta) blast
  moreover have "foreign_keys_ok c'"
    unfolding c' using ok t by (rule grow_table_references) (auto simp: column_names_def key_of_def)
  moreover have "subseq (unique_names c') (unique_names c)"
    unfolding c' by (rule subseq_update_uniques) simp
  then have "distinct (relation_names c')"
    by (intro distinct_relation_names [OF ok]) (simp_all add: c')
  ultimately show ?thesis
    using change_table_ok [OF ok t, of ?f c' "\<lambda>_. True"]
    by (auto simp: c' update_table_def column_names_def)
qed

lemma create_unique_ok:
  assumes ok: "catalog_ok c" and ex: "exec_ddl (Create_Unique_Constraint m n cols) c = Some c'"
  shows "catalog_ok c'"
proof -
  let ?f = "\<lambda>t. t\<lparr>t_uniques := t_uniques t @ [(m, cols)]\<rparr>"
  obtain t where t: "map_of (tables c) n = Some t" and fresh: "m \<notin> set (relation_names c)"
    and cols: "cols \<noteq> []" "set cols \<subseteq> set (column_names t)" and c': "c' = update_table n ?f c"
    using ex by (auto split: option.splits if_splits)
  have "columns_ok (?f t)"
    using table_of_ok(1) [OF ok t] cols by (auto simp: columns_ok_def column_names_def)
  moreover have "foreign_keys_ok c'"
    unfolding c' using ok t by (rule grow_table_references) (auto simp: column_names_def key_of_def)
  moreover have "mset (relation_names c') = mset (m # relation_names c)"
    using mset_unique_names [OF catalog_ok_tables(1) [OF ok] t, of ?f "[m]"]
    by (simp add: relation_names_def c')
  then have "distinct (relation_names c')"
    using ok fresh mset_eq_imp_distinct_iff [of "relation_names c'" "m # relation_names c"]
    by (auto simp: catalog_ok_def)
  ultimately show ?thesis
    using change_table_ok [OF ok t, of ?f c' "\<lambda>_. True"]
    by (auto simp: c' update_table_def column_names_def)
qed

lemma drop_constraint_ok:
  assumes ok: "catalog_ok c" and ex: "exec_ddl (Drop_Constraint m n) c = Some c'"
  shows "catalog_ok c'"
proof -
  let ?f = "\<lambda>t. t\<lparr>t_uniques := filter (\<lambda>(m', cs). m' \<noteq> m) (t_uniques t)\<rparr>"
  obtain t where t: "map_of (tables c) n = Some t" and c': "c' = update_table n ?f c"
    and fks: "foreign_keys_ok c'"
    using ex by (auto simp: unused_ok split: option.splits if_splits)
  have "columns_ok (?f t)"
    using table_of_ok(1) [OF ok t] by (auto simp: columns_ok_def column_names_def list_all_iff)
  moreover have "subseq (unique_names c') (unique_names c)"
    unfolding c' by (rule subseq_update_uniques) (simp add: subseq_map_filter)
  then have "distinct (relation_names c')"
    by (intro distinct_relation_names [OF ok]) (simp_all add: c')
  ultimately show ?thesis
    using fks change_table_ok [OF ok t, of ?f c' "\<lambda>_. True"]
    by (auto simp: c' update_table_def column_names_def)
qed

lemma drop_column_ok:
  assumes ok: "catalog_ok c" and ex: "exec_ddl (Drop_Column n cn) c = Some c'"
  shows "catalog_ok c'"
proof -
  let ?f = "\<lambda>t. t\<lparr>t_columns := filter (\<lambda>col. c_name col \<noteq> cn) (t_columns t),
              t_uniques := filter (\<lambda>(m, cols). cn \<notin> set cols) (t_uniques t)\<rparr>"
  let ?P = "\<lambda>(m, i). \<not> (ix_table i = n \<and> cn \<in> set (ix_columns i))"
  obtain t where t: "map_of (tables c) n = Some t" and pk: "cn \<notin> set (t_primary_key t)"
    and c': "c' = update_table n ?f c\<lparr>indexes := filter ?P (indexes c)\<rparr>"
    and fks: "foreign_keys_ok c'"
    using ex by (auto simp: unused_ok split: option.splits if_splits)
  have names: "column_names (?f t) = filter (\<lambda>x. x \<noteq> cn) (column_names t)"
    by (simp add: column_names_def filter_map comp_def)
  have "columns_ok (?f t)"
    using table_of_ok(1) [OF ok t] pk unfolding columns_ok_def names by (auto simp: list_all_iff)
  moreover have "subseq (unique_names (update_table n ?f c)) (unique_names c)"
    by (rule subseq_update_uniques) (simp add: subseq_map_filter)
  then have "subseq (unique_names c') (unique_names c)"
    by (simp add: c' unique_names_def)
  then have "distinct (relation_names c')"
  proof (intro distinct_relation_names [OF ok])
    show "map fst (tables c') = map fst (tables c)"
      using update_table_fields(3) [of n ?f c] by (simp add: c')
  qed (simp_all add: c' subseq_map_filter)
  ultimately show ?thesis
    using fks by (intro change_table_ok [OF ok t _ c']) (auto simp: names)
qed

lemma exec_ddl_ok:
  assumes "catalog_ok c" and "exec_ddl q c = Some c'"
  shows "catalog_ok c'"
proof (cases q)
  case (Create_Table n t)
  with assms show ?thesis using create_table_ok by blast
next
  case (Drop_Table n)
  with assms show ?thesis using drop_table_ok by blast
next
  case (Create_Index n tn cols u)
  with assms show ?thesis using create_index_ok by blast
next
  case (Drop_Index n tn)
  with assms show ?thesis using drop_index_ok by blast
next
  case (Add_Column tn col)
  with assms show ?thesis using add_column_ok by blast
next
  case (Drop_Column tn cn)
  with assms show ?thesis using drop_column_ok by blast
next
  case (Create_Unique_Constraint n tn cols)
  with assms show ?thesis using create_unique_ok by blast
next
  case (Drop_Constraint n tn)
  with assms show ?thesis using drop_constraint_ok by blast
qed

section \<open>Creations are taken back\<close>

lemma fresh_relation:
  assumes "n \<notin> set (relation_names c)"
  shows "n \<notin> set (map fst (tables c))" "n \<notin> set (map fst (indexes c))" "n \<notin> set (unique_names c)"
  using assms by (auto simp: relation_names_def)

lemma filter_other: "n \<notin> fst ` set xs \<Longrightarrow> filter (\<lambda>(m, y). m \<noteq> n) xs = xs"
  by (induction xs) auto

lemma drop_created_table:
  assumes ok: "catalog_ok c" and ex: "exec_ddl (Create_Table n t) c = Some c'"
  shows "exec_ddl (Drop_Table n) c' = Some c"
proof -
  have c': "c' = c\<lparr>tables := tables c @ [(n, t)]\<rparr>" and fresh: "n \<notin> set (map fst (tables c))"
    using ex fresh_relation(1) [of n c] by (auto split: if_splits)
  have "filter (\<lambda>(m, t). m \<noteq> n) (tables c) = tables c"
    using fresh by (simp add: filter_other)
  moreover have "ix_table i \<noteq> n" if "(m, i) \<in> set (indexes c)" for m i
    using catalog_ok_tables(4) [OF ok that] map_of_eq_None_iff [of "tables c" n] fresh
    by (auto simp: index_ok_def split: option.splits)
  then have "filter (\<lambda>(m, i). ix_table i \<noteq> n) (indexes c) = indexes c"
    by (intro filter_True) auto
  moreover have "filter (\<lambda>(m, owner). owner \<noteq> n) (sequences c) = sequences c"
    using catalog_ok_tables(5) [OF ok] fresh by (fastforce intro!: filter_True)
  ultimately show ?thesis
    using ok by (simp add: c' unused_ok catalog_ok_def)
qed

lemma drop_created_index:
  assumes ok: "catalog_ok c" and ex: "exec_ddl (Create_Index n tn cols u) c = Some c'"
  shows "exec_ddl (Drop_Index n tn) c' = Some c"
proof -
  have c': "c' = c\<lparr>indexes := indexes c @ [(n, \<lparr>ix_table = tn, ix_columns = cols, ix_unique = u\<rparr>)]\<rparr>"
    and fresh: "n \<notin> set (map fst (indexes c))"
    using ex fresh_relation(2) [of n c] by (auto split: option.splits if_splits)
  have "filter (\<lambda>(m, i). m \<noteq> n) (indexes c) = indexes c"
    using fresh by (simp add: filter_other)
  then show ?thesis
    by (simp add: c')
qed

lemma drop_added_column:
  assumes ok: "catalog_ok c" and ex: "exec_ddl (Add_Column n col) c = Some c'"
  shows "exec_ddl (Drop_Column n (c_name col)) c' = Some c"
proof -
  let ?f = "\<lambda>t. t\<lparr>t_columns := t_columns t @ [col]\<rparr>"
  let ?g = "\<lambda>t. t\<lparr>t_columns := filter (\<lambda>x. c_name x \<noteq> c_name col) (t_columns t),
              t_uniques := filter (\<lambda>(m, cols). c_name col \<notin> set cols) (t_uniques t)\<rparr>"
  obtain t where t: "map_of (tables c) n = Some t" and fresh: "c_name col \<notin> set (column_names t)"
    and c': "c' = update_table n ?f c"
    using ex by (auto split: option.splits if_splits)
  have tok: "columns_ok t"
    using table_of_ok(1) [OF ok t] .
  have "filter (\<lambda>x. c_name x \<noteq> c_name col) (t_columns t) = t_columns t"
    using fresh by (intro filter_True) (auto simp: column_names_def image_iff)
  moreover have "filter (\<lambda>(m, cols). c_name col \<notin> set cols) (t_uniques t) = t_uniques t"
    using tok fresh by (intro filter_True) (auto simp: columns_ok_def list_all_iff)
  ultimately have "?g (?f t) = t"
    by simp
  then have undo: "update_table n ?g c' = c"
    unfolding c' using catalog_ok_tables(1) [OF ok] t by (intro update_table_undo)
  have "c_name col \<notin> set (ix_columns i)" if "(m, i) \<in> set (indexes c)" "ix_table i = n" for m i
    using catalog_ok_tables(4) [OF ok that(1)] that(2) t fresh by (auto simp: index_ok_def)
  then have "filter (\<lambda>(m, i). \<not> (ix_table i = n \<and> c_name col \<in> set (ix_columns i))) (indexes c) = indexes c"
    by (auto intro!: filter_True)
  moreover have "map_of (tables c') n = Some (?f t)" "indexes c' = indexes c"
    using t by (simp_all add: c')
  moreover have "c_name col \<notin> set (t_primary_key t)" "c_name col \<in> set (column_names (?f t))"
    using tok fresh by (auto simp: columns_ok_def column_names_def)
  moreover have "c\<lparr>indexes := indexes c\<rparr> = c"
    by simp
  ultimately show ?thesis
    using ok undo by (simp add: unused_ok catalog_ok_def)
qed

lemma drop_created_constraint:
  assumes ok: "catalog_ok c" and ex: "exec_ddl (Create_Unique_Constraint m n cols) c = Some c'"
  shows "exec_ddl (Drop_Constraint m n) c' = Some c"
proof -
  let ?f = "\<lambda>t. t\<lparr>t_uniques := t_uniques t @ [(m, cols)]\<rparr>"
  let ?g = "\<lambda>t. t\<lparr>t_uniques := filter (\<lambda>(m', cs). m' \<noteq> m) (t_uniques t)\<rparr>"
  obtain t where t: "map_of (tables c) n = Some t" and fresh: "m \<notin> set (unique_names c)"
    and c': "c' = update_table n ?f c"
    using ex fresh_relation(3) [of m c] by (auto split: option.splits if_splits)
  have "fst ` set (t_uniques t) \<subseteq> set (unique_names c)"
    using map_of_SomeD [OF t] by (auto simp: unique_names_def image_iff)
  then have "m \<notin> fst ` set (t_uniques t)"
    using fresh by blast
  then have "filter (\<lambda>(m', cs). m' \<noteq> m) (t_uniques t) = t_uniques t"
    by (rule filter_other)
  then have "?g (?f t) = t"
    by (cases t) simp
  then have "update_table n ?g c' = c"
    unfolding c' using catalog_ok_tables(1) [OF ok] t by (intro update_table_undo)
  moreover have "map_of (tables c') n = Some (?f t)"
    using t by (simp add: c')
  ultimately show ?thesis
    using ok by (simp add: unused_ok catalog_ok_def)
qed

interpretation ddl_catalog: ddl_engine exec_ddl catalog_ok
proof
  fix c q q' c'
  assume ok: "catalog_ok c" and ex: "exec_ddl q c = Some c'"
  show "catalog_ok c'"
    using ok ex by (rule exec_ddl_ok)
  assume inv: "inverse q = Some q'"
  then show "exec_ddl q' c' = Some c"
    using drop_created_table [OF ok] drop_created_index [OF ok] drop_added_column [OF ok]
      drop_created_constraint [OF ok] ex
    by (cases q) (simp_all only: inverse.simps option.inject, blast+)
qed

end
