(* ===== verification/Migrations.thy ===== *)
theory Migrations
  imports Catalog
begin

text \<open>
  The migrations of \<^verbatim>\<open>migrations/versions\<close>, one after the other: the operations each \<open>upgrade\<close> and
  \<open>downgrade\<close> makes, the two procedural blocks of revision 02, the chain of revisions that
  \<open>down_revision\<close> describes, and its run inside one transaction (\<^verbatim>\<open>migrations/env.py\<close>).
\<close>

section \<open>The server\<close>

text \<open>
  What the blocks of revision 02 meet at an \<open>Identity()\<close> column: the \<open>column_default\<close> that
  \<open>information_schema.columns\<close> reports for it, and whether \<open>SET DEFAULT\<close> and \<open>DROP DEFAULT\<close> are
  accepted. PostgreSQL documents that an identity column has no default expression and refuses both.
\<close>

record engine =
  identity_default :: "server_default option"
  identity_alterable :: bool

definition documented_postgres :: engine where
  "documented_postgres = \<lparr>identity_default = None, identity_alterable = False\<rparr>"

definition find_column :: "catalog \<Rightarrow> string \<Rightarrow> string \<Rightarrow> column option" where
  "find_column c tn cn = (case map_of (tables c) tn of None \<Rightarrow> None
     | Some t \<Rightarrow> find (\<lambda>col. c_name col = cn) (t_columns t))"

definition column_default :: "engine \<Rightarrow> catalog \<Rightarrow> string \<Rightarrow> string \<Rightarrow> server_default option" where
  "column_default p c tn cn = (case find_column c tn cn of None \<Rightarrow> None
     | Some col \<Rightarrow> if c_identity col then identity_default p else c_default col)"

text \<open>\<open>ALTER TABLE ... ALTER COLUMN ... SET DEFAULT\<close>, and \<open>DROP DEFAULT\<close> for None.\<close>

definition alter_default ::
  "engine \<Rightarrow> string \<Rightarrow> string \<Rightarrow> server_default option \<Rightarrow> catalog \<Rightarrow> catalog option" where
  "alter_default p tn cn dflt c = (case find_column c tn cn of None \<Rightarrow> None
     | Some col \<Rightarrow> if c_identity col \<and> \<not> identity_alterable p then None
         else Some (update_table tn (\<lambda>t. t\<lparr>t_columns :=
           map (\<lambda>x. if c_name x = cn then x\<lparr>c_default := dflt\<rparr> else x) (t_columns t)\<rparr>) c))"

text \<open>
  \<open>CREATE SEQUENCE IF NOT EXISTS n OWNED BY tn.cn\<close> and the \<open>setval\<close> that follows it, which needs
  \<open>n\<close> to be a sequence.
\<close>

definition create_sequence :: "string \<Rightarrow> string \<Rightarrow> string \<Rightarrow> catalog \<Rightarrow> catalog option" where
  "create_sequence n tn cn c =
     (if n \<in> set (map fst (sequences c)) then Some c
      else if n \<in> set (relation_names c) \<or> find_column c tn cn = None then None
      else Some (c\<lparr>sequences := sequences c @ [(n, tn)]\<rparr>))"

section \<open>The revisions\<close>

text \<open>\<^verbatim>\<open>20260209_01_create_users_table.py\<close>\<close>

definition users_table :: "column \<Rightarrow> table" where
  "users_table id_column = \<lparr>
     t_columns = [
       id_column,
       sa_column ''email'' (Sa_String 255) False None,
       sa_column ''hashed_password'' (Sa_String 255) False None,
       sa_column ''role'' (Sa_String 20) False (Some (Default_Literal ''client'')),
       sa_column ''is_active'' Sa_Boolean False (Some Default_True),
       sa_column ''created_at'' Sa_DateTime_tz False (Some Default_Now)],
     t_primary_key = [''id''], t_foreign_keys = [], t_uniques = []\<rparr>"

definition upgrade_01 :: "ddl list" where
  "upgrade_01 = [
     Create_Table ''users'' (users_table (identity_column ''id'')),
     Create_Index ''ix_users_id'' ''users'' [''id''] False,
     Create_Index ''ix_users_email'' ''users'' [''email''] True]"

definition downgrade_01 :: "ddl list" where
  "downgrade_01 = [
     Drop_Index ''ix_users_email'' ''users'',
     Drop_Index ''ix_users_id'' ''users'',
     Drop_Table ''users'']"

text \<open>\<^verbatim>\<open>20260209_02_fix_users_id_default.py\<close>\<close>

definition upgrade_02 :: "engine \<Rightarrow> catalog \<Rightarrow> catalog option" where
  "upgrade_02 p c =
     (case column_default p c ''users'' ''id'' of
        None \<Rightarrow>
          (case create_sequence ''users_id_seq'' ''users'' ''id'' c of
             None \<Rightarrow> None
           | Some c \<Rightarrow> alter_default p ''users'' ''id'' (Some (Default_Nextval ''users_id_seq'')) c)
      | Some col_default \<Rightarrow> Some c)"

definition downgrade_02 :: "engine \<Rightarrow> catalog \<Rightarrow> catalog option" where
  "downgrade_02 p c =
     (case column_default p c ''users'' ''id'' of
        Some (Default_Nextval s) \<Rightarrow> alter_default p ''users'' ''id'' None c
      | _ \<Rightarrow> Some c)"

text \<open>\<^verbatim>\<open>20260209_03_create_specialists_and_services.py\<close>\<close>

definition upgrade_03 :: "ddl list" where
  "upgrade_03 = [
     Create_Table ''specialist_profiles'' \<lparr>
       t_columns = [
         identity_column ''id'',
         sa_column ''user_id'' Sa_Integer False None,
         sa_column ''display_name'' (Sa_String 120) False None,
         sa_column ''description'' (Sa_String 500) True None,
         sa_column ''created_at'' Sa_DateTime_tz False (Some Default_Now)],
       t_primary_key = [''id''],
       t_foreign_keys = [foreign_key ''user_id'' ''users'' ''id'' CASCADE],
       t_uniques = [(''uq_specialist_profiles_user_id'', [''user_id''])]\<rparr>,
     Create_Index ''ix_specialist_profiles_id'' ''specialist_profiles'' [''id''] False,
     Create_Table ''services'' \<lparr>
       t_columns = [
         identity_column ''id'',
         sa_column ''specialist_id'' Sa_Integer False None,
         sa_column ''title'' (Sa_String 120) False None,
         sa_column ''description'' (Sa_String 500) True None,
         sa_column ''duration_minutes'' Sa_Integer False None,
         sa_column ''price'' (Sa_Numeric 10 2) False None,
         sa_column ''created_at'' Sa_DateTime_tz False (Some Default_Now)],
       t_primary_key = [''id''],
       t_foreign_keys = [foreign_key ''specialist_id'' ''specialist_profiles'' ''id'' CASCADE],
       t_uniques = []\<rparr>,
     Create_Index ''ix_services_id'' ''services'' [''id''] False,
     Create_Index ''ix_services_specialist_id'' ''services'' [''specialist_id''] False]"

definition downgrade_03 :: "ddl list" where
  "downgrade_03 = [
     Drop_Index ''ix_services_specialist_id'' ''services'',
     Drop_Index ''ix_services_id'' ''services'',
     Drop_Table ''services'',
     Drop_Index ''ix_specialist_profiles_id'' ''specialist_profiles'',
     Drop_Table ''specialist_profiles'']"

text \<open>\<^verbatim>\<open>20260209_04_create_time_slots.py\<close>\<close>

definition upgrade_04 :: "ddl list" where
  "upgrade_04 = [
     Create_Table ''time_slots'' \<lparr>
       t_columns = [
         identity_column ''id'',
         sa_column ''specialist_id'' Sa_Integer False None,
         sa_column ''start_at'' Sa_DateTime_tz False None,
         sa_column ''end_at'' Sa_DateTime_tz False None,
         sa_column ''is_booked'' Sa_Boolean False (Some Default_False),
         sa_column ''created_at'' Sa_DateTime_tz False (Some Default_Now)],
       t_primary_key = [''id''],
       t_foreign_keys = [foreign_key ''specialist_id'' ''specialist_profiles'' ''id'' CASCADE],
       t_uniques = []\<rparr>,
     Create_Index ''ix_time_slots_id'' ''time_slots'' [''id''] False,
     Create_Index ''ix_time_slots_specialist_id'' ''time_slots'' [''specialist_id''] False,
     Create_Index ''ix_time_slots_start_at'' ''time_slots'' [''start_at''] False,
     Create_Index ''ix_time_slots_end_at'' ''time_slots'' [''end_at''] False]"

definition downgrade_04 :: "ddl list" where
  "downgrade_04 = [
     Drop_Index ''ix_time_slots_end_at'' ''time_slots'',
     Drop_Index ''ix_time_slots_start_at'' ''time_slots'',
     Drop_Index ''ix_time_slots_specialist_id'' ''time_slots'',
     Drop_Index ''ix_time_slots_id'' ''time_slots'',
     Drop_Table ''time_slots'']"

text \<open>\<^verbatim>\<open>20260209_05_create_bookings.py\<close>\<close>

definition bookings_table :: table where
  "bookings_table = \<lparr>
     t_columns = [
       identity_column ''id'',
       sa_column ''slot_id'' Sa_Integer False None,
       sa_column ''client_id'' Sa_Integer False None,
       sa_column ''status'' (Sa_String 20) False (Some (Default_Literal ''confirmed'')),
       sa_column ''created_at'' Sa_DateTime_tz False (Some Default_Now),
       sa_column ''cancelled_at'' Sa_DateTime_tz True None],
     t_primary_key = [''id''],
     t_foreign_keys = [
       foreign_key ''slot_id'' ''time_slots'' ''id'' RESTRICT,
       foreign_key ''client_id'' ''users'' ''id'' RESTRICT],
     t_uniques = [(''uq_bookings_slot_id'', [''slot_id''])]\<rparr>"

definition upgrade_05 :: "ddl list" where
  "upgrade_05 = [
     Create_Table ''bookings'' bookings_table,
     Create_Index ''ix_bookings_id'' ''bookings'' [''id''] False,
     Create_Index ''ix_bookings_client_id'' ''bookings'' [''client_id''] False]"

definition downgrade_05 :: "ddl list" where
  "downgrade_05 = [
     Drop_Index ''ix_bookings_client_id'' ''bookings'',
     Drop_Index ''ix_bookings_id'' ''bookings'',
     Drop_Table ''bookings'']"

text \<open>\<^verbatim>\<open>20260209_06_drop_unique_slot_in_bookings.py\<close>\<close>

definition upgrade_06 :: "ddl list" where
  "upgrade_06 = [
     Drop_Constraint ''uq_bookings_slot_id'' ''bookings'',
     Create_Index ''ix_bookings_slot_id'' ''bookings'' [''slot_id''] False]"

definition downgrade_06 :: "ddl list" where
  "downgrade_06 = [
     Drop_Index ''ix_bookings_slot_id'' ''bookings'',
     Create_Unique_Constraint ''uq_bookings_slot_id'' ''bookings'' [''slot_id'']]"

text \<open>\<^verbatim>\<open>20260210_07_add_booking_idempotency_key.py\<close>\<close>

definition upgrade_07 :: "ddl list" where
  "upgrade_07 = [
     Add_Column ''bookings'' (sa_column ''idempotency_key'' (Sa_String 128) True None),
     Create_Unique_Constraint ''uq_bookings_client_idempotency_key'' ''bookings''
       [''client_id'', ''idempotency_key'']]"

definition downgrade_07 :: "ddl list" where
  "downgrade_07 = [
     Drop_Constraint ''uq_bookings_client_idempotency_key'' ''bookings'',
     Drop_Column ''bookings'' ''idempotency_key'']"

text \<open>\<^verbatim>\<open>20260210_08_create_wait_list_entries.py\<close>\<close>

definition upgrade_08 :: "ddl list" where
  "upgrade_08 = [
     Create_Table ''wait_list_entries'' \<lparr>
       t_columns = [
         sa_column ''id'' Sa_Integer False None,
         sa_column ''slot_id'' Sa_Integer False None,
         sa_column ''client_id'' Sa_Integer False None,
         sa_column ''created_at'' Sa_DateTime_tz False (Some Default_Now)],
       t_primary_key = [''id''],
       t_foreign_keys = [
         foreign_key ''slot_id'' ''time_slots'' ''id'' CASCADE,
         foreign_key ''client_id'' ''users'' ''id'' CASCADE],
       t_uniques = [(''uq_wait_list_slot_client'', [''slot_id'', ''client_id''])]\<rparr>,
     Create_Index ''ix_wait_list_entries_id'' ''wait_list_entries'' [''id''] False,
     Create_Index ''ix_wait_list_entries_slot_id'' ''wait_list_entries'' [''slot_id''] False,
     Create_Index ''ix_wait_list_entries_client_id'' ''wait_list_entries'' [''client_id''] False]"

definition downgrade_08 :: "ddl list" where
  "downgrade_08 = [
     Drop_Index ''ix_wait_list_entries_client_id'' ''wait_list_entries'',
     Drop_Index ''ix_wait_list_entries_slot_id'' ''wait_list_entries'',
     Drop_Index ''ix_wait_list_entries_id'' ''wait_list_entries'',
     Drop_Table ''wait_list_entries'']"

section \<open>The chain\<close>

record revision =
  revision_id :: string
  down_revision :: "string option"
  upgrade :: "catalog \<Rightarrow> catalog option"
  downgrade :: "catalog \<Rightarrow> catalog option"

definition ddl_revision :: "string \<Rightarrow> string option \<Rightarrow> ddl list \<Rightarrow> ddl list \<Rightarrow> revision" where
  "ddl_revision r dr up down =
     \<lparr>revision_id = r, down_revision = dr, upgrade = run_ddl up, downgrade = run_ddl down\<rparr>"

text \<open>The \<open>revision\<close> and \<open>down_revision\<close> of each file.\<close>

definition revision_01 :: revision where
  "revision_01 = ddl_revision ''20260209_01'' None upgrade_01 downgrade_01"

definition revision_02 :: "engine \<Rightarrow> revision" where
  "revision_02 p = \<lparr>revision_id = ''20260209_02'', down_revision = Some ''20260209_01'',
     upgrade = upgrade_02 p, downgrade = downgrade_02 p\<rparr>"

definition revision_03 :: revision where
  "revision_03 = ddl_revision ''20260209_03'' (Some ''20260209_02'') upgrade_03 downgrade_03"

definition revision_04 :: revision where
  "revision_04 = ddl_revision ''20260209_04'' (Some ''20260209_03'') upgrade_04 downgrade_04"

definition revision_05 :: revision where
  "revision_05 = ddl_revision ''20260209_05'' (Some ''20260209_04'') upgrade_05 downgrade_05"

definition revision_06 :: revision where
  "revision_06 = ddl_revision ''20260209_06'' (Some ''20260209_05'') upgrade_06 downgrade_06"

definition revision_07 :: revision where
  "revision_07 = ddl_revision ''20260210_07'' (Some ''20260209_06'') upgrade_07 downgrade_07"

definition revision_08 :: revision where
  "revision_08 = ddl_revision ''20260210_08'' (Some ''20260210_07'') upgrade_08 downgrade_08"

definition versions :: "engine \<Rightarrow> revision list" where
  "versions p = [revision_01, revision_02 p, revision_03, revision_04, revision_05, revision_06,
     revision_07, revision_08]"

lemmas revision_defs = ddl_revision_def revision_01_def revision_02_def revision_03_def revision_04_def
  revision_05_def revision_06_def revision_07_def revision_08_def

text \<open>
  The state of a database is the revision it is stamped with and its schema. A step up runs the
  revision whose \<open>down_revision\<close> is the stamp; a step down runs the one that is the stamp.
\<close>

type_synonym migration_state = "string option \<times> catalog"

fun steps_up :: "revision list \<Rightarrow> nat \<Rightarrow> migration_state \<Rightarrow> migration_state option" where
  "steps_up rs 0 st = Some st"
| "steps_up rs (Suc n) (v, c) =
     (case find (\<lambda>r. down_revision r = v) rs of
        None \<Rightarrow> Some (v, c)
      | Some r \<Rightarrow> (case upgrade r c of
          None \<Rightarrow> None
        | Some c \<Rightarrow> steps_up rs n (Some (revision_id r), c)))"

fun steps_down :: "revision list \<Rightarrow> nat \<Rightarrow> migration_state \<Rightarrow> migration_state option" where
  "steps_down rs 0 st = Some st"
| "steps_down rs (Suc n) (v, c) =
     (case find (\<lambda>r. Some (revision_id r) = v) rs of
        None \<Rightarrow> Some (v, c)
      | Some r \<Rightarrow> (case downgrade r c of
          None \<Rightarrow> None
        | Some c \<Rightarrow> steps_down rs n (down_revision r, c)))"

text \<open>
  \<open>alembic upgrade head\<close>: all missing revisions, in the one transaction of \<open>run_migrations_online\<close>,
  so that a failing revision leaves the database as it was. There are never more steps than
  revisions.
\<close>

definition upgrade_head :: "engine \<Rightarrow> migration_state \<Rightarrow> migration_state" where
  "upgrade_head p st = (case steps_up (versions p) (length (versions p)) st of None \<Rightarrow> st | Some st' \<Rightarrow> st')"

lemmas upgrade_defs = upgrade_01_def upgrade_03_def upgrade_04_def upgrade_05_def upgrade_06_def
  upgrade_07_def upgrade_08_def

lemmas downgrade_defs = downgrade_01_def downgrade_03_def downgrade_04_def downgrade_05_def
  downgrade_06_def downgrade_07_def downgrade_08_def

end
