(* ===== verification/Schema.thy ===== *)
theory Schema
  imports Models Catalog
begin

text \<open>
  The tables that the classes of \<^verbatim>\<open>app/db/models\<close> declare, as SQLAlchemy derives them from
  \<open>mapped_column\<close> and \<open>__table_args__\<close>: a list of facts, which can be compared with the facts of a
  migrated schema; and what a fact says about the rows of a database, which can be compared with
  the constraints \<open>schema_ok\<close> that the sessions of this development enforce.
\<close>

section \<open>Declarations\<close>

record orm_column =
  oc_name :: string
  oc_type :: sql_type
  oc_nullable :: bool
  oc_primary_key :: bool
  oc_index :: bool
  oc_unique :: bool
  oc_references :: "(string \<times> string \<times> on_delete) option"

record orm_class =
  tablename :: string
  orm_columns :: "orm_column list"
  table_args :: "(string \<times> string list) list"

definition mapped_column :: "string \<Rightarrow> sql_type \<Rightarrow> bool \<Rightarrow> orm_column" where
  "mapped_column n ty nullable = \<lparr>oc_name = n, oc_type = ty, oc_nullable = nullable,
     oc_primary_key = False, oc_index = False, oc_unique = False, oc_references = None\<rparr>"

definition id_column :: orm_column where
  "id_column = (mapped_column ''id'' Sa_Integer False)\<lparr>oc_primary_key := True, oc_index := True\<rparr>"

definition created_at_column :: orm_column where
  "created_at_column = mapped_column ''created_at'' Sa_DateTime_tz False"

definition user_class :: orm_class where
  "user_class = \<lparr>tablename = ''users'', orm_columns = [
     id_column,
     (mapped_column ''email'' (Sa_String 255) False)\<lparr>oc_unique := True, oc_index := True\<rparr>,
     mapped_column ''hashed_password'' (Sa_String 255) False,
     mapped_column ''role'' (Sa_String 20) False,
     mapped_column ''is_active'' Sa_Boolean False,
     created_at_column], table_args = []\<rparr>"

definition specialist_profile_class :: orm_class where
  "specialist_profile_class = \<lparr>tablename = ''specialist_profiles'', orm_columns = [
     id_column,
     (mapped_column ''user_id'' Sa_Integer False)
       \<lparr>oc_unique := True, oc_references := Some (''users'', ''id'', CASCADE)\<rparr>,
     mapped_column ''display_name'' (Sa_String 120) False,
     mapped_column ''description'' (Sa_String 500) True,
     created_at_column], table_args = []\<rparr>"

definition service_class :: orm_class where
  "service_class = \<lparr>tablename = ''services'', orm_columns = [
     id_column,
     (mapped_column ''specialist_id'' Sa_Integer False)
       \<lparr>oc_index := True, oc_references := Some (''specialist_profiles'', ''id'', CASCADE)\<rparr>,
     mapped_column ''title'' (Sa_String 120) False,
     mapped_column ''description'' (Sa_String 500) True,
     mapped_column ''duration_minutes'' Sa_Integer False,
     mapped_column ''price'' (Sa_Numeric 10 2) False,
     created_at_column], table_args = []\<rparr>"

definition time_slot_class :: orm_class where
  "time_slot_class = \<lparr>tablename = ''time_slots'', orm_columns = [
     id_column,
     (mapped_column ''specialist_id'' Sa_Integer False)
       \<lparr>oc_index := True, oc_references := Some (''specialist_profiles'', ''id'', CASCADE)\<rparr>,
     (mapped_column ''start_at'' Sa_DateTime_tz False)\<lparr>oc_index := True\<rparr>,
     (mapped_column ''end_at'' Sa_DateTime_tz False)\<lparr>oc_index := True\<rparr>,
     mapped_column ''is_booked'' Sa_Boolean False,
     created_at_column], table_args = []\<rparr>"

definition booking_class :: orm_class where
  "booking_class = \<lparr>tablename = ''bookings'', orm_columns = [
     id_column,
     (mapped_column ''slot_id'' Sa_Integer False)
       \<lparr>oc_index := True, oc_references := Some (''time_slots'', ''id'', RESTRICT)\<rparr>,
     (mapped_column ''client_id'' Sa_Integer False)
       \<lparr>oc_index := True, oc_references := Some (''users'', ''id'', RESTRICT)\<rparr>,
     mapped_column ''idempotency_key'' (Sa_String 128) True,
     mapped_column ''status'' (Sa_String 20) False,
     created_at_column,
     mapped_column ''cancelled_at'' Sa_DateTime_tz True],
     table_args = [(''uq_bookings_client_idempotency_key'', [''client_id'', ''idempotency_key''])]\<rparr>"

definition wait_list_entry_class :: orm_class where
  "wait_list_entry_class = \<lparr>tablename = ''wait_list_entries'', orm_columns = [
     id_column,
     (mapped_column ''slot_id'' Sa_Integer False)
       \<lparr>oc_index := True, oc_references := Some (''time_slots'', ''id'', CASCADE)\<rparr>,
     (mapped_column ''client_id'' Sa_Integer False)
       \<lparr>oc_index := True, oc_references := Some (''users'', ''id'', CASCADE)\<rparr>,
     created_at_column],
     table_args = [(''uq_wait_list_slot_client'', [''slot_id'', ''client_id''])]\<rparr>"

definition base_metadata :: "orm_class list" where
  "base_metadata = [user_class, specialist_profile_class, service_class, time_slot_class,
     booking_class, wait_list_entry_class]"

section \<open>Facts\<close>

datatype schema_fact =
    Has_Table string
  | Has_Column string string sql_type bool
  | Has_Key string "string list"
  | Has_Reference string string string string on_delete
  | Has_Unique string "string list"
  | Has_Index string string "string list" bool

text \<open>
  A column with \<open>index=True\<close> has the index \<open>ix_<table>_<column>\<close>, unique when \<open>unique=True\<close>; a
  column with \<open>unique=True\<close> alone has a unique constraint. Names of unique constraints and server
  defaults are not compared.
\<close>

definition class_facts :: "orm_class \<Rightarrow> schema_fact list" where
  "class_facts k = (let n = tablename k; cols = orm_columns k in
     Has_Table n # map (\<lambda>c. Has_Column n (oc_name c) (oc_type c) (oc_nullable c)) cols
     @ [Has_Key n (map oc_name (filter oc_primary_key cols))]
     @ concat (map (\<lambda>c. case oc_references c of None \<Rightarrow> []
          | Some (t, r, od) \<Rightarrow> [Has_Reference n (oc_name c) t r od]) cols)
     @ map (\<lambda>c. Has_Unique n [oc_name c]) (filter (\<lambda>c. oc_unique c \<and> \<not> oc_index c) cols)
     @ map (\<lambda>(m, cs). Has_Unique n cs) (table_args k)
     @ map (\<lambda>c. Has_Index (''ix_'' @ n @ ''_'' @ oc_name c) n [oc_name c] (oc_unique c))
         (filter oc_index cols))"

definition metadata_facts :: "schema_fact list" where
  "metadata_facts = concat (map class_facts base_metadata)"

definition table_facts :: "string \<Rightarrow> table \<Rightarrow> schema_fact list" where
  "table_facts n t = Has_Table n # map (\<lambda>c. Has_Column n (c_name c) (c_type c) (c_nullable c)) (t_columns t)
     @ [Has_Key n (t_primary_key t)]
     @ map (\<lambda>k. Has_Reference n (fk_column k) (fk_table k) (fk_ref k) (fk_ondelete k)) (t_foreign_keys t)
     @ map (\<lambda>(m, cs). Has_Unique n cs) (t_uniques t)"

definition catalog_facts :: "catalog \<Rightarrow> schema_fact list" where
  "catalog_facts c = concat (map (\<lambda>(n, t). table_facts n t) (tables c))
     @ map (\<lambda>(m, i). Has_Index m (ix_table i) (ix_columns i) (ix_unique i)) (indexes c)"

section \<open>Facts about rows\<close>

text \<open>The rows of a table as maps from column names to values; a missing value is NULL.\<close>

datatype sql_value = Sql_Null | Sql_Int int | Sql_Text string | Sql_Bool bool

type_synonym sql_row = "(string \<times> sql_value) list"

definition opt_value :: "('a \<Rightarrow> sql_value) \<Rightarrow> 'a option \<Rightarrow> sql_value" where
  "opt_value f v = (case v of None \<Rightarrow> Sql_Null | Some x \<Rightarrow> f x)"

definition user_row :: "user \<Rightarrow> sql_row" where
  "user_row u = [(''id'', Sql_Int (u_id u)), (''email'', Sql_Text (email u)),
     (''hashed_password'', Sql_Text (hashed_password u)), (''role'', Sql_Text (role_value (role u))),
     (''is_active'', Sql_Bool (is_active u)), (''created_at'', Sql_Int (u_created_at u))]"

definition specialist_profile_row :: "specialist_profile \<Rightarrow> sql_row" where
  "specialist_profile_row p = [(''id'', Sql_Int (sp_id p)), (''user_id'', Sql_Int (sp_user_id p)),
     (''display_name'', Sql_Text (display_name p)),
     (''description'', opt_value Sql_Text (sp_description p)), (''created_at'', Sql_Int (sp_created_at p))]"

definition service_row :: "service \<Rightarrow> sql_row" where
  "service_row v = [(''id'', Sql_Int (sv_id v)), (''specialist_id'', Sql_Int (sv_specialist_id v)),
     (''title'', Sql_Text (title v)), (''description'', opt_value Sql_Text (sv_description v)),
     (''duration_minutes'', Sql_Int (duration_minutes v)), (''price'', Sql_Int (price v)),
     (''created_at'', Sql_Int (sv_created_at v))]"

definition time_slot_row :: "time_slot \<Rightarrow> sql_row" where
  "time_slot_row t = [(''id'', Sql_Int (ts_id t)), (''specialist_id'', Sql_Int (specialist_id t)),
     (''start_at'', Sql_Int (start_at t)), (''end_at'', Sql_Int (end_at t)),
     (''is_booked'', Sql_Bool (is_booked t)), (''created_at'', Sql_Int (ts_created_at t))]"

definition booking_row :: "booking \<Rightarrow> sql_row" where
  "booking_row b = [(''id'', Sql_Int (b_id b)), (''slot_id'', Sql_Int (slot_id b)),
     (''client_id'', Sql_Int (client_id b)),
     (''idempotency_key'', opt_value Sql_Text (idempotency_key b)),
     (''status'', Sql_Text (status_value (status b))), (''created_at'', Sql_Int (b_created_at b)),
     (''cancelled_at'', opt_value Sql_Int (cancelled_at b))]"

definition wait_list_entry_row :: "wait_list_entry \<Rightarrow> sql_row" where
  "wait_list_entry_row w = [(''id'', Sql_Int (w_id w)), (''slot_id'', Sql_Int (w_slot_id w)),
     (''client_id'', Sql_Int (w_client_id w)), (''created_at'', Sql_Int (w_created_at w))]"

definition rows_of :: "db \<Rightarrow> string \<Rightarrow> sql_row list" where
  "rows_of d n =
     (if n = ''users'' then map user_row (users d)
      else if n = ''specialist_profiles'' then map specialist_profile_row (specialist_profiles d)
      else if n = ''services'' then map service_row (services d)
      else if n = ''time_slots'' then map time_slot_row (time_slots d)
      else if n = ''bookings'' then map booking_row (bookings d)
      else if n = ''wait_list_entries'' then map wait_list_entry_row (wait_list_entries d)
      else [])"

definition cell :: "sql_row \<Rightarrow> string \<Rightarrow> sql_value" where
  "cell row cn = (case map_of row cn of None \<Rightarrow> Sql_Null | Some v \<Rightarrow> v)"

text \<open>
  The meaning of a fact: no NULL in a column that is not nullable; distinct keys; no two rows that
  agree on the columns of a unique constraint or index without a NULL among them; a foreign key
  that is not NULL is a value of the column it refers to.
\<close>

definition unique_rows :: "string list \<Rightarrow> sql_row list \<Rightarrow> bool" where
  "unique_rows cols rows =
     distinct (filter (\<lambda>vs. Sql_Null \<notin> set vs) (map (\<lambda>r. map (cell r) cols) rows))"

fun fact_holds :: "db \<Rightarrow> schema_fact \<Rightarrow> bool" where
  "fact_holds d (Has_Table n) = True"
| "fact_holds d (Has_Column n cn ty nullable) =
     (nullable \<or> list_all (\<lambda>r. cell r cn \<noteq> Sql_Null) (rows_of d n))"
| "fact_holds d (Has_Key n cols) =
     (unique_rows cols (rows_of d n) \<and> list_all (\<lambda>r. Sql_Null \<notin> set (map (cell r) cols)) (rows_of d n))"
| "fact_holds d (Has_Reference n cn t ref od) =
     list_all (\<lambda>r. cell r cn = Sql_Null \<or> cell r cn \<in> set (map (\<lambda>r'. cell r' ref) (rows_of d t))) (rows_of d n)"
| "fact_holds d (Has_Unique n cols) = unique_rows cols (rows_of d n)"
| "fact_holds d (Has_Index m n cols uniq) = (uniq \<longrightarrow> unique_rows cols (rows_of d n))"

section \<open>The declared constraints are those of the sessions\<close>

lemma unique_ints:
  assumes "\<And>x. cell (row x) cn = Sql_Int (f x)"
  shows "unique_rows [cn] (map row xs) \<longleftrightarrow> distinct (map f xs)"
proof -
  have "filter (\<lambda>vs. Sql_Null \<notin> set vs) (map (\<lambda>r. map (cell r) [cn]) (map row xs))
      = map (\<lambda>i. [Sql_Int i]) (map f xs)"
    by (induction xs) (simp_all add: assms)
  moreover have "distinct (map (\<lambda>i. [Sql_Int i]) ys) = distinct ys" for ys
    by (induction ys) auto
  ultimately show ?thesis
    by (simp only: unique_rows_def)
qed

lemma unique_texts:
  assumes "\<And>x. cell (row x) cn = Sql_Text (f x)"
  shows "unique_rows [cn] (map row xs) \<longleftrightarrow> distinct (map f xs)"
proof -
  have "filter (\<lambda>vs. Sql_Null \<notin> set vs) (map (\<lambda>r. map (cell r) [cn]) (map row xs))
      = map (\<lambda>i. [Sql_Text i]) (map f xs)"
    by (induction xs) (simp_all add: assms)
  moreover have "distinct (map (\<lambda>i. [Sql_Text i]) ys) = distinct ys" for ys
    by (induction ys) auto
  ultimately show ?thesis
    by (simp only: unique_rows_def)
qed

lemma unique_wait_list_pairs:
  "unique_rows [''slot_id'', ''client_id''] (map wait_list_entry_row ws)
     \<longleftrightarrow> distinct (map (\<lambda>w. (w_slot_id w, w_client_id w)) ws)"
proof -
  have "filter (\<lambda>vs. Sql_Null \<notin> set vs)
        (map (\<lambda>r. map (cell r) [''slot_id'', ''client_id'']) (map wait_list_entry_row ws))
      = map (\<lambda>(i, j). [Sql_Int i, Sql_Int j]) (map (\<lambda>w. (w_slot_id w, w_client_id w)) ws)"
    by (induction ws) (simp_all add: cell_def wait_list_entry_row_def)
  moreover have "distinct (map (\<lambda>(i, j). [Sql_Int i, Sql_Int j]) ys) = distinct ys" for ys
    by (induction ys) auto
  ultimately show ?thesis
    by (simp only: unique_rows_def)
qed

lemma unique_idempotency_pairs:
  "unique_rows [''client_id'', ''idempotency_key''] (map booking_row bs) \<longleftrightarrow> distinct (idempotency_pairs bs)"
proof -
  have "filter (\<lambda>vs. Sql_Null \<notin> set vs)
        (map (\<lambda>r. map (cell r) [''client_id'', ''idempotency_key'']) (map booking_row bs))
      = map (\<lambda>(i, k). [Sql_Int i, Sql_Text k]) (idempotency_pairs bs)"
    by (induction bs) (simp_all add: cell_def booking_row_def opt_value_def split: option.splits)
  moreover have "distinct (map (\<lambda>(i, k). [Sql_Int i, Sql_Text k]) ys) = distinct ys" for ys
    by (induction ys) auto
  ultimately show ?thesis
    by (simp only: unique_rows_def)
qed

lemma rows_of_simps [simp]:
  "rows_of d ''users'' = map user_row (users d)"
  "rows_of d ''specialist_profiles'' = map specialist_profile_row (specialist_profiles d)"
  "rows_of d ''services'' = map service_row (services d)"
  "rows_of d ''time_slots'' = map time_slot_row (time_slots d)"
  "rows_of d ''bookings'' = map booking_row (bookings d)"
  "rows_of d ''wait_list_entries'' = map wait_list_entry_row (wait_list_entries d)"
  by (simp_all add: rows_of_def)

lemma cell_simps [simp]:
  "cell (user_row u) ''id'' = Sql_Int (u_id u)" "cell (user_row u) ''email'' = Sql_Text (email u)"
  "cell (user_row u) ''hashed_password'' = Sql_Text (hashed_password u)"
  "cell (user_row u) ''role'' = Sql_Text (role_value (role u))"
  "cell (user_row u) ''is_active'' = Sql_Bool (is_active u)"
  "cell (user_row u) ''created_at'' = Sql_Int (u_created_at u)"
  "cell (specialist_profile_row p) ''id'' = Sql_Int (sp_id p)"
  "cell (specialist_profile_row p) ''user_id'' = Sql_Int (sp_user_id p)"
  "cell (specialist_profile_row p) ''display_name'' = Sql_Text (display_name p)"
  "cell (specialist_profile_row p) ''created_at'' = Sql_Int (sp_created_at p)"
  "cell (service_row v) ''id'' = Sql_Int (sv_id v)"
  "cell (service_row v) ''specialist_id'' = Sql_Int (sv_specialist_id v)"
  "cell (service_row v) ''title'' = Sql_Text (title v)"
  "cell (service_row v) ''duration_minutes'' = Sql_Int (duration_minutes v)"
  "cell (service_row v) ''price'' = Sql_Int (price v)"
  "cell (service_row v) ''created_at'' = Sql_Int (sv_created_at v)"
  "cell (time_slot_row t) ''id'' = Sql_Int (ts_id t)"
  "cell (time_slot_row t) ''specialist_id'' = Sql_Int (specialist_id t)"
  "cell (time_slot_row t) ''start_at'' = Sql_Int (start_at t)"
  "cell (time_slot_row t) ''end_at'' = Sql_Int (end_at t)"
  "cell (time_slot_row t) ''is_booked'' = Sql_Bool (is_booked t)"
  "cell (time_slot_row t) ''created_at'' = Sql_Int (ts_created_at t)"
  "cell (booking_row b) ''id'' = Sql_Int (b_id b)"
  "cell (booking_row b) ''slot_id'' = Sql_Int (slot_id b)"
  "cell (booking_row b) ''client_id'' = Sql_Int (client_id b)"
  "cell (booking_row b) ''status'' = Sql_Text (status_value (status b))"
  "cell (booking_row b) ''created_at'' = Sql_Int (b_created_at b)"
  "cell (wait_list_entry_row w) ''id'' = Sql_Int (w_id w)"
  "cell (wait_list_entry_row w) ''slot_id'' = Sql_Int (w_slot_id w)"
  "cell (wait_list_entry_row w) ''client_id'' = Sql_Int (w_client_id w)"
  "cell (wait_list_entry_row w) ''created_at'' = Sql_Int (w_created_at w)"
  by (simp_all add: cell_def user_row_def specialist_profile_row_def service_row_def time_slot_row_def
      booking_row_def wait_list_entry_row_def)

lemma reference_cells:
  assumes "\<And>x. cell (row x) cn = Sql_Int (f x)" and "\<And>y. cell (row' y) ref = Sql_Int (g y)"
  shows "list_all (\<lambda>r. cell r cn = Sql_Null \<or> cell r cn \<in> set (map ((\<lambda>r'. cell r' ref) \<circ> row') ys)) (map row xs)
    \<longleftrightarrow> list_all (\<lambda>x. f x \<in> set (map g ys)) xs"
proof -
  have "(Sql_Int i \<in> set (map ((\<lambda>r'. cell r' ref) \<circ> row') ys)) = (i \<in> set (map g ys))" for i
    by (auto simp: assms(2))
  then show ?thesis
    by (induction xs) (simp_all add: assms(1))
qed

lemmas unique_facts =
  unique_ints [of user_row "''id''" u_id] unique_texts [of user_row "''email''" email]
  unique_ints [of specialist_profile_row "''id''" sp_id]
  unique_ints [of specialist_profile_row "''user_id''" sp_user_id]
  unique_ints [of service_row "''id''" sv_id] unique_ints [of time_slot_row "''id''" ts_id]
  unique_ints [of booking_row "''id''" b_id] unique_ints [of wait_list_entry_row "''id''" w_id]
  unique_wait_list_pairs unique_idempotency_pairs

lemmas reference_facts =
  reference_cells [of specialist_profile_row "''user_id''" sp_user_id user_row "''id''" u_id]
  reference_cells [of service_row "''specialist_id''" sv_specialist_id specialist_profile_row "''id''" sp_id]
  reference_cells [of time_slot_row "''specialist_id''" specialist_id specialist_profile_row "''id''" sp_id]
  reference_cells [of booking_row "''slot_id''" slot_id time_slot_row "''id''" ts_id]
  reference_cells [of booking_row "''client_id''" client_id user_row "''id''" u_id]
  reference_cells [of wait_list_entry_row "''slot_id''" w_slot_id time_slot_row "''id''" ts_id]
  reference_cells [of wait_list_entry_row "''client_id''" w_client_id user_row "''id''" u_id]

lemma no_null [simp]:
  assumes "\<And>x. cell (row x) cn \<noteq> Sql_Null"
  shows "list_all (\<lambda>r. cell r cn \<noteq> Sql_Null) (map row xs)"
    and "list_all (\<lambda>r. Sql_Null \<noteq> cell r cn) (map row xs)"
  using assms assms [symmetric] by (simp_all add: list_all_iff)

lemmas class_defs = class_facts_def id_column_def created_at_column_def mapped_column_def Let_def

lemma user_facts:
  "list_all (fact_holds d) (class_facts user_class) \<longleftrightarrow>
     distinct (map u_id (users d)) \<and> distinct (map email (users d))"
  by (simp add: class_defs user_class_def unique_facts del: list.pred_map)

lemma specialist_profile_facts:
  "list_all (fact_holds d) (class_facts specialist_profile_class) \<longleftrightarrow>
     distinct (map sp_id (specialist_profiles d)) \<and> distinct (map sp_user_id (specialist_profiles d)) \<and>
     list_all (\<lambda>p. sp_user_id p \<in> set (map u_id (users d))) (specialist_profiles d)"
  by (auto simp: class_defs specialist_profile_class_def unique_facts reference_facts simp del: list.pred_map set_map)

lemma service_facts:
  "list_all (fact_holds d) (class_facts service_class) \<longleftrightarrow>
     distinct (map sv_id (services d)) \<and>
     list_all (\<lambda>v. sv_specialist_id v \<in> set (map sp_id (specialist_profiles d))) (services d)"
  by (auto simp: class_defs service_class_def unique_facts reference_facts simp del: list.pred_map set_map)

lemma time_slot_facts:
  "list_all (fact_holds d) (class_facts time_slot_class) \<longleftrightarrow>
     distinct (map ts_id (time_slots d)) \<and>
     list_all (\<lambda>t. specialist_id t \<in> set (map sp_id (specialist_profiles d))) (time_slots d)"
  by (auto simp: class_defs time_slot_class_def unique_facts reference_facts simp del: list.pred_map set_map)

lemma booking_facts:
  "list_all (fact_holds d) (class_facts booking_class) \<longleftrightarrow>
     distinct (map b_id (bookings d)) \<and> distinct (idempotency_pairs (bookings d)) \<and>
     list_all (\<lambda>b. slot_id b \<in> set (map ts_id (time_slots d))) (bookings d) \<and>
     list_all (\<lambda>b. client_id b \<in> set (map u_id (users d))) (bookings d)"
  by (auto simp: class_defs booking_class_def unique_facts reference_facts simp del: list.pred_map set_map)

lemma wait_list_entry_facts:
  "list_all (fact_holds d) (class_facts wait_list_entry_class) \<longleftrightarrow>
     distinct (map w_id (wait_list_entries d)) \<and>
     distinct (map (\<lambda>w. (w_slot_id w, w_client_id w)) (wait_list_entries d)) \<and>
     list_all (\<lambda>w. w_slot_id w \<in> set (map ts_id (time_slots d))) (wait_list_entries d) \<and>
     list_all (\<lambda>w. w_client_id w \<in> set (map u_id (users d))) (wait_list_entries d)"
  by (auto simp: class_defs wait_list_entry_class_def unique_facts reference_facts simp del: list.pred_map set_map)

end
