(* ===== verification/Migration_Properties.thy ===== *)
theory Migration_Properties
  imports Migrations Schema
begin

text \<open>
  Properties of the migrations: every revision keeps a schema well-formed, downgrades undo
  upgrades, the schema at the head is the one the ORM classes declare, whose constraints are those
  the sessions of this development enforce, and revision 02 cannot run after revision 01 on
  PostgreSQL.
\<close>

section \<open>Revision 02 keeps schemas well-formed\<close>







section \<open>Downgrades\<close>

lemma mirrored_revisions:
  "mirrored upgrade_01 downgrade_01" "mirrored upgrade_03 downgrade_03"
  "mirrored upgrade_04 downgrade_04" "mirrored upgrade_05 downgrade_05"
  "mirrored upgrade_07 downgrade_07" "mirrored upgrade_08 downgrade_08"
  by (simp_all add: mirrored_def upgrade_defs downgrade_defs sa_column_def)

text \<open>A downgrade takes back its upgrade: on every well-formed schema on which the upgrade succeeds,
  the downgrade of the same revision succeeds and gives the schema back exactly. Revisions 02 and 06
  are not of this kind: they change what others have created.\<close>

theorem downgrade_takes_back_upgrade:
  assumes "catalog_ok c" and "r \<in> set (versions p)"
    and "revision_id r \<noteq> ''20260209_02''" and "revision_id r \<noteq> ''20260209_06''"
    and "upgrade r c = Some c'"
  shows "downgrade r c' = Some c"
  using assms(2-5) mirrored_revisions [THEN ddl_catalog.run_undo [OF assms(1)]]
  by (auto simp: versions_def revision_defs)

theorem downgrade_takes_back_upgrade_witness:
  "run_ddl downgrade_01 (the (run_ddl upgrade_01 empty_catalog)) = Some empty_catalog"
proof -
  let ?r = "ddl_revision ''20260209_01'' None upgrade_01 downgrade_01"
  have "upgrade ?r empty_catalog = Some (the (run_ddl upgrade_01 empty_catalog))"
    unfolding ddl_revision_def revision.simps by code_simp
  moreover have "?r \<in> set (versions documented_postgres)"
    by (simp add: versions_def revision_defs)
  ultimately have "downgrade ?r (the (run_ddl upgrade_01 empty_catalog)) = Some empty_catalog"
    by (intro downgrade_takes_back_upgrade [OF catalog_ok_empty]) (auto simp: ddl_revision_def)
  then show ?thesis
    by (simp add: ddl_revision_def)
qed

text \<open>
  Revision 06 is taken back on the table that revision 05 created: its only unique constraint is
  the one that is dropped and created again.
\<close>

lemma undo_06:
  assumes ok: "catalog_ok c" and t: "map_of (tables c) ''bookings'' = Some t"
    and u: "t_uniques t = [(''uq_bookings_slot_id'', [''slot_id''])]"
    and up: "run_ddl upgrade_06 c = Some c'"
  shows "run_ddl downgrade_06 c' = Some c"
proof -
  let ?f = "\<lambda>t. t\<lparr>t_uniques := filter (\<lambda>(m, cs). m \<noteq> ''uq_bookings_slot_id'') (t_uniques t)\<rparr>"
  let ?g = "\<lambda>t. t\<lparr>t_uniques := t_uniques t @ [(''uq_bookings_slot_id'', [''slot_id''])]\<rparr>"
  let ?q = "Create_Index ''ix_bookings_slot_id'' ''bookings'' [''slot_id''] False"
  obtain c1 where drop: "exec_ddl (Drop_Constraint ''uq_bookings_slot_id'' ''bookings'') c = Some c1"
    and create: "exec_ddl ?q c1 = Some c'"
    using up by (auto simp: upgrade_06_def split: option.splits)
  have ok1: "catalog_ok c1"
    using drop_constraint_ok [OF ok drop] .
  have c1: "c1 = update_table ''bookings'' ?f c"
    using drop t by (auto simp: unused_ok split: if_splits)
  have dropped: "exec_ddl (Drop_Index ''ix_bookings_slot_id'' ''bookings'') c' = Some c1"
    using drop_created_index [OF ok1 create] .
  have "?g (?f t) = t"
    using u by simp
  then have undo: "update_table ''bookings'' ?g c1 = c"
    unfolding c1 by (rule update_table_undo [OF catalog_ok_tables(1) [OF ok] t])
  have t1: "map_of (tables c1) ''bookings'' = Some (?f t)"
    using t by (simp add: c1)
  have "mset (unique_names (update_table ''bookings'' ?g c1)) = mset (''uq_bookings_slot_id'' # unique_names c1)"
    using mset_unique_names [OF catalog_ok_tables(1) [OF ok1] t1, of ?g "[''uq_bookings_slot_id'']"] by simp
  then have "mset (unique_names c) = mset (''uq_bookings_slot_id'' # unique_names c1)"
    by (simp only: undo)
  moreover have rel: "relation_names c = map fst (tables c1) @ map fst (indexes c1) @ unique_names c @ map fst (sequences c1)"
    by (simp add: relation_names_def c1)
  ultimately have "mset (relation_names c) = mset (''uq_bookings_slot_id'' # relation_names c1)"
    by (simp add: relation_names_def)
  then have "distinct (''uq_bookings_slot_id'' # relation_names c1)"
    using ok mset_eq_imp_distinct_iff unfolding catalog_ok_def by blast
  then have fresh: "''uq_bookings_slot_id'' \<notin> set (relation_names c1)"
    by simp
  have "''slot_id'' \<in> set (column_names t)"
    using table_of_ok(1) [OF ok t] u by (simp add: columns_ok_def)
  then have "exec_ddl (Create_Unique_Constraint ''uq_bookings_slot_id'' ''bookings'' [''slot_id'']) c1 = Some c"
    using t1 fresh undo by (simp add: column_names_def)
  then show ?thesis
    using dropped by (simp add: downgrade_06_def)
qed

lemma create_index_tables: "exec_ddl (Create_Index n tn cols u) c = Some c' \<Longrightarrow> tables c' = tables c"
  by (auto split: option.splits if_splits)

lemma create_table_lookup:
  assumes "exec_ddl (Create_Table n t) c = Some c'"
  shows "map_of (tables c') n = Some t"
proof -
  have "n \<notin> set (map fst (tables c))" and "tables c' = tables c @ [(n, t)]"
    using assms fresh_relation(1) [of n c] by (auto split: if_splits)
  then show ?thesis
    using map_of_eq_None_iff [of "tables c" n] by (simp add: map_add_def)
qed

lemma upgrade_05_bookings:
  assumes "run_ddl upgrade_05 c = Some c'"
  shows "map_of (tables c') ''bookings'' = Some bookings_table"
proof -
  obtain c1 c2 where q: "exec_ddl (Create_Table ''bookings'' bookings_table) c = Some c1"
      "exec_ddl (Create_Index ''ix_bookings_id'' ''bookings'' [''id''] False) c1 = Some c2"
      "exec_ddl (Create_Index ''ix_bookings_client_id'' ''bookings'' [''client_id''] False) c2 = Some c'"
    using assms unfolding upgrade_05_def run_with_Cons_Some run_with.simps(1) by blast
  have "map_of (tables c1) ''bookings'' = Some bookings_table"
    using q(1) by (rule create_table_lookup)
  then show ?thesis
    by (simp only: create_index_tables [OF q(2)] create_index_tables [OF q(3)])
qed

text \<open>Going up from revision 02 and down again.\<close>

lemma find_up [simp]:
  "find (\<lambda>r. down_revision r = Some ''20260209_02'') (versions p) =
     Some (ddl_revision ''20260209_03'' (Some ''20260209_02'') upgrade_03 downgrade_03)"
  "find (\<lambda>r. down_revision r = Some ''20260209_03'') (versions p) =
     Some (ddl_revision ''20260209_04'' (Some ''20260209_03'') upgrade_04 downgrade_04)"
  "find (\<lambda>r. down_revision r = Some ''20260209_04'') (versions p) =
     Some (ddl_revision ''20260209_05'' (Some ''20260209_04'') upgrade_05 downgrade_05)"
  "find (\<lambda>r. down_revision r = Some ''20260209_05'') (versions p) =
     Some (ddl_revision ''20260209_06'' (Some ''20260209_05'') upgrade_06 downgrade_06)"
  "find (\<lambda>r. down_revision r = Some ''20260209_06'') (versions p) =
     Some (ddl_revision ''20260210_07'' (Some ''20260209_06'') upgrade_07 downgrade_07)"
  "find (\<lambda>r. down_revision r = Some ''20260210_07'') (versions p) =
     Some (ddl_revision ''20260210_08'' (Some ''20260210_07'') upgrade_08 downgrade_08)"
  "find (\<lambda>r. down_revision r = Some ''20260210_08'') (versions p) = None"
  by (simp_all add: versions_def revision_defs)

lemma find_down [simp]:
  "find (\<lambda>r. revision_id r = ''20260209_03'') (versions p) =
     Some (ddl_revision ''20260209_03'' (Some ''20260209_02'') upgrade_03 downgrade_03)"
  "find (\<lambda>r. revision_id r = ''20260209_04'') (versions p) =
     Some (ddl_revision ''20260209_04'' (Some ''20260209_03'') upgrade_04 downgrade_04)"
  "find (\<lambda>r. revision_id r = ''20260209_05'') (versions p) =
     Some (ddl_revision ''20260209_05'' (Some ''20260209_04'') upgrade_05 downgrade_05)"
  "find (\<lambda>r. revision_id r = ''20260209_06'') (versions p) =
     Some (ddl_revision ''20260209_06'' (Some ''20260209_05'') upgrade_06 downgrade_06)"
  "find (\<lambda>r. revision_id r = ''20260210_07'') (versions p) =
     Some (ddl_revision ''20260210_07'' (Some ''20260209_06'') upgrade_07 downgrade_07)"
  "find (\<lambda>r. revision_id r = ''20260210_08'') (versions p) =
     Some (ddl_revision ''20260210_08'' (Some ''20260210_07'') upgrade_08 downgrade_08)"
  by (simp_all add: versions_def revision_defs)

lemma ddl_revision_fields [simp]:
  "revision_id (ddl_revision r dr up down) = r" "down_revision (ddl_revision r dr up down) = dr"
  "upgrade (ddl_revision r dr up down) = run_ddl up" "downgrade (ddl_revision r dr up down) = run_ddl down"
  by (simp_all add: ddl_revision_def)

lemma steps_down_stop: "find (\<lambda>r. Some (revision_id r) = v) rs = None \<Longrightarrow> steps_down rs n (v, c) = Some (v, c)"
  by (cases n) simp_all

lemma steps_down_add:
  "steps_down rs (m + n) st = (case steps_down rs m st of None \<Rightarrow> None | Some st' \<Rightarrow> steps_down rs n st')"
  by (induction rs m st rule: steps_down.induct) (auto simp: steps_down_stop split: option.splits)

definition taken_back :: "engine \<Rightarrow> nat \<Rightarrow> string \<Rightarrow> catalog \<Rightarrow> bool" where
  "taken_back p k v c \<longleftrightarrow> (\<forall>n st. steps_up (versions p) n (Some v, c) = Some st \<longrightarrow>
     steps_down (versions p) (min n k) st = Some (Some v, c))"

lemma taken_back_step:
  assumes "find (\<lambda>r. down_revision r = Some v) (versions p) = Some r"
    and "find (\<lambda>x. revision_id x = revision_id r) (versions p) = Some r" and "down_revision r = Some v"
    and step: "\<And>c'. upgrade r c = Some c' \<Longrightarrow> downgrade r c' = Some c \<and> taken_back p k (revision_id r) c'"
  shows "taken_back p (Suc k) v c"
  unfolding taken_back_def
proof (intro allI impI)
  fix n st
  assume up: "steps_up (versions p) n (Some v, c) = Some st"
  show "steps_down (versions p) (min n (Suc k)) st = Some (Some v, c)"
  proof (cases n)
    case 0
    then show ?thesis using up by simp
  next
    case (Suc m)
    then obtain c' where c': "upgrade r c = Some c'" "steps_up (versions p) m (Some (revision_id r), c') = Some st"
      using up assms(1) by (auto split: option.splits)
    then have "steps_down (versions p) (min m k) st = Some (Some (revision_id r), c')"
      using step unfolding taken_back_def by blast
    moreover have "steps_down (versions p) 1 (Some (revision_id r), c') = Some (Some v, c)"
      using step [OF c'(1)] assms(2,3) by simp
    ultimately show ?thesis
      using steps_down_add [of "versions p" "min m k" 1 st] Suc by simp
  qed
qed

lemma taken_back_head: "taken_back p 0 ''20260210_08'' c"
  unfolding taken_back_def
proof (intro allI impI)
  fix n st
  assume "steps_up (versions p) n (Some ''20260210_08'', c) = Some st"
  then show "steps_down (versions p) (min n 0) st = Some (Some ''20260210_08'', c)"
    by (cases n) simp_all
qed

text \<open>C37: From any well-formed schema at revision 02, going up by any number of revisions and down by as
  many gives the schema back exactly, revision 06 included: it drops the unique constraint that
  revision 05 made, and its downgrade makes the same one again.\<close>

theorem migration_chain_taken_back:
  assumes ok: "catalog_ok c" and up: "steps_up (versions p) n (Some ''20260209_02'', c) = Some st"
  shows "steps_down (versions p) (min n 6) st = Some (Some ''20260209_02'', c)"
proof -
  note undo = mirrored_revisions [THEN ddl_catalog.run_undo [rotated]]
  note good = ddl_catalog.run_good
  have 7: "taken_back p (Suc 0) ''20260210_07'' c" if "catalog_ok c" for c
    by (rule taken_back_step [OF find_up(6)]) (auto simp: taken_back_head intro: undo(6) that)
  have 6: "taken_back p (Suc (Suc 0)) ''20260209_06'' c" if "catalog_ok c" for c
    by (rule taken_back_step [OF find_up(5)]) (auto intro: undo(5) 7 good that)
  have 5: "taken_back p (Suc (Suc (Suc 0))) ''20260209_05'' c"
    if "catalog_ok c" "map_of (tables c) ''bookings'' = Some bookings_table" for c
    by (rule taken_back_step [OF find_up(4)])
      (auto intro: undo_06 [OF that] 6 good that(1) simp: bookings_table_def)
  have 4: "taken_back p (Suc (Suc (Suc (Suc 0)))) ''20260209_04'' c" if "catalog_ok c" for c
    by (rule taken_back_step [OF find_up(3)]) (auto intro: undo(4) 5 good upgrade_05_bookings that)
  have 3: "taken_back p (Suc (Suc (Suc (Suc (Suc 0))))) ''20260209_03'' c" if "catalog_ok c" for c
    by (rule taken_back_step [OF find_up(2)]) (auto intro: undo(3) 4 good that)
  have "taken_back p (Suc (Suc (Suc (Suc (Suc (Suc 0)))))) ''20260209_02'' c"
    by (rule taken_back_step [OF find_up(1)]) (auto intro: undo(2) 3 good ok)
  then have "taken_back p 6 ''20260209_02'' c"
    by (simp add: eval_nat_numeral)
  then show ?thesis
    using up unfolding taken_back_def by blast
qed

section \<open>The schema at the head\<close>

text \<open>
  The constraints that every commit and flush of this development checks are exactly those the ORM
  classes declare, read column by column.
\<close>

lemma schema_ok_is_declared_schema:
  "schema_ok d \<longleftrightarrow> list_all (fact_holds d) metadata_facts"
  unfolding metadata_facts_def base_metadata_def
  by (auto simp: user_facts specialist_profile_facts service_facts time_slot_facts booking_facts
      wait_list_entry_facts schema_defs simp del: set_map list.pred_map)

text \<open>
  The schema that revision 01 leaves. The file of revision 01 now makes \<open>id\<close> an identity column; the
  databases that revision 02 repairs have a plain integer there. Both are covered: \<open>i\<close> says whether
  \<open>id\<close> is an identity column and \<open>dflt\<close> is its default.
\<close>

definition first_schema :: "bool \<Rightarrow> server_default option \<Rightarrow> (string \<times> string) list \<Rightarrow> catalog" where
  "first_schema i dflt sq = \<lparr>tables = [(''users'', users_table
      ((identity_column ''id'')\<lparr>c_identity := i, c_default := dflt\<rparr>))],
     indexes = [(''ix_users_id'', \<lparr>ix_table = ''users'', ix_columns = [''id''], ix_unique = False\<rparr>),
       (''ix_users_email'', \<lparr>ix_table = ''users'', ix_columns = [''email''], ix_unique = True\<rparr>)],
     sequences = sq\<rparr>"

lemma upgrade_01_schema: "run_ddl upgrade_01 empty_catalog = Some (first_schema True None [])"
  by code_simp

lemma find_users_id [simp]:
  "find_column (first_schema i dflt sq) ''users'' ''id''
     = Some ((identity_column ''id'')\<lparr>c_identity := i, c_default := dflt\<rparr>)"
  by (simp add: find_column_def first_schema_def users_table_def identity_column_def)

lemma create_users_id_seq [simp]:
  "create_sequence ''users_id_seq'' ''users'' ''id'' (first_schema i dflt [])
     = Some (first_schema i dflt [(''users_id_seq'', ''users'')])"
  by (simp add: create_sequence_def)
    (simp add: first_schema_def relation_names_def unique_names_def users_table_def)

lemma alter_users_id [simp]:
  "alter_default p ''users'' ''id'' d (first_schema i dflt sq)
     = (if i \<and> \<not> identity_alterable p then None else Some (first_schema i d sq))"
  by (simp add: alter_default_def identity_column_def)
    (simp add: first_schema_def update_table_def users_table_def sa_column_def identity_column_def)

lemma upgrade_02_schema:
  "upgrade_02 p (first_schema i dflt []) =
     (if (if i then identity_default p else dflt) \<noteq> None then Some (first_schema i dflt [])
      else if i \<and> \<not> identity_alterable p then None
      else Some (first_schema i (Some (Default_Nextval ''users_id_seq'')) [(''users_id_seq'', ''users'')]))"
  by (simp add: upgrade_02_def column_default_def identity_column_def split: option.splits)

text \<open>The other six revisions, and the positions of their facts in the declarations.\<close>

definition later_upgrades :: "ddl list" where
  "later_upgrades = upgrade_03 @ upgrade_04 @ upgrade_05 @ upgrade_06 @ upgrade_07 @ upgrade_08"

definition head_order :: "nat list" where
  "head_order = [0, 1, 2, 3, 4, 5, 6, 7, 10, 11, 12, 13, 14, 15, 16, 17, 18, 20, 21, 22, 23, 24,
     25, 26, 27, 28, 29, 32, 33, 34, 35, 36, 37, 38, 39, 40, 45, 46, 47, 48, 50, 51, 52, 49, 53, 54,
     55, 56, 60, 61, 62, 63, 64, 65, 66, 67, 68, 8, 9, 19, 30, 31, 41, 42, 43, 44, 57, 59, 58, 69,
     70, 71]"

lemma head_facts:
  "map_option catalog_facts (run_ddl later_upgrades (first_schema i dflt []))
     = Some (map (nth metadata_facts) head_order)"
  by code_simp

lemma head_facts_sequence:
  "map_option catalog_facts (run_ddl later_upgrades (first_schema i dflt [(''users_id_seq'', ''users'')]))
     = Some (map (nth metadata_facts) head_order)"
  by code_simp

lemma head_order_permutes: "mset (map (nth metadata_facts) head_order) = mset metadata_facts"
proof -
  have "mset head_order = mset [0..<length metadata_facts]"
  proof -
    have "length metadata_facts = 72"
      by code_simp
    moreover have "sort head_order = [0..<72]"
      by code_simp
    ultimately show ?thesis
      by (metis mset_sort)
  qed
  then have "mset (map (nth metadata_facts) head_order) = mset (map (nth metadata_facts) [0..<length metadata_facts])"
    by simp
  then show ?thesis
    by (simp only: map_nth)
qed

lemma find_up_early [simp]:
  "find (\<lambda>r. down_revision r = None) (versions p) =
     Some (ddl_revision ''20260209_01'' None upgrade_01 downgrade_01)"
  "find (\<lambda>r. down_revision r = Some ''20260209_01'') (versions p) =
     Some \<lparr>revision_id = ''20260209_02'', down_revision = Some ''20260209_01'',
       upgrade = upgrade_02 p, downgrade = downgrade_02 p\<rparr>"
  by (simp_all add: versions_def revision_defs)

lemma later_steps:
  "steps_up (versions p) 6 (Some ''20260209_02'', c)
     = map_option (\<lambda>c. (Some ''20260210_08'', c)) (run_ddl later_upgrades c)"
  by (simp add: eval_nat_numeral later_upgrades_def run_with_append split: option.splits)

lemma steps_from_01:
  "steps_up (versions p) 7 (Some ''20260209_01'', c) = (case upgrade_02 p c of None \<Rightarrow> None
     | Some c \<Rightarrow> map_option (\<lambda>c. (Some ''20260210_08'', c)) (run_ddl later_upgrades c))"
  using later_steps by (simp add: numeral_eq_Suc split: option.splits)

theorem migration_chain_taken_back_witness:
  "steps_down (versions documented_postgres) 6
     (the (steps_up (versions documented_postgres) 6 (Some ''20260209_02'', first_schema False None [])))
     = Some (Some ''20260209_02'', first_schema False None [])"
proof -
  have ok: "catalog_ok (first_schema False None [])"
    by code_simp
  obtain c where "run_ddl later_upgrades (first_schema False None []) = Some c"
    using head_facts [of False None] by auto
  then have up: "steps_up (versions documented_postgres) 6 (Some ''20260209_02'', first_schema False None [])
      = Some (Some ''20260210_08'', c)"
    by (simp add: later_steps)
  show ?thesis
    using migration_chain_taken_back [OF ok up] by (simp only: up option.sel min.idem)
qed

text \<open>C36: The migrated schema is the declared one: however the \<open>id\<close> of the first table was made, a run of
  the seven later revisions that succeeds ends at the head with exactly the tables, columns, types,
  keys, references with their delete rules, unique constraints and indexes that the ORM classes
  declare, each once. Its constraints are those that the sessions of this development enforce.\<close>

theorem migrated_schema_is_declared_schema:
  assumes "steps_up (versions p) 7 (Some ''20260209_01'', first_schema i dflt []) = Some (v, c)"
  shows "v = Some ''20260210_08'' \<and> mset (catalog_facts c) = mset metadata_facts \<and>
    (list_all (fact_holds d) (catalog_facts c) \<longleftrightarrow> schema_ok d)"
proof -
  have "\<exists>dflt sq. run_ddl later_upgrades (first_schema i dflt sq) = Some c \<and>
      sq \<in> {[], [(''users_id_seq'', ''users'')]}" and v: "v = Some ''20260210_08''"
    using assms by (auto simp: steps_from_01 upgrade_02_schema split: if_splits option.splits)
  then obtain dflt sq where run: "run_ddl later_upgrades (first_schema i dflt sq) = Some c"
    and sq: "sq \<in> {[], [(''users_id_seq'', ''users'')]}"
    by blast
  then have "catalog_facts c = map (nth metadata_facts) head_order"
    using head_facts [of i dflt] head_facts_sequence [of i dflt] by auto
  then have m: "mset (catalog_facts c) = mset metadata_facts"
    by (simp only: head_order_permutes)
  then have "set (catalog_facts c) = set metadata_facts"
    by (rule mset_eq_setD)
  then show ?thesis
    using m v by (simp add: schema_ok_is_declared_schema list_all_iff)
qed

theorem migrated_schema_is_declared_schema_witness:
  "\<exists>c. steps_up (versions documented_postgres) 7 (Some ''20260209_01'', first_schema False None [])
       = Some (Some ''20260210_08'', c) \<and> mset (catalog_facts c) = mset metadata_facts"
proof -
  obtain c where "run_ddl later_upgrades (first_schema False (Some (Default_Nextval ''users_id_seq''))
      [(''users_id_seq'', ''users'')]) = Some c"
    using head_facts_sequence [of False "Some (Default_Nextval ''users_id_seq'')"] by auto
  then have up: "steps_up (versions documented_postgres) 7 (Some ''20260209_01'', first_schema False None [])
      = Some (Some ''20260210_08'', c)"
    by (simp add: steps_from_01 upgrade_02_schema)
  then show ?thesis
    using migrated_schema_is_declared_schema [OF up] by blast
qed

section \<open>A new database\<close>

text \<open>C39: On a new database, \<open>alembic upgrade head\<close> reaches the head only on a server that reports a default
  for identity columns or lets one be set. PostgreSQL does neither: revision 02 tries to give a
  default to the identity column that revision 01 has made, the statement is refused, and the one
  transaction of all revisions leaves the database empty and unstamped.\<close>

theorem fresh_upgrade_needs_alterable_identity:
  "fst (upgrade_head p (None, empty_catalog)) =
     (if identity_default p = None \<and> \<not> identity_alterable p then None else Some ''20260210_08'')
   \<and> upgrade_head documented_postgres (None, empty_catalog) = (None, empty_catalog)"
proof -
  have run: "steps_up (versions p) 8 (None, empty_catalog)
      = steps_up (versions p) 7 (Some ''20260209_01'', first_schema True None [])" for p
    by (simp add: numeral_eq_Suc upgrade_01_schema)
  have len: "length (versions p) = 8" for p
    by (simp add: versions_def)
  obtain c1 c2 where "run_ddl later_upgrades (first_schema True None []) = Some c1"
    and "run_ddl later_upgrades (first_schema True (Some (Default_Nextval ''users_id_seq''))
      [(''users_id_seq'', ''users'')]) = Some c2"
    using head_facts [of True None] head_facts_sequence [of True "Some (Default_Nextval ''users_id_seq'')"]
    by auto
  then show ?thesis
    by (auto simp: upgrade_head_def len run steps_from_01 upgrade_02_schema documented_postgres_def
        split: option.splits)
qed

end
