(* ===== verification/Application.thy ===== *)
theory Application
  imports Prelude
begin

text \<open>
  The application around the handlers: the error payload and the two exception handlers
  (\<^verbatim>\<open>app/core/exceptions.py\<close>), the request id of the current context and the filter that puts it on log
  records (\<^verbatim>\<open>app/core/request_context.py\<close>, \<^verbatim>\<open>app/core/logging.py\<close>), the counters of
  \<^verbatim>\<open>app/core/metrics.py\<close>, and the middleware of \<^verbatim>\<open>app/main.py\<close> that sets the id, counts and logs every
  request. The rest of the application is the argument \<open>call_next\<close>, with a state of its own.
\<close>

section \<open>Requests, responses, JSON\<close>

text \<open>
  What a handler passes to \<open>JSONResponse\<close>: JSON, in which an object of Python may occur that \<open>json.dumps\<close> cannot
  encode, here an exception. Then rendering raises a \<open>TypeError\<close>.
\<close>

datatype json =
    J_Null | J_Bool bool | J_Num int | J_Str string | J_List "json list" | J_Obj "(string \<times> json) list"
  | J_Python py_exc

fun python_objects :: "json \<Rightarrow> py_exc list" where
  "python_objects (J_List js) = concat (map python_objects js)"
| "python_objects (J_Obj fs) = concat (map (\<lambda>(k, j). python_objects j) fs)"
| "python_objects (J_Python x) = [x]"
| "python_objects _ = []"

definition encodable :: "json \<Rightarrow> bool" where
  "encodable j \<longleftrightarrow> python_objects j = []"

record http_request =
  rq_method :: string
  rq_path :: string
  rq_headers :: "(string \<times> string) list"
  rq_query_string :: string
  rq_body :: string
  rq_client_host :: "string option"

record http_response =
  rs_status :: int
  rs_headers :: "(string \<times> string) list"
  rs_body :: json

text \<open>
  Header names are compared without case: \<open>headers.get(k)\<close> is the first value of a name, and
  \<open>headers[k] = v\<close> replaces the first and drops the others, or appends. Names are kept in lower case.
\<close>

definition header_get :: "string \<Rightarrow> (string \<times> string) list \<Rightarrow> string option" where
  "header_get k hs = map_option snd (find (\<lambda>(k', v). py_lower k' = py_lower k) hs)"

fun header_set :: "string \<Rightarrow> string \<Rightarrow> (string \<times> string) list \<Rightarrow> (string \<times> string) list" where
  "header_set k v [] = [(py_lower k, v)]"
| "header_set k v ((k', v') # hs) =
     (if py_lower k' = py_lower k then (k', v) # filter (\<lambda>(k'', _). py_lower k'' \<noteq> py_lower k) hs
      else (k', v') # header_set k v hs)"

lemma header_get_set [simp]: "header_get k (header_set k v hs) = Some v"
  by (induction k v hs rule: header_set.induct) (auto simp: header_get_def)

lemma header_get_set_other:
  assumes "py_lower k' \<noteq> py_lower k"
  shows "header_get k' (header_set k v hs) = header_get k' hs"
proof -
  have "find (\<lambda>(x, v). py_lower x = py_lower k') (filter (\<lambda>(x, _). py_lower x \<noteq> py_lower k) hs)
      = find (\<lambda>(x, v). py_lower x = py_lower k') hs" for hs :: "(string \<times> string) list"
    using assms by (induction hs) auto
  then show ?thesis
    using assms by (induction k v hs rule: header_set.induct) (auto simp: header_get_def)
qed

section \<open>Error payloads\<close>

definition error_payload :: "string \<Rightarrow> string \<Rightarrow> string \<Rightarrow> json \<Rightarrow> json" where
  "error_payload request_id code message detail = J_Obj [
     (''error'', J_Obj [(''code'', J_Str code), (''message'', J_Str message), (''detail'', detail)]),
     (''detail'', detail),
     (''request_id'', J_Str request_id)]"

definition json_response :: "int \<Rightarrow> (string \<times> string) list \<Rightarrow> json \<Rightarrow> http_response res" where
  "json_response status_code headers body =
     (if encodable body then Inr \<lparr>rs_status = status_code, rs_headers = headers, rs_body = body\<rparr>
      else Inl TypeError)"

definition http_exception_handler ::
  "string \<Rightarrow> int \<Rightarrow> string \<Rightarrow> (string \<times> string) list \<Rightarrow> http_response res" where
  "http_exception_handler request_id status_code detail headers =
     json_response status_code headers
       (error_payload request_id (''http_'' @ int_str status_code) detail (J_Str detail))"

definition validation_exception_handler :: "string \<Rightarrow> json \<Rightarrow> http_response res" where
  "validation_exception_handler request_id errors =
     json_response 422 [] (error_payload request_id ''validation_error'' ''Request validation failed'' errors)"

lemma encodable_payload [simp]: "encodable (error_payload request_id code message detail) = encodable detail"
  by (simp add: error_payload_def encodable_def)

lemma http_exception_handler_eq [simp]:
  "http_exception_handler request_id status_code detail headers =
     Inr \<lparr>rs_status = status_code, rs_headers = headers,
       rs_body = error_payload request_id (''http_'' @ int_str status_code) detail (J_Str detail)\<rparr>"
  by (simp add: http_exception_handler_def json_response_def) (simp add: encodable_def)

text \<open>
  What a routed request comes to: a response, an exception of the handler, or the errors of a
  request that does not fit the handler's parameters. The handlers registered with
  \<open>add_exception_handler\<close> answer the last and every \<open>HTTPException\<close>; other exceptions, and those of the
  two handlers themselves, go on.
\<close>

datatype outcome = Returned http_response | Raised py_exc | Invalid_Request json

definition handle_exceptions ::
  "(http_request \<Rightarrow> 's \<Rightarrow> outcome \<times> 's) \<Rightarrow> http_request \<Rightarrow> string \<Rightarrow> 's \<Rightarrow> http_response res \<times> 's" where
  "handle_exceptions route req request_id w =
     (case route req w of
        (Returned r, w) \<Rightarrow> (Inr r, w)
      | (Raised e, w) \<Rightarrow>
          (case e of
             HTTPException status_code detail headers \<Rightarrow>
               (http_exception_handler request_id status_code detail headers, w)
           | _ \<Rightarrow> (Inl e, w))
      | (Invalid_Request errors, w) \<Rightarrow> (validation_exception_handler request_id errors, w))"

section \<open>Request context, metrics and logs\<close>

datatype log_event =
    Request_Failed string string int
  | Request_Completed string string int int

text \<open>
  \<open>REQUEST_COUNT\<close> by method, path and status; \<open>REQUEST_LATENCY\<close> as the list of its observations by
  method and path; a log record carries the request id of the context in which it was made. Times
  are microseconds.
\<close>

record observability =
  request_id_ctx :: string
  request_count :: "string \<times> string \<times> int \<Rightarrow> nat"
  request_latency :: "string \<times> string \<Rightarrow> int list"
  log_records :: "(string \<times> log_event) list"

definition initial_observability :: observability where
  "initial_observability = \<lparr>request_id_ctx = ''-'', request_count = (\<lambda>_. 0),
     request_latency = (\<lambda>_. []), log_records = []\<rparr>"

definition count_request :: "string \<Rightarrow> string \<Rightarrow> int \<Rightarrow> observability \<Rightarrow> observability" where
  "count_request m p status_code ob = ob\<lparr>request_count :=
     (request_count ob)((m, p, status_code) := Suc (request_count ob (m, p, status_code)))\<rparr>"

definition observe_latency :: "string \<Rightarrow> string \<Rightarrow> int \<Rightarrow> observability \<Rightarrow> observability" where
  "observe_latency m p elapsed ob = ob\<lparr>request_latency :=
     (request_latency ob)((m, p) := request_latency ob (m, p) @ [elapsed])\<rparr>"

definition log_event :: "log_event \<Rightarrow> observability \<Rightarrow> observability" where
  "log_event ev ob = ob\<lparr>log_records := log_records ob @ [(request_id_ctx ob, ev)]\<rparr>"

text \<open>
  The root logger: its handlers, each with whether it has the filter that puts the request id on its records, and
  its level. \<open>setup_logging\<close> leaves a logger alone that has handlers already.
\<close>

record log_handler =
  request_id_filter :: bool
  log_format :: string
  log_datefmt :: string

record root_logger =
  log_handlers :: "log_handler list"
  log_level :: string

definition setup_logging :: "root_logger \<Rightarrow> root_logger" where
  "setup_logging logger =
     (if log_handlers logger \<noteq> [] then logger
      else
        (let handler = \<lparr>request_id_filter = True,
               log_format = ''%(asctime)s %(levelname)s request_id=%(request_id)s %(name)s %(message)s'',
               log_datefmt = ''%Y-%m-%dT%H:%M:%S''\<rparr>
         in logger\<lparr>log_level := ''INFO'', log_handlers := log_handlers logger @ [handler]\<rparr>))"

lemma setup_logging_once: "setup_logging (setup_logging logger) = setup_logging logger"
  by (simp add: setup_logging_def Let_def)

lemma setup_logging_filters:
  "list_all request_id_filter (log_handlers (setup_logging logger)) \<longleftrightarrow> list_all request_id_filter (log_handlers logger)"
  by (simp add: setup_logging_def Let_def)

section \<open>The middleware\<close>

text \<open>What a request meets: a new \<open>uuid4()\<close>, and the clock before and after the call.\<close>

record arrival =
  request :: http_request
  new_uuid :: string
  started :: int
  finished :: int

definition request_id_of :: "arrival \<Rightarrow> string" where
  "request_id_of a = (case header_get ''x-request-id'' (rq_headers (request a)) of
     None \<Rightarrow> new_uuid a | Some h \<Rightarrow> if h = [] then new_uuid a else h)"

definition observability_middleware ::
  "(http_request \<Rightarrow> string \<Rightarrow> 's \<Rightarrow> http_response res \<times> 's) \<Rightarrow> arrival \<Rightarrow> observability \<times> 's \<Rightarrow>
    http_response res \<times> observability \<times> 's" where
  "observability_middleware call_next a = (\<lambda>(ob, w).
     let request_id = request_id_of a;
         token = request_id_ctx ob;
         ob = ob\<lparr>request_id_ctx := request_id\<rparr>;
         path = rq_path (request a);
         method = rq_method (request a)
     in case call_next (request a) request_id w of
          (Inl e, w) \<Rightarrow>
            let elapsed = finished a - started a;
                ob = count_request method path 500 ob;
                ob = observe_latency method path elapsed ob;
                ob = log_event (Request_Failed method path elapsed) ob
            in (Inl e, ob\<lparr>request_id_ctx := token\<rparr>, w)
        | (Inr response, w) \<Rightarrow>
            let elapsed = finished a - started a;
                ob = count_request method path (rs_status response) ob;
                ob = observe_latency method path elapsed ob;
                response = response\<lparr>rs_headers := header_set ''X-Request-ID'' request_id (rs_headers response)\<rparr>;
                ob = log_event (Request_Completed method path (rs_status response) elapsed) ob
            in (Inr response, ob\<lparr>request_id_ctx := token\<rparr>, w))"

text \<open>
  The server around the middleware answers an exception with a response of its own,
  \<open>server_error\<close>, which belongs to the framework.
\<close>

definition serve_request ::
  "(http_request \<Rightarrow> string \<Rightarrow> 's \<Rightarrow> http_response res \<times> 's) \<Rightarrow> (py_exc \<Rightarrow> http_response) \<Rightarrow> arrival \<Rightarrow>
    observability \<times> 's \<Rightarrow> http_response \<times> observability \<times> 's" where
  "serve_request call_next server_error a st =
     (case observability_middleware call_next a st of
        (Inl e, st) \<Rightarrow> (server_error e, st)
      | (Inr response, st) \<Rightarrow> (response, st))"

fun serve_requests ::
  "(http_request \<Rightarrow> string \<Rightarrow> 's \<Rightarrow> http_response res \<times> 's) \<Rightarrow> (py_exc \<Rightarrow> http_response) \<Rightarrow> arrival list \<Rightarrow>
    observability \<times> 's \<Rightarrow> http_response list \<times> observability \<times> 's" where
  "serve_requests call_next server_error [] st = ([], st)"
| "serve_requests call_next server_error (a # as) st =
     (let (r, st) = serve_request call_next server_error a st;
          (rs, st) = serve_requests call_next server_error as st
      in (r # rs, st))"

text \<open>How an \<open>HTTPException\<close> of a handler comes out, and that the middleware keeps its hands off the state.\<close>

lemma serve_request_http_error:
  assumes "route (request a) w = (Raised (HTTPException s detail hs), w')"
  shows "fst (serve_request (handle_exceptions route) server_error a (ob, w)) =
      \<lparr>rs_status = s, rs_headers = header_set ''X-Request-ID'' (request_id_of a) hs,
       rs_body = error_payload (request_id_of a) (''http_'' @ int_str s) detail (J_Str detail)\<rparr>"
    and "snd (snd (serve_request (handle_exceptions route) server_error a (ob, w))) = w'"
  using assms
  by (simp_all add: serve_request_def observability_middleware_def handle_exceptions_def Let_def)

lemma handle_exceptions_state: "snd (handle_exceptions route req request_id w) = snd (route req w)"
  by (auto simp: handle_exceptions_def split: prod.split outcome.split py_exc.split)

lemma serve_request_state_kept:
  "snd (snd (serve_request call_next server_error a (ob, w))) = snd (call_next (request a) (request_id_of a) w)"
  by (auto simp: serve_request_def observability_middleware_def Let_def split: prod.split sum.split)

text \<open>\<open>GET /health\<close>.\<close>

definition health :: "(string \<times> string) list" where
  "health = [(''status'', ''ok'')]"

end
