(* ===== verification/Application_Properties.thy ===== *)
theory Application_Properties
  imports Application Bookings_Handlers Auth_Api Scenario
begin

text \<open>
  Properties of the application around the handlers: every request is counted, measured and logged
  once, under its own request id; errors of the handlers become the documented payload.
\<close>

section \<open>One request\<close>

definition route_handler ::
  "int \<Rightarrow> ('a \<Rightarrow> json) \<Rightarrow> (http_request \<Rightarrow> 's \<Rightarrow> 'a res \<times> 's) \<Rightarrow> http_request \<Rightarrow> 's \<Rightarrow> outcome \<times> 's" where
  "route_handler success body handler req w =
     (case handler req w of
        (Inl e, w) \<Rightarrow> (Raised e, w)
      | (Inr a, w) \<Rightarrow> (Returned \<lparr>rs_status = success, rs_headers = [], rs_body = body a\<rparr>, w))"

lemma serve_request_state:
  assumes "\<And>e. rs_status (server_error e) = 500"
    and "serve_request call_next server_error a (ob, w) = (r, ob', w')"
  shows "request_count ob' = (request_count ob)((rq_method (request a), rq_path (request a), rs_status r) :=
      Suc (request_count ob (rq_method (request a), rq_path (request a), rs_status r)))"
    and "request_latency ob' = (request_latency ob)((rq_method (request a), rq_path (request a)) :=
      request_latency ob (rq_method (request a), rq_path (request a)) @ [finished a - started a])"
  using assms(2)
  by (auto simp: serve_request_def observability_middleware_def Let_def count_request_def
      observe_latency_def log_event_def assms(1) split: prod.splits sum.splits)

lemma serve_request_log:
  assumes "serve_request call_next server_error a (ob, w) = (r, ob', w')"
  shows "request_id_ctx ob' = request_id_ctx ob"
    and "map fst (log_records ob') = map fst (log_records ob) @ [request_id_of a]"
  using assms
  by (auto simp: serve_request_def observability_middleware_def Let_def count_request_def
      observe_latency_def log_event_def split: prod.splits sum.splits)

lemma serve_requests_Cons:
  assumes "serve_requests call_next server_error (a # as) (ob, w) = (rs, ob', w')"
  obtains r rs1 ob1 w1 where "serve_request call_next server_error a (ob, w) = (r, ob1, w1)"
    and "serve_requests call_next server_error as (ob1, w1) = (rs1, ob', w')" and "rs = r # rs1"
  using assms by (auto simp: Let_def split: prod.splits)

section \<open>Runs of requests\<close>

text \<open>The requests of a run with a given method, path and status of the response.\<close>

definition answered :: "string \<Rightarrow> string \<Rightarrow> int \<Rightarrow> arrival list \<Rightarrow> http_response list \<Rightarrow> nat" where
  "answered m p s as rs = length (filter (\<lambda>(a, r). rq_method (request a) = m \<and> rq_path (request a) = p
     \<and> rs_status r = s) (zip as rs))"

text \<open>The metrics are the traffic: after any requests, with any handlers behind the middleware and
  exceptions included, the counter of a method, path and status has grown by the number of requests
  that were answered with that status, and the histogram of a method and path by one observation
  for each of its requests. The framework's answer to an exception has status 500.\<close>

theorem metrics_match_traffic:
  assumes "\<And>e. rs_status (server_error e) = 500"
    and "serve_requests call_next server_error as (ob, w) = (rs, ob', w')"
  shows "request_count ob' (m, p, s) = request_count ob (m, p, s) + answered m p s as rs \<and>
    length (request_latency ob' (m, p)) = length (request_latency ob (m, p))
      + length (filter (\<lambda>a. rq_method (request a) = m \<and> rq_path (request a) = p) as)"
  using assms(2)
proof (induction as arbitrary: ob w rs)
  case Nil
  then show ?case
    by (simp add: answered_def)
next
  case (Cons a as)
  obtain r rs1 ob1 w1 where one: "serve_request call_next server_error a (ob, w) = (r, ob1, w1)"
    and rest: "serve_requests call_next server_error as (ob1, w1) = (rs1, ob', w')" and "rs = r # rs1"
    using Cons.prems by (rule serve_requests_Cons)
  then show ?case
    using Cons.IH [OF rest] serve_request_state [OF assms(1) one] by (auto simp: answered_def)
qed

text \<open>Every request is logged exactly once, in order, under its own request id: the one its client
  sent, or a new one when it sent none or an empty one; and the context is as before afterwards.\<close>

theorem requests_logged_under_their_ids:
  "case serve_requests call_next server_error as (ob, w) of (rs, ob', w') \<Rightarrow>
     map fst (log_records ob') = map fst (log_records ob) @ map request_id_of as \<and>
     request_id_ctx ob' = request_id_ctx ob \<and> length rs = length as"
proof (induction as arbitrary: ob w)
  case Nil
  then show ?case by simp
next
  case (Cons a as)
  obtain rs ob' w' where all: "serve_requests call_next server_error (a # as) (ob, w) = (rs, ob', w')"
    by (metis prod.exhaust)
  then obtain r rs1 ob1 w1 where one: "serve_request call_next server_error a (ob, w) = (r, ob1, w1)"
    and rest: "serve_requests call_next server_error as (ob1, w1) = (rs1, ob', w')" and "rs = r # rs1"
    by (rule serve_requests_Cons)
  then show ?case
    using Cons.IH [of ob1 w1] serve_request_log [OF one] all by simp
qed

section \<open>Errors\<close>

text \<open>An \<open>HTTPException\<close> of a handler reaches the client as it was raised: its status, its detail in
  the payload of the documented shape, all its headers, and the request id both in the payload and in
  the header \<open>X-Request-ID\<close>, which replaces one the handler set. The handler's changes of the state
  stand, and the request is counted with that status.\<close>

theorem http_errors_reach_the_client:
  assumes "route (request a) w = (Raised (HTTPException s d hs), w')"
    and "serve_request (handle_exceptions route) server_error a (ob, w) = (r, ob', v)"
  shows "rs_status r = s \<and> v = w' \<and>
    rs_body r = error_payload (request_id_of a) (''http_'' @ int_str s) d (J_Str d) \<and>
    header_get ''X-Request-ID'' (rs_headers r) = Some (request_id_of a) \<and>
    (py_lower k = py_lower ''X-Request-ID'' \<or> header_get k (rs_headers r) = header_get k hs)"
proof -
  have "py_lower k = py_lower ''X-Request-ID'' \<or>
      header_get k (header_set ''X-Request-ID'' v hs) = header_get k hs" for v
    using header_get_set_other by blast
  moreover have "r = \<lparr>rs_status = s, rs_headers = header_set ''X-Request-ID'' (request_id_of a) hs,
      rs_body = error_payload (request_id_of a) (''http_'' @ int_str s) d (J_Str d)\<rparr>" "v = w'"
    using serve_request_http_error [where route = route and a = a, OF assms(1), of server_error ob] assms(2) by simp_all
  ultimately show ?thesis
    by simp
qed

text \<open>
  A request that does not fit its handler is answered 422 with the framework's list of errors, when JSON
  can hold it, and any other exception is answered by the framework, without the request id: \<open>observability_middleware\<close>
  raises it again after counting it.
\<close>

lemma invalid_requests_reach_the_client:
  assumes "route (request a) w = (Invalid_Request errors, w')" and "encodable errors"
  shows "fst (serve_request (handle_exceptions route) server_error a (ob, w)) =
    \<lparr>rs_status = 422, rs_headers = [(''x-request-id'', request_id_of a)],
     rs_body = error_payload (request_id_of a) ''validation_error'' ''Request validation failed'' errors\<rparr>"
proof -
  have "py_lower ''X-Request-ID'' = ''x-request-id''"
    by code_simp
  then show ?thesis
    using assms
    by (simp add: serve_request_def observability_middleware_def handle_exceptions_def Let_def
        validation_exception_handler_def json_response_def)
qed

lemma other_errors_lose_the_request_id:
  assumes "route (request a) w = (Raised e, w')" and "\<not> is_HTTPException e"
  shows "fst (serve_request (handle_exceptions route) server_error a (ob, w)) = server_error e"
  using assms
  by (cases e) (simp_all add: serve_request_def observability_middleware_def handle_exceptions_def Let_def)

text \<open>A client asks for a slot that is taken.\<close>

definition demo_arrival :: arrival where
  "demo_arrival = \<lparr>request = \<lparr>rq_method = ''POST'', rq_path = ''/bookings'',
     rq_headers = [(''X-Request-ID'', ''r-1'')], rq_query_string = [], rq_body = [],
     rq_client_host = None\<rparr>, new_uuid = ''u'', started = 0, finished = 1\<rparr>"

definition demo_route :: "http_request \<Rightarrow> db \<Rightarrow> outcome \<times> db" where
  "demo_route = route_handler 201 (\<lambda>r. J_Num (br_id r))
     (\<lambda>req d. serve_book demo_env (2, None, demo_user 2 ''b@x'' CLIENT) d)"

definition demo_server_error :: "py_exc \<Rightarrow> http_response" where
  "demo_server_error e = \<lparr>rs_status = 500, rs_headers = [], rs_body = J_Str ''Internal Server Error''\<rparr>"

lemma demo_route_conflict:
  "demo_route (request demo_arrival) demo_db = (Raised (http 409 ''Slot already booked''), demo_db)"
  by code_simp

theorem http_errors_reach_the_client_witness:
  "rs_status (fst (serve_request (handle_exceptions demo_route) demo_server_error demo_arrival
     (initial_observability, demo_db))) = 409"
proof -
  obtain r ob' v where "serve_request (handle_exceptions demo_route) demo_server_error demo_arrival
      (initial_observability, demo_db) = (r, ob', v)"
    by (metis prod.exhaust)
  with http_errors_reach_the_client [OF demo_route_conflict this] show ?thesis
    by simp
qed

theorem metrics_match_traffic_witness:
  "request_count (fst (snd (serve_requests (handle_exceptions demo_route) demo_server_error [demo_arrival]
     (initial_observability, demo_db)))) (''POST'', ''/bookings'', 409) = 1"
proof -
  have status: "serve_requests (handle_exceptions demo_route) demo_server_error [demo_arrival]
      (initial_observability, demo_db) = (rs, ob', v) \<Longrightarrow> answered ''POST'' ''/bookings'' 409 [demo_arrival] rs = 1"
    for rs ob' v
    by (auto simp: serve_request_def observability_middleware_def handle_exceptions_def Let_def
        answered_def demo_route_conflict)
      (simp_all add: demo_arrival_def)
  obtain rs ob' v where run: "serve_requests (handle_exceptions demo_route) demo_server_error [demo_arrival]
      (initial_observability, demo_db) = (rs, ob', v)"
    by (metis prod.exhaust)
  have "rs_status (demo_server_error e) = 500" for e
    by (simp add: demo_server_error_def)
  from metrics_match_traffic [OF this run, of "''POST''" "''/bookings''" 409] status [OF run] run show ?thesis
    by (simp add: initial_observability_def)
qed

end
