(* ===== verification/Concurrent_Booking.thy ===== *)
theory Concurrent_Booking
  imports Booking_Service
begin

text \<open>
  Several calls of \<open>create_booking_for_slot\<close> (\<^verbatim>\<open>app/services/booking_service.py\<close>) at the same time, on
  PostgreSQL: each call is a transaction of its own, its statements interleave with those of the
  others in any order, and any statement may fail. A transaction is at one of the statements of the
  function; \<open>advance\<close> executes that statement, as PostgreSQL does at its default isolation level:
    \<^item> a query sees what is committed when it runs, and what its own transaction has done;
    \<^item> \<open>SELECT ... FOR UPDATE NOWAIT\<close> locks the row of the slot until the transaction ends, and fails
      with \<open>55P03\<close> when another transaction has it;
    \<^item> an insert waits for a transaction that has inserted the same unique key, and fails with
      \<open>IntegrityError\<close> when the key is committed; an id comes from a sequence and is never reused.

  The theory shows that the calls look atomic: whatever the interleaving, the database and the
  answers are those of calls served one at a time by the reference function \<open>create_booking_ref\<close>.
\<close>

section \<open>Transactions\<close>

record tx =
  tx_slot :: int
  tx_client :: int
  tx_key :: "string option"
  tx_created :: instant

datatype pc =
    Checking
  | Locking
  | Claiming
  | Inserting
  | Committing booking
  | Refreshing booking
  | Rechecking bool
  | Done "booking res"

text \<open>\<open>Rechecking True\<close> is the query of the handler of \<open>IntegrityError\<close>.\<close>

record system =
  database :: db
  next_id :: int
  pcs :: "pc list"

fun holds_lock :: "pc \<Rightarrow> bool" where
  "holds_lock Claiming = True"
| "holds_lock Inserting = True"
| "holds_lock (Committing b) = True"
| "holds_lock _ = False"

definition locked :: "tx list \<Rightarrow> system \<Rightarrow> int \<Rightarrow> bool" where
  "locked txs s slot \<longleftrightarrow> list_ex (\<lambda>(x, p). tx_slot x = slot \<and> holds_lock p) (zip txs (pcs s))"

definition lock_not_available :: "driver_error option" where
  "lock_not_available = Some \<lparr>sqlstate = Some PG_LOCK_NOT_AVAILABLE_SQLSTATE, pgcode = None\<rparr>"

text \<open>The handler of \<open>OperationalError\<close>.\<close>

definition driver_failure :: "driver_error option \<Rightarrow> booking res" where
  "driver_failure err = (if is_pg_lock_not_available err then Inl (http 409 LOCK_CONFLICT_DETAIL)
     else Inl (OperationalError err))"

definition tx_booking :: "tx \<Rightarrow> int \<Rightarrow> booking" where
  "tx_booking x i = \<lparr>b_id = i, slot_id = tx_slot x, client_id = tx_client x, idempotency_key = tx_key x,
     status = CONFIRMED, b_created_at = tx_created x, cancelled_at = None\<rparr>"

definition same_key :: "tx \<Rightarrow> booking \<Rightarrow> bool" where
  "same_key x b \<longleftrightarrow> tx_key x \<noteq> None \<and> client_id b = tx_client x \<and> idempotency_key b = tx_key x"

fun pending_key :: "tx \<Rightarrow> pc \<Rightarrow> bool" where
  "pending_key x (Committing b) = same_key x b"
| "pending_key x _ = False"

definition at :: "nat \<Rightarrow> pc \<Rightarrow> system \<Rightarrow> system" where
  "at i p s = s\<lparr>pcs := (pcs s)[i := p]\<rparr>"

text \<open>\<open>raise ... Slot already booked\<close>, after the query for the key when there is one.\<close>

definition after_rollback :: "tx \<Rightarrow> bool \<Rightarrow> pc" where
  "after_rollback x handler = (if key_given (tx_key x) then Rechecking handler
     else Done (Inl (http 409 SLOT_ALREADY_BOOKED_DETAIL)))"

text \<open>
  The next statement of transaction \<open>i\<close>; \<open>f\<close> is the driver's error when the statement fails. \<open>None\<close>
  when the transaction is over or waits.
\<close>

definition advance :: "tx list \<Rightarrow> nat \<Rightarrow> driver_error option option \<Rightarrow> system \<Rightarrow> system option" where
  "advance txs i f s =
     (let x = txs ! i; d = database s in
      case (pcs s ! i, f) of
        (Done r, _) \<Rightarrow> None
      | (Rechecking True, Some err) \<Rightarrow> Some (at i (Done (Inl (OperationalError err))) s)
      | (_, Some err) \<Rightarrow> Some (at i (Done (driver_failure err)) s)
      | (Checking, None) \<Rightarrow>
          (case replay (tx_slot x) (tx_client x) (tx_key x) d of
             Some r \<Rightarrow> Some (at i (Done r) s)
           | None \<Rightarrow> Some (at i Locking s))
      | (Locking, None) \<Rightarrow>
          (case find_by ts_id (tx_slot x) (time_slots d) of
             None \<Rightarrow> Some (at i (Done (Inl (http 404 ''Slot not found''))) s)
           | Some t \<Rightarrow>
               if tx_slot x = 0 then Some (at i (Done (Inl (http 404 ''Slot not found''))) s)
               else if locked txs s (tx_slot x)
                 then Some (at i (Done (driver_failure lock_not_available)) s)
               else Some (at i Claiming s))
      | (Claiming, None) \<Rightarrow>
          (if claim_rowcount (tx_slot x) d \<noteq> 1 then Some (at i (after_rollback x False) s)
           else Some (at i Inserting s))
      | (Inserting, None) \<Rightarrow>
          (if list_ex (pending_key x) (pcs s) then None
           else if list_ex (same_key x) (bookings d)
             then Some (at i (after_rollback x True) (s\<lparr>next_id := next_id s + 1\<rparr>))
           else Some (at i (Committing (tx_booking x (next_id s))) (s\<lparr>next_id := next_id s + 1\<rparr>)))
      | (Committing b, None) \<Rightarrow>
          Some (at i (Refreshing b) (s\<lparr>database := add_booking b (claim_slot (tx_slot x) d)\<rparr>))
      | (Refreshing b, None) \<Rightarrow> Some (at i (Done (Inr b)) s)
      | (Rechecking handler, None) \<Rightarrow>
          (case replay (tx_slot x) (tx_client x) (tx_key x) d of
             Some r \<Rightarrow> Some (at i (Done r) s)
           | None \<Rightarrow> Some (at i (Done (Inl (http 409 SLOT_ALREADY_BOOKED_DETAIL))) s)))"

definition start_pc :: "tx \<Rightarrow> pc" where
  "start_pc x = (if key_given (tx_key x) then Checking else Locking)"

definition start :: "tx list \<Rightarrow> db \<Rightarrow> int \<Rightarrow> system" where
  "start txs d n = \<lparr>database = d, next_id = n, pcs = map start_pc txs\<rparr>"

inductive step :: "tx list \<Rightarrow> system \<Rightarrow> system \<Rightarrow> bool" for txs where
  step: "i < length txs \<Longrightarrow> advance txs i f s = Some s' \<Longrightarrow> step txs s s'"

inductive_cases stepE: "step txs s s'"

abbreviation reaches :: "tx list \<Rightarrow> system \<Rightarrow> system \<Rightarrow> bool" where
  "reaches txs \<equiv> (step txs)\<^sup>*\<^sup>*"

text \<open>A schedule: which transaction moves next, and whether its statement fails.\<close>

fun run_schedule :: "tx list \<Rightarrow> (nat \<times> driver_error option option) list \<Rightarrow> system \<Rightarrow> system option" where
  "run_schedule txs [] s = Some s"
| "run_schedule txs ((i, f) # sch) s =
     (if i < length txs
      then (case advance txs i f s of None \<Rightarrow> None | Some s \<Rightarrow> run_schedule txs sch s)
      else None)"

lemma run_schedule_steps: "run_schedule txs sch s = Some s' \<Longrightarrow> (step txs ^^ length sch) s s'"
proof (induction sch arbitrary: s)
  case Nil
  then show ?case by simp
next
  case (Cons q sch)
  obtain i f where q: "q = (i, f)"
    by (cases q)
  then obtain s1 where "i < length txs" "advance txs i f s = Some s1" "run_schedule txs sch s1 = Some s'"
    using Cons.prems by (auto split: if_splits option.splits)
  then have "step txs s s1" "(step txs ^^ length sch) s1 s'"
    using Cons.IH step.intros by blast+
  then show ?case
    using relpowp_Suc_I2 [of "step txs" s s1 "length sch" s'] by simp
qed

lemma run_schedule_reaches: "run_schedule txs sch s = Some s' \<Longrightarrow> reaches txs s s'"
  by (rule relpowp_imp_rtranclp) (rule run_schedule_steps)

section \<open>One call at a time\<close>

text \<open>
  The specification: a call is served at one moment by the reference function, with the id and the
  time that the server gives the new booking, or it is refused and changes nothing; and an answer
  may be lost on the way back.
\<close>

definition serial_env :: "int \<Rightarrow> instant \<Rightarrow> env" where
  "serial_env i t = \<lparr>postgresql = True, now = t, generated = (\<lambda>_ _. (i, t)), fault = (\<lambda>_. None)\<rparr>"

definition refusal :: "booking res \<Rightarrow> bool" where
  "refusal r \<longleftrightarrow> (\<exists>err. r = Inl (OperationalError err)) \<or> r = Inl (http 409 LOCK_CONFLICT_DETAIL)"

definition serve_tx :: "tx \<Rightarrow> int \<Rightarrow> db \<Rightarrow> booking res \<times> db" where
  "serve_tx x i = create_booking_ref (serial_env i (tx_created x)) (tx_slot x) (tx_client x) (tx_key x)"

type_synonym serial = "db \<times> booking res option list"

inductive serial_step :: "tx list \<Rightarrow> serial \<Rightarrow> serial \<Rightarrow> bool" for txs where
  serve: "i < length txs \<Longrightarrow> out ! i = None \<Longrightarrow> n \<notin> b_id ` set (bookings d) \<Longrightarrow>
    serve_tx (txs ! i) n d = (r, d') \<Longrightarrow> serial_step txs (d, out) (d', out[i := Some r])"
| refuse: "i < length txs \<Longrightarrow> out ! i = None \<Longrightarrow> refusal r \<Longrightarrow>
    serial_step txs (d, out) (d, out[i := Some r])"
| lose: "i < length txs \<Longrightarrow> out ! i \<noteq> None \<Longrightarrow> refusal r \<Longrightarrow>
    serial_step txs (d, out) (d, out[i := Some r])"

section \<open>The invariant\<close>

definition slot_there :: "db \<Rightarrow> int \<Rightarrow> bool" where
  "slot_there d slot \<longleftrightarrow> slot \<noteq> 0 \<and> find_by ts_id slot (time_slots d) \<noteq> None"

definition slot_free :: "db \<Rightarrow> int \<Rightarrow> bool" where
  "slot_free d slot \<longleftrightarrow> (\<exists>t. find_by ts_id slot (time_slots d) = Some t \<and> \<not> is_booked t)"

definition new_key :: "tx \<Rightarrow> db \<Rightarrow> bool" where
  "new_key x d \<longleftrightarrow> \<not> list_ex (same_key x) (bookings d)"

fun pc_ok :: "tx \<Rightarrow> system \<Rightarrow> pc \<Rightarrow> bool" where
  "pc_ok x s Claiming = slot_there (database s) (tx_slot x)"
| "pc_ok x s Inserting = (slot_there (database s) (tx_slot x) \<and> slot_free (database s) (tx_slot x))"
| "pc_ok x s (Committing b) = (slot_there (database s) (tx_slot x) \<and> slot_free (database s) (tx_slot x) \<and>
     b = tx_booking x (b_id b) \<and> b_id b < next_id s \<and> b_id b \<notin> b_id ` set (bookings (database s)) \<and>
     new_key x (database s))"
| "pc_ok x s (Rechecking handler) = (slot_there (database s) (tx_slot x) \<and>
     (slot_free (database s) (tx_slot x) \<longrightarrow>
      replay (tx_slot x) (tx_client x) (tx_key x) (database s) \<noteq> None))"
| "pc_ok x s _ = True"

text \<open>Two transactions that hold locks hold different ones, and two pending inserts differ.\<close>

fun compatible :: "tx \<Rightarrow> pc \<Rightarrow> tx \<Rightarrow> pc \<Rightarrow> bool" where
  "compatible x (Committing b) y (Committing c) = (tx_slot x \<noteq> tx_slot y \<and> b_id b \<noteq> b_id c \<and> \<not> same_key x c)"
| "compatible x p y q = (holds_lock p \<and> holds_lock q \<longrightarrow> tx_slot x \<noteq> tx_slot y)"

definition tx_ok :: "db \<Rightarrow> tx \<Rightarrow> bool" where
  "tx_ok d x \<longleftrightarrow> tx_client x \<in> u_id ` set (users d) \<and> tx_key x \<noteq> Some []"

definition system_ok :: "tx list \<Rightarrow> system \<Rightarrow> bool" where
  "system_ok txs s \<longleftrightarrow> length (pcs s) = length txs \<and> schema_ok (database s) \<and>
     (\<forall>b \<in> set (bookings (database s)). b_id b < next_id s) \<and>
     (\<forall>i < length txs. tx_ok (database s) (txs ! i)) \<and>
     (\<forall>i < length txs. pc_ok (txs ! i) s (pcs s ! i)) \<and>
     (\<forall>i < length txs. \<forall>j < length txs. i \<noteq> j \<longrightarrow>
        compatible (txs ! i) (pcs s ! i) (txs ! j) (pcs s ! j))"

lemma system_okI:
  assumes "length (pcs s) = length txs" and "schema_ok (database s)"
    and "\<And>b. b \<in> set (bookings (database s)) \<Longrightarrow> b_id b < next_id s"
    and "\<And>i. i < length txs \<Longrightarrow> tx_ok (database s) (txs ! i)"
    and "\<And>i. i < length txs \<Longrightarrow> pc_ok (txs ! i) s (pcs s ! i)"
    and "\<And>i j. i < length txs \<Longrightarrow> j < length txs \<Longrightarrow> i \<noteq> j \<Longrightarrow>
      compatible (txs ! i) (pcs s ! i) (txs ! j) (pcs s ! j)"
  shows "system_ok txs s"
  using assms by (auto simp: system_ok_def)

lemma system_okD:
  assumes "system_ok txs s"
  shows "length (pcs s) = length txs" "schema_ok (database s)"
    "b \<in> set (bookings (database s)) \<Longrightarrow> b_id b < next_id s"
    "i < length txs \<Longrightarrow> tx_ok (database s) (txs ! i)"
    "i < length txs \<Longrightarrow> pc_ok (txs ! i) s (pcs s ! i)"
    "i < length txs \<Longrightarrow> j < length txs \<Longrightarrow> i \<noteq> j \<Longrightarrow>
      compatible (txs ! i) (pcs s ! i) (txs ! j) (pcs s ! j)"
  using assms by (auto simp: system_ok_def)

lemma at_fields [simp]:
  "database (at i p s) = database s" "next_id (at i p s) = next_id s" "pcs (at i p s) = (pcs s)[i := p]"
  by (simp_all add: at_def)

lemma pc_ok_next_id: "pc_ok x s p \<Longrightarrow> pc_ok x (s\<lparr>next_id := next_id s + 1\<rparr>) p"
  by (cases p) auto

lemma pc_ok_same:
  assumes "database s' = database s" and "next_id s \<le> next_id s'" and "pc_ok x s p"
  shows "pc_ok x s' p"
  using assms by (cases p) auto

text \<open>A transaction moves, the database stays.\<close>

lemma move_ok:
  assumes ok: "system_ok txs s" and i: "i < length txs"
    and db: "database s' = database s" and n: "next_id s \<le> next_id s'" and pcs: "pcs s' = (pcs s)[i := p]"
    and p: "pc_ok (txs ! i) s' p"
    and c: "\<And>j. j < length txs \<Longrightarrow> j \<noteq> i \<Longrightarrow> compatible (txs ! i) p (txs ! j) (pcs s ! j) \<and>
      compatible (txs ! j) (pcs s ! j) (txs ! i) p"
  shows "system_ok txs s'"
proof (rule system_okI)
  show "length (pcs s') = length txs" "schema_ok (database s')"
    using system_okD(1,2) [OF ok] db pcs by simp_all
  show "b_id b < next_id s'" if "b \<in> set (bookings (database s'))" for b
    using system_okD(3) [OF ok] that db n by fastforce
  show "tx_ok (database s') (txs ! j)" if "j < length txs" for j
    using system_okD(4) [OF ok that] db by simp
  show "pc_ok (txs ! j) s' (pcs s' ! j)" if "j < length txs" for j
    using system_okD(1) [OF ok] system_okD(5) [OF ok that] p pc_ok_same [OF db n] that
    by (cases "j = i") (simp_all add: pcs)
  show "compatible (txs ! j) (pcs s' ! j) (txs ! k) (pcs s' ! k)"
    if "j < length txs" "k < length txs" "j \<noteq> k" for j k
    using system_okD(1) [OF ok] system_okD(6) [OF ok that] c that i
    by (cases "j = i"; cases "k = i") (simp_all add: pcs)
qed

lemma compatible_free:
  assumes "\<not> holds_lock p"
  shows "compatible x p y q" "compatible y q x p"
  using assms by (cases p; cases q; simp)+

lemma compatible_locks: "compatible x p y q \<Longrightarrow> holds_lock p \<Longrightarrow> holds_lock q \<Longrightarrow> tx_slot x \<noteq> tx_slot y"
  by (cases p; cases q; simp)

lemma compatible_no_insert:
  assumes "holds_lock p \<Longrightarrow> holds_lock q \<Longrightarrow> tx_slot x \<noteq> tx_slot y" and "\<And>b. p \<noteq> Committing b"
  shows "compatible x p y q" "compatible y q x p"
  using assms by (cases p; cases q; auto)+

section \<open>The cases of a step\<close>

lemma driver_failure_refusal [simp]: "refusal (driver_failure err)" "refusal (Inl (OperationalError err))"
  by (auto simp: refusal_def driver_failure_def)

lemma refused_at: "refusal r \<Longrightarrow> \<exists>r'. refusal r' \<and> at i (Done r) s = at i (Done r') s"
  by blast

lemma advance_fails:
  assumes "advance txs i (Some err) s = Some s'"
  shows "(\<forall>r. pcs s ! i \<noteq> Done r) \<and> (\<exists>r. refusal r \<and> s' = at i (Done r) s)"
  using assms unfolding advance_def
  by (cases "pcs s ! i") (auto simp: Let_def split: bool.splits intro!: refused_at)

lemma advance_checking:
  assumes "pcs s ! i = Checking" and "advance txs i None s = Some s'"
  shows "(replay (tx_slot (txs ! i)) (tx_client (txs ! i)) (tx_key (txs ! i)) (database s) = None \<and>
      s' = at i Locking s) \<or>
    (\<exists>r. replay (tx_slot (txs ! i)) (tx_client (txs ! i)) (tx_key (txs ! i)) (database s) = Some r \<and>
      s' = at i (Done r) s)"
  using assms by (auto simp: advance_def Let_def split: option.splits)

lemma advance_locking:
  assumes "pcs s ! i = Locking" and "advance txs i None s = Some s'"
  shows "(\<not> slot_there (database s) (tx_slot (txs ! i)) \<and> s' = at i (Done (Inl (http 404 ''Slot not found''))) s) \<or>
    (slot_there (database s) (tx_slot (txs ! i)) \<and>
      ((locked txs s (tx_slot (txs ! i)) \<and> s' = at i (Done (driver_failure lock_not_available)) s) \<or>
       (\<not> locked txs s (tx_slot (txs ! i)) \<and> s' = at i Claiming s)))"
  using assms by (auto simp: advance_def Let_def slot_there_def split: option.splits if_splits)

lemma advance_claiming:
  assumes "pcs s ! i = Claiming" and "advance txs i None s = Some s'"
  shows "s' = (if claim_rowcount (tx_slot (txs ! i)) (database s) = 1 then at i Inserting s
    else at i (after_rollback (txs ! i) False) s)"
  using assms by (auto simp: advance_def Let_def)

lemma advance_inserting:
  assumes "pcs s ! i = Inserting" and "advance txs i None s = Some s'"
  shows "\<not> list_ex (pending_key (txs ! i)) (pcs s) \<and>
    s' = at i (if new_key (txs ! i) (database s) then Committing (tx_booking (txs ! i) (next_id s))
      else after_rollback (txs ! i) True) (s\<lparr>next_id := next_id s + 1\<rparr>)"
  using assms by (auto simp: advance_def Let_def new_key_def split: if_splits)

lemma advance_committing:
  assumes "pcs s ! i = Committing b" and "advance txs i None s = Some s'"
  shows "s' = at i (Refreshing b)
    (s\<lparr>database := add_booking b (claim_slot (tx_slot (txs ! i)) (database s))\<rparr>)"
  using assms by (auto simp: advance_def Let_def)

lemma advance_refreshing:
  assumes "pcs s ! i = Refreshing b" and "advance txs i None s = Some s'"
  shows "s' = at i (Done (Inr b)) s"
  using assms by (auto simp: advance_def Let_def)

lemma advance_rechecking:
  assumes "pcs s ! i = Rechecking handler" and "advance txs i None s = Some s'"
  shows "s' = at i (Done (case replay (tx_slot (txs ! i)) (tx_client (txs ! i)) (tx_key (txs ! i)) (database s) of
      Some r \<Rightarrow> r | None \<Rightarrow> Inl (http 409 SLOT_ALREADY_BOOKED_DETAIL))) s"
  using assms by (auto simp: advance_def Let_def split: option.splits bool.splits)

lemma advance_done: "pcs s ! i = Done r \<Longrightarrow> advance txs i f s = None"
  by (auto simp: advance_def Let_def split: option.splits)

section \<open>Facts about slots and keys\<close>

lemma slot_free_rowcount:
  assumes "schema_ok d"
  shows "claim_rowcount slot d = 1 \<longleftrightarrow> slot_free d slot"
  using claim_rowcount_eq [OF assms] by (auto simp: slot_free_def split: option.splits)

lemma new_key_replay:
  assumes "new_key x d"
  shows "replay (tx_slot x) (tx_client x) (tx_key x) d = None"
  using assms
  by (auto simp: new_key_def same_key_def replay_def get_booking_by_idempotency_key_def existing_outcome_def
      list_ex_iff find_Some_iff split: option.splits)

lemma replay_new_key:
  assumes "\<not> new_key x d" and "tx_key x \<noteq> Some []"
  shows "key_given (tx_key x)" "replay (tx_slot x) (tx_client x) (tx_key x) d \<noteq> None"
  using assms
  by (auto simp: new_key_def same_key_def replay_def key_given_def get_booking_by_idempotency_key_def
      existing_outcome_def list_ex_iff find_None_iff split: option.splits)

lemma locked_iff:
  assumes "length (pcs s) = length txs"
  shows "locked txs s slot \<longleftrightarrow> (\<exists>j < length txs. tx_slot (txs ! j) = slot \<and> holds_lock (pcs s ! j))"
  using assms by (auto simp: locked_def list_ex_iff set_zip)

section \<open>Every step keeps the invariant\<close>

text \<open>The commit: the only step that changes the database.\<close>

lemma replay_iff:
  "replay slot client key d = None \<longleftrightarrow> \<not> (key_given key \<and>
     (\<exists>b \<in> set (bookings d). client_id b = client \<and> idempotency_key b = key))"
proof (cases "key_given key")
  case True
  then obtain k where k: "key = Some k" "k \<noteq> []"
    by (auto simp: key_given_def split: option.splits)
  have "replay slot client key d = None \<longleftrightarrow>
      find (\<lambda>b. client_id b = client \<and> idempotency_key b = Some k) (bookings d) = None"
    by (simp add: replay_def existing_outcome_def get_booking_by_idempotency_key_def k split: option.splits)
  then show ?thesis
    using True by (auto simp: find_None_iff k)
qed (simp add: replay_not_given)

lemma replay_grows:
  assumes "replay slot client key d \<noteq> None"
  shows "replay slot client key (add_booking b (set_booked u v d)) \<noteq> None"
  using assms by (auto simp: replay_iff)

lemma same_key_booking: "same_key y (tx_booking x n) \<longleftrightarrow> tx_key y \<noteq> None \<and> tx_client y = tx_client x \<and> tx_key y = tx_key x"
  by (auto simp: same_key_def tx_booking_def)

lemma tx_booking_fields [simp]:
  "b_id (tx_booking x n) = n" "slot_id (tx_booking x n) = tx_slot x" "client_id (tx_booking x n) = tx_client x"
  "idempotency_key (tx_booking x n) = tx_key x" "status (tx_booking x n) = CONFIRMED"
  by (simp_all add: tx_booking_def)

lemma new_key_add:
  assumes "new_key y d" and "\<not> same_key y b"
  shows "new_key y (add_booking b (set_booked slot v d))"
  using assms by (simp add: new_key_def)

lemma schema_ok_commit:
  assumes "schema_ok d" and "tx_ok d x" and "slot_there d (tx_slot x)" and "n \<notin> b_id ` set (bookings d)"
    and "new_key x d"
  shows "schema_ok (add_booking (tx_booking x n) (set_booked (tx_slot x) True d))"
  unfolding add_booking_set_booked schema_ok_set_booked
proof (rule schema_ok_add_booking)
  show "slot_id (tx_booking x n) \<in> ts_id ` set (time_slots d)"
    using assms(3) by (auto simp: slot_there_def dest: find_slot_mem)
  show "(client_id (tx_booking x n), k) \<notin> set (idempotency_pairs (bookings d))"
    if "idempotency_key (tx_booking x n) = Some k" for k
    using that assms(5) by (force simp: set_idempotency_pairs new_key_def same_key_def list_ex_iff)
qed (use assms in \<open>simp_all add: tx_ok_def\<close>)

lemma pc_ok_commit:
  assumes "pc_ok y s p"
    and "holds_lock p \<Longrightarrow> tx_slot y \<noteq> tx_slot x"
    and "\<And>c. p = Committing c \<Longrightarrow> b_id c \<noteq> n \<and> \<not> same_key y (tx_booking x n)"
  shows "pc_ok y (s\<lparr>database := add_booking (tx_booking x n) (set_booked (tx_slot x) True (database s))\<rparr>) p"
proof -
  have there: "slot_there (add_booking b (set_booked u v d)) w = slot_there d w" for b u v d w
    by (auto simp: slot_there_def)
  have free: "slot_free (add_booking b (set_booked u True d)) w \<longleftrightarrow> slot_free d w \<and> w \<noteq> u" for b u d w
    by (auto simp: slot_free_def)
  show ?thesis
    using assms replay_grows new_key_add by (cases p) (auto simp: there free)
qed

lemma commit_step_ok:
  assumes ok: "system_ok txs s" and i: "i < length txs" and pc: "pcs s ! i = Committing b"
    and s': "s' = at i (Refreshing b) (s\<lparr>database := add_booking b (claim_slot (tx_slot (txs ! i)) (database s))\<rparr>)"
  shows "system_ok txs s'"
proof -
  let ?x = "txs ! i"
  let ?d = "add_booking b (set_booked (tx_slot ?x) True (database s))"
  have sch: "schema_ok (database s)"
    using system_okD(2) [OF ok] .
  have there: "slot_there (database s) (tx_slot ?x)" and free: "slot_free (database s) (tx_slot ?x)"
    and b: "b = tx_booking ?x (b_id b)" and n: "b_id b < next_id s"
    and fresh: "b_id b \<notin> b_id ` set (bookings (database s))" and key: "new_key ?x (database s)"
    using system_okD(5) [OF ok i] pc by simp_all
  have "claim_slot (tx_slot ?x) (database s) = set_booked (tx_slot ?x) True (database s)"
    using free claim_slot_eq [OF sch] by (auto simp: slot_free_def)
  then have db: "database s' = ?d" and nid: "next_id s' = next_id s" and pcs: "pcs s' = (pcs s)[i := Refreshing b]"
    by (simp_all add: s')
  have len: "length (pcs s) = length txs"
    using system_okD(1) [OF ok] .
  show ?thesis
  proof (rule system_okI)
    show "length (pcs s') = length txs"
      using len by (simp add: pcs)
    show "schema_ok (database s')"
      using schema_ok_commit [OF sch system_okD(4) [OF ok i] there fresh key] b by (simp add: db)
    show "b_id c < next_id s'" if "c \<in> set (bookings (database s'))" for c
      using that system_okD(3) [OF ok] n by (auto simp: db nid)
    show "tx_ok (database s') (txs ! j)" if "j < length txs" for j
      using system_okD(4) [OF ok that] by (simp add: db tx_ok_def)
    show "compatible (txs ! j) (pcs s' ! j) (txs ! k) (pcs s' ! k)"
      if "j < length txs" "k < length txs" "j \<noteq> k" for j k
      using system_okD(6) [OF ok that] compatible_free [of "Refreshing b"] len that i
      by (cases "j = i"; cases "k = i") (simp_all add: pcs)
    show "pc_ok (txs ! j) s' (pcs s' ! j)" if j: "j < length txs" for j
    proof (cases "j = i")
      case True
      then show ?thesis using len i by (simp add: pcs)
    next
      case False
      have c: "compatible (txs ! j) (pcs s ! j) ?x (Committing b)"
        using system_okD(6) [OF ok j i False] pc by simp
      have "pc_ok (txs ! j) (s\<lparr>database := add_booking (tx_booking ?x (b_id b))
          (set_booked (tx_slot ?x) True (database s))\<rparr>) (pcs s ! j)"
      proof (rule pc_ok_commit [OF system_okD(5) [OF ok j]])
        show "tx_slot (txs ! j) \<noteq> tx_slot ?x" if "holds_lock (pcs s ! j)"
          using compatible_locks [OF c that] by simp
        show "b_id c' \<noteq> b_id b \<and> \<not> same_key (txs ! j) (tx_booking ?x (b_id b))"
          if "pcs s ! j = Committing c'" for c'
          using c that b by simp
      qed
      then show ?thesis
        using pc_ok_same [of s' "s\<lparr>database := ?d\<rparr>"] b db nid False len i by (simp add: pcs)
    qed
  qed
qed

text \<open>A transaction that holds no lock afterwards.\<close>

lemma unlocked_move_ok:
  assumes "system_ok txs s" and "i < length txs" and "database s' = database s" and "next_id s \<le> next_id s'"
    and "pcs s' = (pcs s)[i := p]" and "pc_ok (txs ! i) s' p" and "\<not> holds_lock p"
  shows "system_ok txs s'"
  using assms by (intro move_ok [OF assms(1-6)]) (simp add: compatible_free)

lemma after_rollback_unlocked [simp]: "\<not> holds_lock (after_rollback x h)"
  by (simp add: after_rollback_def)

lemma after_rollback_ok:
  assumes "slot_there (database s) (tx_slot x)"
    and "slot_free (database s) (tx_slot x) \<Longrightarrow>
      replay (tx_slot x) (tx_client x) (tx_key x) (database s) \<noteq> None"
  shows "pc_ok x s (after_rollback x h)"
  using assms by (auto simp: after_rollback_def)

lemma advance_ok:
  assumes ok: "system_ok txs s" and i: "i < length txs" and adv: "advance txs i f s = Some s'"
  shows "system_ok txs s'"
proof (cases f)
  case (Some err)
  then show ?thesis
    using advance_fails [of txs i err s s'] adv by (auto intro!: unlocked_move_ok [OF ok i])
next
  case None
  note adv = adv [unfolded None]
  let ?x = "txs ! i"
  have len: "length (pcs s) = length txs"
    using system_okD(1) [OF ok] .
  have sch: "schema_ok (database s)"
    using system_okD(2) [OF ok] .
  have pc: "pc_ok ?x s (pcs s ! i)"
    using system_okD(5) [OF ok i] .
  show ?thesis
  proof (cases "pcs s ! i")
    case Checking
    then show ?thesis
      using advance_checking [OF _ adv] by (auto intro!: unlocked_move_ok [OF ok i])
  next
    case Locking
    have move: "system_ok txs s'" if "\<not> locked txs s (tx_slot ?x)" "slot_there (database s) (tx_slot ?x)"
      "s' = at i Claiming s"
    proof (rule move_ok [OF ok i, of _ Claiming])
      show "compatible ?x Claiming (txs ! j) (pcs s ! j) \<and> compatible (txs ! j) (pcs s ! j) ?x Claiming"
        if "j < length txs" "j \<noteq> i" for j
        using \<open>\<not> locked txs s (tx_slot ?x)\<close> that locked_iff [OF len]
        by (intro conjI; intro compatible_no_insert) auto
    qed (use that in simp_all)
    have "system_ok txs s'" if "s' = at i (Done r) s" for r
      using that by (intro unlocked_move_ok [OF ok i]) auto
    then show ?thesis
      using advance_locking [OF Locking adv] move by blast
  next
    case Claiming
    have there: "slot_there (database s) (tx_slot ?x)"
      using pc Claiming by simp
    show ?thesis
    proof (cases "slot_free (database s) (tx_slot ?x)")
      case True
      then have s': "s' = at i Inserting s"
        using advance_claiming [OF Claiming adv] slot_free_rowcount [OF sch] by simp
      show ?thesis
      proof (rule move_ok [OF ok i, of _ Inserting])
        show "compatible ?x Inserting (txs ! j) (pcs s ! j) \<and> compatible (txs ! j) (pcs s ! j) ?x Inserting"
          if "j < length txs" "j \<noteq> i" for j
          using compatible_locks [OF system_okD(6) [OF ok i that(1)]] that(2) Claiming
          by (intro conjI; intro compatible_no_insert) auto
      qed (use s' there True in simp_all)
    next
      case False
      then have s': "s' = at i (after_rollback ?x False) s"
        using advance_claiming [OF Claiming adv] slot_free_rowcount [OF sch] by simp
      then show ?thesis
        using there False by (intro unlocked_move_ok [OF ok i]) (auto intro!: after_rollback_ok)
    qed
  next
    case Inserting
    have there: "slot_there (database s) (tx_slot ?x)" and free: "slot_free (database s) (tx_slot ?x)"
      using pc Inserting by simp_all
    show ?thesis
    proof (cases "new_key ?x (database s)")
      case True
      let ?b = "tx_booking ?x (next_id s)"
      have s': "s' = at i (Committing ?b) (s\<lparr>next_id := next_id s + 1\<rparr>)"
        and pend: "\<not> list_ex (pending_key ?x) (pcs s)"
        using advance_inserting [OF Inserting adv] True by simp_all
      show ?thesis
      proof (rule move_ok [OF ok i, of _ "Committing ?b"])
        show "pc_ok ?x s' (Committing ?b)"
          using there free True system_okD(3) [OF ok] by (force simp: s')
        show "compatible ?x (Committing ?b) (txs ! j) (pcs s ! j) \<and>
            compatible (txs ! j) (pcs s ! j) ?x (Committing ?b)" if j: "j < length txs" "j \<noteq> i" for j
        proof (cases "pcs s ! j")
          case (Committing c)
          have "c = tx_booking (txs ! j) (b_id c)" "b_id c < next_id s"
            using system_okD(5) [OF ok j(1)] Committing by auto
          moreover have "\<not> same_key ?x c"
            using pend j(1) len Committing by (force simp: list_ex_iff set_conv_nth)
          moreover have "\<not> same_key (txs ! j) ?b"
            using calculation by (metis same_key_booking)
          moreover have "tx_slot ?x \<noteq> tx_slot (txs ! j)"
            using compatible_locks [OF system_okD(6) [OF ok i j(1)]] j(2) Inserting Committing by auto
          ultimately show ?thesis
            using Committing by auto
        qed (use compatible_locks [OF system_okD(6) [OF ok i j(1)]] j(2) Inserting in auto)
      qed (simp_all add: s')
    next
      case False
      have "tx_key ?x \<noteq> Some []"
        using system_okD(4) [OF ok i] by (simp add: tx_ok_def)
      then show ?thesis
        using advance_inserting [OF Inserting adv] False there replay_new_key [OF False]
        by (intro unlocked_move_ok [OF ok i]) (auto intro!: after_rollback_ok)
    qed
  next
    case (Committing b)
    then show ?thesis
      using commit_step_ok [OF ok i Committing advance_committing [OF Committing adv]] by simp
  next
    case (Refreshing b)
    then show ?thesis
      using advance_refreshing [OF Refreshing adv] by (auto intro!: unlocked_move_ok [OF ok i])
  next
    case (Rechecking h)
    then show ?thesis
      using advance_rechecking [OF Rechecking adv] by (auto intro!: unlocked_move_ok [OF ok i])
  next
    case (Done r)
    then show ?thesis
      using adv advance_done by fastforce
  qed
qed

lemma start_ok:
  assumes "schema_ok d" and "\<forall>b \<in> set (bookings d). b_id b < n" and "\<forall>x \<in> set txs. tx_ok d x"
  shows "system_ok txs (start txs d n)"
proof (rule system_okI)
  fix i j
  assume "i < length txs" "j < length txs" "i \<noteq> j"
  then show "compatible (txs ! i) (pcs (start txs d n) ! i) (txs ! j) (pcs (start txs d n) ! j)"
    by (intro compatible_free) (simp add: start_def start_pc_def)
qed (use assms in \<open>auto simp: start_def start_pc_def\<close>)

section \<open>The calls look atomic\<close>

text \<open>The interface of a refinement: each step is invisible or a step of the specification.\<close>

locale simulation =
  fixes cstep :: "'c \<Rightarrow> 'c \<Rightarrow> bool" and astep :: "'a \<Rightarrow> 'a \<Rightarrow> bool"
    and view :: "'c \<Rightarrow> 'a" and ok :: "'c \<Rightarrow> bool"
  assumes step_ok: "ok s \<Longrightarrow> cstep s s' \<Longrightarrow> ok s'"
    and step_view: "ok s \<Longrightarrow> cstep s s' \<Longrightarrow> view s' = view s \<or> astep (view s) (view s')"
begin

lemma run_ok: "cstep\<^sup>*\<^sup>* s s' \<Longrightarrow> ok s \<Longrightarrow> ok s'"
  by (induction rule: rtranclp_induct) (auto intro: step_ok)

lemma run_view: "cstep\<^sup>*\<^sup>* s s' \<Longrightarrow> ok s \<Longrightarrow> astep\<^sup>*\<^sup>* (view s) (view s')"
proof (induction rule: rtranclp_induct)
  case base
  then show ?case by simp
next
  case (step s1 s2)
  have "ok s1"
    using run_ok step.hyps(1) step.prems by blast
  then have "view s2 = view s1 \<or> astep (view s1) (view s2)"
    using step.hyps(2) by (rule step_view)
  then show ?case
    using step.IH [OF step.prems] by auto
qed

end

text \<open>
  The answer a transaction will give, as soon as it is decided. A call with a key that asks for a
  slot that does not exist is decided by its first query.
\<close>

fun answer :: "db \<Rightarrow> tx \<Rightarrow> pc \<Rightarrow> booking res option" where
  "answer d x (Done r) = Some r"
| "answer d x (Refreshing b) = Some (Inr b)"
| "answer d x Locking = (if key_given (tx_key x) \<and> \<not> slot_there d (tx_slot x)
     then Some (Inl (http 404 ''Slot not found'')) else None)"
| "answer d x _ = None"

definition serial_view :: "tx list \<Rightarrow> system \<Rightarrow> serial" where
  "serial_view txs s = (database s, map (\<lambda>i. answer (database s) (txs ! i) (pcs s ! i)) [0..<length txs])"

lemma serial_view_move:
  assumes "length (pcs s) = length txs" and "i < length txs" and "pcs s' = (pcs s)[i := p]"
    and "\<And>u. slot_there (database s') u = slot_there (database s) u"
  shows "snd (serial_view txs s') = (snd (serial_view txs s))[i := answer (database s) (txs ! i) p]"
proof (rule nth_equalityI)
  have same: "answer (database s') x q = answer (database s) x q" for x q
    by (cases q) (simp_all add: assms(4))
  show "snd (serial_view txs s') ! j = ((snd (serial_view txs s))[i := answer (database s) (txs ! i) p]) ! j"
    if "j < length (snd (serial_view txs s'))" for j
    using that assms(1-3) by (cases "j = i") (simp_all add: serial_view_def same)
qed (simp add: serial_view_def)

lemma serial_view_nth:
  "i < length txs \<Longrightarrow> snd (serial_view txs s) ! i = answer (database s) (txs ! i) (pcs s ! i)"
  by (simp add: serial_view_def)

lemma serve_tx_eqs:
  "replay (tx_slot x) (tx_client x) (tx_key x) d = Some r \<Longrightarrow> serve_tx x n d = (r, d)"
  "replay (tx_slot x) (tx_client x) (tx_key x) d = None \<Longrightarrow> \<not> slot_there d (tx_slot x) \<Longrightarrow>
    serve_tx x n d = (Inl (http 404 ''Slot not found''), d)"
  "replay (tx_slot x) (tx_client x) (tx_key x) d = None \<Longrightarrow> slot_there d (tx_slot x) \<Longrightarrow>
    \<not> slot_free d (tx_slot x) \<Longrightarrow> serve_tx x n d = (Inl (http 409 SLOT_ALREADY_BOOKED_DETAIL), d)"
  "replay (tx_slot x) (tx_client x) (tx_key x) d = None \<Longrightarrow> slot_there d (tx_slot x) \<Longrightarrow>
    slot_free d (tx_slot x) \<Longrightarrow>
    serve_tx x n d = (Inr (tx_booking x n), add_booking (tx_booking x n) (set_booked (tx_slot x) True d))"
  by (auto simp: serve_tx_def create_booking_ref_def slot_there_def slot_free_def new_booking_def
      serial_env_def tx_booking_def Let_def split: option.splits)

text \<open>A move that leaves the database alone, seen from outside.\<close>

lemma quiet_view:
  assumes "length (pcs s) = length txs" and "i < length txs" and "database s' = database s"
    and "pcs s' = (pcs s)[i := p]" and "answer (database s) (txs ! i) p = answer (database s) (txs ! i) (pcs s ! i)"
  shows "serial_view txs s' = serial_view txs s"
proof -
  have "snd (serial_view txs s') = (snd (serial_view txs s))[i := snd (serial_view txs s) ! i]"
    using serial_view_move [OF assms(1,2,4)] assms(2,3,5) by (simp add: serial_view_nth)
  then show ?thesis
    using assms(3) by (simp add: prod_eq_iff) (simp add: serial_view_def)
qed

lemma answering_view:
  assumes "length (pcs s) = length txs" and "i < length txs" and "database s' = database s"
    and "pcs s' = (pcs s)[i := p]" and "answer (database s) (txs ! i) p = Some r"
  shows "serial_view txs s' = (database s, (snd (serial_view txs s))[i := Some r])"
  using serial_view_move [OF assms(1,2,4)] assms(3,5) by (simp add: prod_eq_iff) (simp add: serial_view_def)

lemma served_view:
  assumes "length (pcs s) = length txs" and "i < length txs" and "database s' = database s"
    and "pcs s' = (pcs s)[i := p]" and "answer (database s) (txs ! i) p = Some r"
    and "answer (database s) (txs ! i) (pcs s ! i) = None"
    and "n \<notin> b_id ` set (bookings (database s))" and "serve_tx (txs ! i) n (database s) = (r, database s)"
  shows "serial_step txs (serial_view txs s) (serial_view txs s')"
proof -
  have "serial_view txs s = (database s, snd (serial_view txs s))"
    by (simp add: serial_view_def)
  then show ?thesis
    using serial_step.serve [of i txs "snd (serial_view txs s)" n "database s" r "database s"] assms
      answering_view [OF assms(1-5)] by (simp add: serial_view_nth)
qed

lemma refused_view:
  assumes "length (pcs s) = length txs" and "i < length txs" and "database s' = database s"
    and "pcs s' = (pcs s)[i := p]" and "answer (database s) (txs ! i) p = Some r" and "refusal r"
  shows "serial_step txs (serial_view txs s) (serial_view txs s')"
proof -
  have "serial_view txs s = (database s, snd (serial_view txs s))"
    by (simp add: serial_view_def)
  then show ?thesis
    using serial_step.refuse [of i txs "snd (serial_view txs s)" r "database s"]
      serial_step.lose [of i txs "snd (serial_view txs s)" r "database s"] assms(2,6)
      answering_view [OF assms(1-5)] by (cases "snd (serial_view txs s) ! i = None") simp_all
qed

lemma commit_view:
  assumes ok: "system_ok txs s" and i: "i < length txs" and pc: "pcs s ! i = Committing b"
    and s': "s' = at i (Refreshing b) (s\<lparr>database := add_booking b (claim_slot (tx_slot (txs ! i)) (database s))\<rparr>)"
  shows "serial_step txs (serial_view txs s) (serial_view txs s')"
proof -
  let ?x = "txs ! i"
  have there: "slot_there (database s) (tx_slot ?x)" and free: "slot_free (database s) (tx_slot ?x)"
    and b: "b = tx_booking ?x (b_id b)" and fresh: "b_id b \<notin> b_id ` set (bookings (database s))"
    and key: "new_key ?x (database s)"
    using system_okD(5) [OF ok i] pc by simp_all
  have claim: "claim_slot (tx_slot ?x) (database s) = set_booked (tx_slot ?x) True (database s)"
    using free claim_slot_eq [OF system_okD(2) [OF ok]] by (auto simp: slot_free_def)
  have "serve_tx ?x (b_id b) (database s) = (Inr b, database s')"
    using serve_tx_eqs(4) [OF new_key_replay [OF key] there free, of "b_id b"] b by (simp add: s' claim)
  moreover have "snd (serial_view txs s) ! i = None"
    using i pc by (simp add: serial_view_nth)
  ultimately have "serial_step txs (database s, snd (serial_view txs s))
      (database s', (snd (serial_view txs s))[i := Some (Inr b)])"
    using i fresh by (intro serial_step.serve [where n = "b_id b"])
  moreover have "snd (serial_view txs s') = (snd (serial_view txs s))[i := answer (database s) ?x (Refreshing b)]"
    by (rule serial_view_move [OF system_okD(1) [OF ok] i])
      (auto simp: s' claim slot_there_def)
  ultimately show ?thesis
    by (simp add: serial_view_def)
qed

lemma advance_view:
  assumes ok: "system_ok txs s" and i: "i < length txs" and adv: "advance txs i f s = Some s'"
  shows "serial_view txs s' = serial_view txs s \<or> serial_step txs (serial_view txs s) (serial_view txs s')"
proof -
  let ?x = "txs ! i"
  have len: "length (pcs s) = length txs" and sch: "schema_ok (database s)" and pc: "pc_ok ?x s (pcs s ! i)"
    using system_okD(1,2,5) [OF ok] i by auto
  have fresh: "next_id s \<notin> b_id ` set (bookings (database s))"
    using system_okD(3) [OF ok] by force
  note quiet = quiet_view [OF len i]
  note served = served_view [OF len i _ _ _ _ fresh]
  have refused: "serial_step txs (serial_view txs s) (serial_view txs s')" if "s' = at i (Done r) s" "refusal r" for r
    using that by (intro refused_view [OF len i, of _ "Done r" r]) simp_all
  show ?thesis
  proof (cases f)
    case (Some err)
    then show ?thesis
      using advance_fails [of txs i err s s'] adv refused by blast
  next
    case None
    note adv = adv [unfolded None]
    show ?thesis
    proof (cases "pcs s ! i")
      case Checking
      have miss: ?thesis if r: "replay (tx_slot ?x) (tx_client ?x) (tx_key ?x) (database s) = None"
        and s': "s' = at i Locking s"
      proof (cases "key_given (tx_key ?x) \<and> \<not> slot_there (database s) (tx_slot ?x)")
        case True
        then show ?thesis
          using served [of s' Locking "Inl (http 404 ''Slot not found'')"] Checking serve_tx_eqs(2) [OF r]
          by (simp add: s')
      next
        case False
        then show ?thesis
          using quiet [of s' Locking] Checking by (simp add: s')
      qed
      have hit: ?thesis if r: "replay (tx_slot ?x) (tx_client ?x) (tx_key ?x) (database s) = Some r"
        and s': "s' = at i (Done r) s" for r
        using served [of s' "Done r" r] Checking serve_tx_eqs(1) [OF r] by (simp add: s')
      show ?thesis
        using advance_checking [OF Checking adv] miss hit by blast
    next
      case Locking
      have missing: ?thesis if m: "\<not> slot_there (database s) (tx_slot ?x)"
        and s': "s' = at i (Done (Inl (http 404 ''Slot not found''))) s"
      proof (cases "key_given (tx_key ?x)")
        case True
        then show ?thesis
          using quiet [of s' "Done (Inl (http 404 ''Slot not found''))"] Locking m by (simp add: s')
      next
        case False
        then show ?thesis
          using served [of s' "Done (Inl (http 404 ''Slot not found''))" "Inl (http 404 ''Slot not found'')"] Locking m
            serve_tx_eqs(2) [OF replay_not_given [OF False] m] by (simp add: s')
      qed
      have lock: ?thesis if "slot_there (database s) (tx_slot ?x)" and "s' = at i Claiming s"
        using quiet [of s' Claiming] Locking that by simp
      show ?thesis
        using advance_locking [OF Locking adv] missing lock refused driver_failure_refusal(1) by blast
    next
      case Claiming
      show ?thesis
      proof (cases "slot_free (database s) (tx_slot ?x) \<or> key_given (tx_key ?x)")
        case True
        then show ?thesis
          using advance_claiming [OF Claiming adv] Claiming slot_free_rowcount [OF sch] quiet [of s']
          by (auto simp: after_rollback_def)
      next
        case False
        have "serve_tx ?x (next_id s) (database s) = (Inl (http 409 SLOT_ALREADY_BOOKED_DETAIL), database s)"
          using False pc Claiming by (intro serve_tx_eqs(3)) (simp_all add: replay_not_given)
        then show ?thesis
          using advance_claiming [OF Claiming adv] Claiming slot_free_rowcount [OF sch] False
            served [of s' "after_rollback ?x False" "Inl (http 409 SLOT_ALREADY_BOOKED_DETAIL)"]
          by (simp add: after_rollback_def)
      qed
    next
      case Inserting
      have "tx_key ?x \<noteq> Some []"
        using system_okD(4) [OF ok i] by (simp add: tx_ok_def)
      then show ?thesis
        using advance_inserting [OF Inserting adv] replay_new_key(1) [of ?x "database s"] Inserting quiet [of s']
        by (auto simp: after_rollback_def)
    next
      case (Committing b)
      then show ?thesis
        using commit_view [OF ok i Committing advance_committing [OF Committing adv]] by simp
    next
      case (Refreshing b)
      then show ?thesis
        using advance_refreshing [OF Refreshing adv] quiet [of s'] by simp
    next
      case (Rechecking h)
      let ?r = "case replay (tx_slot ?x) (tx_client ?x) (tx_key ?x) (database s) of
        Some r \<Rightarrow> r | None \<Rightarrow> Inl (http 409 SLOT_ALREADY_BOOKED_DETAIL)"
      have "serve_tx ?x (next_id s) (database s) = (?r, database s)"
        using pc Rechecking serve_tx_eqs(1,3) [of ?x "database s"]
        by (cases "replay (tx_slot ?x) (tx_client ?x) (tx_key ?x) (database s)") auto
      then show ?thesis
        using advance_rechecking [OF Rechecking adv] Rechecking served [of s' "Done ?r" ?r] by simp
    next
      case (Done r)
      then show ?thesis
        using adv advance_done by fastforce
    qed
  qed
qed

interpretation booking_calls: simulation "step txs" "serial_step txs" "serial_view txs" "system_ok txs" for txs
  by unfold_locales (auto elim!: stepE dest: advance_ok advance_view)

end
