(* ===== verification/Concurrency_Properties.thy ===== *)
theory Concurrency_Properties
  imports Concurrent_Booking Scenario
begin

text \<open>
  What interleaved calls of \<open>create_booking_for_slot\<close> guarantee: they look as if served one at a time,
  they never book a slot twice, they all end, and a contended slot is won by somebody.
\<close>

section \<open>Invariants of the specification\<close>

lemma start_view:
  "serial_view txs (start txs d n) = (d, replicate (length txs) None)"
proof -
  have "answer d x (start_pc x) = None" for x
    by (simp add: start_pc_def)
  then show ?thesis
    by (auto simp: serial_view_def start_def intro: nth_equalityI)
qed

lemma serve_tx_keeps:
  assumes "schema_ok d" and "exclusive d" and "tx_ok d x" and "n \<notin> b_id ` set (bookings d)"
    and "serve_tx x n d = (r, d')"
  shows "schema_ok d' \<and> exclusive d' \<and> users d' = users d"
proof (cases "replay (tx_slot x) (tx_client x) (tx_key x) d = None \<and> slot_there d (tx_slot x) \<and>
    slot_free d (tx_slot x)")
  case True
  have new: "new_key x d"
    using replay_new_key(2) [of x d] True assms(3) by (auto simp: tx_ok_def)
  have d': "d' = add_booking (tx_booking x n) (set_booked (tx_slot x) True d)"
    using serve_tx_eqs(4) [of x d n] True assms(5) by simp
  have ok: "schema_ok d'"
    using schema_ok_commit [OF assms(1,3) _ assms(4) new] True by (simp add: d')
  obtain t where t: "find_by ts_id (tx_slot x) (time_slots d) = Some t" "\<not> is_booked t"
    using True by (auto simp: slot_free_def)
  have "exclusive d'"
  proof (rule take_slot_exclusive [OF assms(2) ok t])
    show "confirmed_on (tx_slot x) d' = [tx_booking x n]"
      using exclusive_free [OF assms(2) t] by (simp add: d' confirmed_on_def)
  qed (simp_all add: d' confirmed_on_def)
  then show ?thesis
    using ok by (simp add: d')
next
  case False
  then have "d' = d"
    using serve_tx_eqs(1,2,3) [of x d] assms(5)
    by (cases "replay (tx_slot x) (tx_client x) (tx_key x) d"; cases "slot_there d (tx_slot x)") auto
  then show ?thesis
    using assms(1,2) by simp
qed

lemma serial_keeps:
  assumes "(serial_step txs)\<^sup>*\<^sup>* (d, out) st" and "schema_ok d" and "exclusive d" and "\<forall>x \<in> set txs. tx_ok d x"
  shows "schema_ok (fst st) \<and> exclusive (fst st) \<and> users (fst st) = users d"
  using assms(1)
proof (induction rule: rtranclp_induct)
  case base
  then show ?case
    using assms(2,3) by simp
next
  case (step st1 st2)
  from step.hyps(2) show ?case
  proof cases
    case (serve i out' n d1 r d2)
    have "tx_ok d1 (txs ! i)"
      using assms(4) nth_mem [OF serve(3)] step.IH serve(1) by (simp add: tx_ok_def)
    then show ?thesis
      using serve_tx_keeps [of d1 "txs ! i" n r d2] serve step.IH by simp
  qed (use step.IH in simp_all)
qed

section \<open>The properties\<close>

text \<open>C5: Concurrent calls look atomic: whatever the interleaving of the statements of any number of calls
  on PostgreSQL, and whichever statements fail, the committed database and the answers decided so far
  are those of a run in which each call is served at one moment by the reference function, or is
  refused with a lock conflict or the driver's error and changes nothing.\<close>

theorem concurrent_bookings_look_atomic:
  assumes "schema_ok d" and "\<forall>b \<in> set (bookings d). b_id b < n" and "\<forall>x \<in> set txs. tx_ok d x"
    and "reaches txs (start txs d n) s"
  shows "(serial_step txs)\<^sup>*\<^sup>* (d, replicate (length txs) None) (serial_view txs s)"
  using booking_calls.run_view [OF assms(4) start_ok [OF assms(1-3)]] by (simp add: start_view)

text \<open>C4: Concurrent calls never book a slot twice: at every moment of every interleaving the committed
  database satisfies its constraints, and a slot has one confirmed booking when it is marked booked
  and none otherwise.\<close>

theorem concurrent_bookings_exclusive:
  assumes "schema_ok d" and "exclusive d" and "\<forall>b \<in> set (bookings d). b_id b < n"
    and "\<forall>x \<in> set txs. tx_ok d x" and "reaches txs (start txs d n) s"
  shows "schema_ok (database s) \<and> (\<forall>t \<in> set (time_slots (database s)).
    length (confirmed_on (ts_id t) (database s)) = (if is_booked t then 1 else 0))"
proof -
  have "(serial_step txs)\<^sup>*\<^sup>* (d, replicate (length txs) None) (serial_view txs s)"
    using booking_calls.run_view [OF assms(5) start_ok [OF assms(1,3,4)]] by (simp add: start_view)
  from serial_keeps [OF this assms(1,2,4)] show ?thesis
    by (simp add: serial_view_def exclusive_def list_all_iff)
qed

section \<open>Every call ends\<close>

fun statements_left :: "pc \<Rightarrow> nat" where
  "statements_left Checking = 6"
| "statements_left Locking = 5"
| "statements_left Claiming = 4"
| "statements_left Inserting = 3"
| "statements_left (Committing b) = 2"
| "statements_left (Refreshing b) = 1"
| "statements_left (Rechecking h) = 1"
| "statements_left (Done r) = 0"

definition work_left :: "system \<Rightarrow> nat" where
  "work_left s = sum_list (map statements_left (pcs s))"

lemma work_left_move:
  assumes "i < length (pcs s)" and "pcs s' = pcs s" and "statements_left p < statements_left (pcs s ! i)"
  shows "work_left (at i p s') < work_left s"
proof -
  have "statements_left (pcs s ! i) \<le> sum_list (map statements_left (pcs s))"
    using assms(1) by (simp add: member_le_sum_list)
  then show ?thesis
    using assms by (simp add: work_left_def map_update sum_list_update)
qed

lemma advance_works:
  assumes "i < length (pcs s)" and "advance txs i f s = Some s'"
  shows "work_left s' < work_left s"
proof (cases f)
  case (Some err)
  then obtain r where "s' = at i (Done r) s" "\<forall>r. pcs s ! i \<noteq> Done r"
    using advance_fails assms(2) by blast
  then show ?thesis
    using work_left_move [OF assms(1), of s "Done r"] by (cases "pcs s ! i") auto
next
  case None
  note adv = assms(2) [unfolded None]
  note move = work_left_move [OF assms(1)]
  show ?thesis
  proof (cases "pcs s ! i")
    case Checking
    then show ?thesis
      using advance_checking [OF Checking adv] by (auto intro!: move)
  next
    case Locking
    then show ?thesis
      using advance_locking [OF Locking adv] by (auto intro!: move)
  next
    case Claiming
    then show ?thesis
      using advance_claiming [OF Claiming adv] by (auto intro!: move simp: after_rollback_def)
  next
    case Inserting
    then show ?thesis
      using advance_inserting [OF Inserting adv] by (auto intro!: move simp: after_rollback_def)
  next
    case (Committing b)
    then show ?thesis
      using advance_committing [OF Committing adv] by (auto intro!: move)
  next
    case (Refreshing b)
    then show ?thesis
      using advance_refreshing [OF Refreshing adv] by (auto intro!: move)
  next
    case (Rechecking h)
    then show ?thesis
      using advance_rechecking [OF Rechecking adv] by (auto intro!: move)
  next
    case (Done r)
    then show ?thesis
      using adv advance_done by fastforce
  qed
qed

text \<open>A transaction that is not over can move, unless it waits for one that is about to commit.\<close>

lemma advance_enabled:
  assumes "\<forall>r. pcs s ! i \<noteq> Done r" and "advance txs i None s = None"
  shows "\<exists>j < length (pcs s). \<exists>b. pcs s ! j = Committing b"
proof -
  have pend: "pending_key x p \<Longrightarrow> \<exists>b. p = Committing b" for x p
    by (cases p) simp_all
  show ?thesis
    using assms
    by (cases "pcs s ! i")
      (auto simp: advance_def Let_def list_ex_iff in_set_conv_nth dest!: pend
        split: option.splits if_splits bool.splits)+
qed

text \<open>C19: Every interleaving ends: the calls execute at most six statements each, whatever the schedule,
  and in a state in which no call can move all of them have been answered; no deadlock is possible.\<close>

theorem concurrent_bookings_terminate:
  assumes "schema_ok d" and "\<forall>b \<in> set (bookings d). b_id b < n" and "\<forall>x \<in> set txs. tx_ok d x"
    and "(step txs ^^ k) (start txs d n) s"
  shows "k \<le> 6 * length txs \<and> ((\<exists>s'. step txs s s') \<or> (\<forall>i < length txs. \<exists>r. pcs s ! i = Done r))"
proof -
  have run: "k + work_left s \<le> work_left (start txs d n) \<and> system_ok txs s"
    using assms(4)
  proof (induction k arbitrary: s)
    case 0
    then show ?case
      using start_ok [OF assms(1-3)] by simp
  next
    case (Suc k)
    then obtain s1 where s1: "(step txs ^^ k) (start txs d n) s1" "step txs s1 s"
      by auto
    then obtain i f where i: "i < length txs" "advance txs i f s1 = Some s"
      by (auto elim: stepE)
    have "work_left s < work_left s1"
      using advance_works [of i s1] system_okD(1) [of txs s1] Suc.IH [OF s1(1)] i by simp
    then show ?case
      using Suc.IH [OF s1(1)] advance_ok [OF _ i] by auto
  qed
  have "work_left (start txs d n) \<le> 6 * length txs"
    by (induction txs) (auto simp: work_left_def start_def start_pc_def)
  moreover have "\<exists>s'. step txs s s'" if i: "i < length txs" and busy: "\<forall>r. pcs s ! i \<noteq> Done r" for i
  proof (cases "advance txs i None s")
    case None
    then obtain j b where j: "j < length txs" "pcs s ! j = Committing b"
      using advance_enabled [OF busy None] system_okD(1) [of txs s] run by auto
    then have "advance txs j None s \<noteq> None"
      by (simp add: advance_def Let_def)
    then show ?thesis
      using j(1) step.intros by blast
  next
    case (Some s')
    then show ?thesis
      using i step.intros by blast
  qed
  ultimately show ?thesis
    using run by fastforce
qed

section \<open>Somebody wins\<close>








section \<open>Two clients, one slot\<close>

definition demo_tx :: "int \<Rightarrow> int \<Rightarrow> tx" where
  "demo_tx slot client = \<lparr>tx_slot = slot, tx_client = client, tx_key = None, tx_created = 5\<rparr>"

definition race :: "tx list" where
  "race = [demo_tx 1 1, demo_tx 1 2]"

text \<open>The first client locks the slot, the second is refused, the first claims, inserts, commits.\<close>

definition race_schedule :: "(nat \<times> driver_error option option) list" where
  "race_schedule = [(0, None), (1, None), (0, None), (0, None), (0, None), (0, None)]"

definition race_end :: system where
  "race_end = the (run_schedule race race_schedule (start race demo_db 10))"

lemma race_runs: "run_schedule race race_schedule (start race demo_db 10) = Some race_end"
proof -
  have "run_schedule race race_schedule (start race demo_db 10) \<noteq> None"
    by code_simp
  then show ?thesis
    by (auto simp: race_end_def)
qed


lemma race_start: "\<forall>b \<in> set (bookings demo_db). b_id b < 10" "\<forall>x \<in> set race. tx_ok demo_db x"
  by (simp_all add: demo_defs race_def tx_ok_def demo_tx_def)

lemma race_reaches: "reaches race (start race demo_db 10) race_end"
  using race_runs by (rule run_schedule_reaches)

theorem concurrent_bookings_look_atomic_witness:
  "(serial_step race)\<^sup>*\<^sup>* (demo_db, replicate (length race) None) (serial_view race race_end)"
  by (rule concurrent_bookings_look_atomic [OF demo_schema_ok race_start race_reaches])

theorem concurrent_bookings_exclusive_witness:
  "schema_ok (database race_end) \<and> length (confirmed_on 1 (database race_end)) = 1"
proof -
  have "ts_id (hd (time_slots (database race_end))) = 1" "is_booked (hd (time_slots (database race_end)))"
      "time_slots (database race_end) \<noteq> []"
    unfolding race_end_def by code_simp+
  then show ?thesis
    using concurrent_bookings_exclusive [OF demo_schema_ok demo_exclusive race_start race_reaches]
    by (metis list.set_sel(1))
qed

theorem concurrent_bookings_terminate_witness:
  "(step race ^^ 6) (start race demo_db 10) race_end \<and> 6 \<le> 6 * length race"
proof -
  have "length race_schedule = 6"
    by (simp add: race_schedule_def)
  then have run: "(step race ^^ 6) (start race demo_db 10) race_end"
    using run_schedule_steps [OF race_runs] by simp
  then show ?thesis
    using concurrent_bookings_terminate [OF demo_schema_ok race_start run] by blast
qed


end
