(* ===== verification/Redis_Limiter.thy ===== *)
theory Redis_Limiter
  imports Rate_Limiter
begin

text \<open>
  The Redis limiter of \<^verbatim>\<open>app/core/rate_limiter.py\<close> against a server that keeps sorted sets: what the
  limiter relies on as a predicate on the client's \<open>execute\<close>, and the contract of a limiter on the
  clock of whole milliseconds that its scores have. One call here is one after the other; the two
  pipelines of a call are not one transaction, and the last section shows what two clients can do.
\<close>

section \<open>The server\<close>

text \<open>
  \<open>zset r k\<close>: the members of the sorted set \<open>k\<close> with their scores, in the order of the scores. The
  commands, as Redis documents them: a pipeline that removes the scores of a range and counts the
  rest; the member of least score; adding a member. An \<open>EXPIRE\<close> comes with every addition and is
  longer than the window: when it fires, the key has only members that the next call would remove.
\<close>

type_synonym 'r zsets = "'r \<Rightarrow> string \<Rightarrow> (string \<times> int) list"

definition counts_range :: "'r redis_execute \<Rightarrow> 'r zsets \<Rightarrow> string \<Rightarrow> int \<Rightarrow> 'r \<Rightarrow> int \<Rightarrow> 'r \<Rightarrow> bool" where
  "counts_range execute zset k b r n r' \<longleftrightarrow>
     execute [Zremrangebyscore k 0 b, Zcard k] r = (Inr [Reply_Int n, Reply_Int (int (length (zset r' k)))], r') \<and>
     zset r' = (zset r)(k := filter (\<lambda>(m, sc). \<not> (0 \<le> sc \<and> sc \<le> b)) (zset r k))"

definition adds_member ::
  "'r redis_execute \<Rightarrow> 'r zsets \<Rightarrow> string \<Rightarrow> string \<Rightarrow> int \<Rightarrow> int \<Rightarrow> 'r \<Rightarrow> 'r \<Rightarrow> bool" where
  "adds_member execute zset k m sc ttl r r' \<longleftrightarrow>
     (\<exists>replies s. execute [Zadd k m sc, Expire k ttl] r = (Inr replies, r') \<and>
       map snd s = map snd (zset r k) @ [sc] \<and> fst ` set s = insert m (fst ` set (zset r k)) \<and>
       zset r' = (zset r)(k := s))"

definition newest_member :: "'r zsets \<Rightarrow> string \<Rightarrow> string \<Rightarrow> int \<Rightarrow> 'r \<Rightarrow> bool" where
  "newest_member zset k m sc r \<longleftrightarrow>
     m \<notin> fst ` set (zset r k) \<and> (\<forall>sc' \<in> set (map snd (zset r k)). sc' \<le> sc)"

definition redis_server_ok :: "'r redis_execute \<Rightarrow> 'r zsets \<Rightarrow> bool" where
  "redis_server_ok execute zset \<longleftrightarrow>
     (\<forall>r k b. \<exists>n r'. counts_range execute zset k b r n r') \<and>
     (\<forall>r k. execute [Zrange_First k] r = (Inr [Reply_Scores (take 1 (zset r k))], r)) \<and>
     (\<forall>r k m sc ttl. newest_member zset k m sc r \<longrightarrow> (\<exists>r'. adds_member execute zset k m sc ttl r r'))"

section \<open>Calls with their own ids\<close>

text \<open>The call number \<open>n\<close> draws the id \<open>uuids n\<close>.\<close>

definition numbered_allow :: "'r redis_execute \<Rightarrow> string \<Rightarrow> (nat \<Rightarrow> string) \<Rightarrow> ('r \<times> nat) allow_op" where
  "numbered_allow execute prefix uuids t key limit window_seconds st =
     (case redis_allow execute prefix (uuids (snd st)) t key limit window_seconds (fst st) of
        (a, r) \<Rightarrow> (a, (r, Suc (snd st))))"

definition uuids_ok :: "(nat \<Rightarrow> string) \<Rightarrow> bool" where
  "uuids_ok uuids \<longleftrightarrow> inj uuids \<and> (\<forall>n. CHR '':'' \<notin> set (uuids n))"

text \<open>The clock of the scores: \<open>int(time.time() * 1000)\<close>, in microseconds again.\<close>

definition ms_clock :: "instant \<Rightarrow> instant" where
  "ms_clock t = trunc_div t 1000 * 1000"

lemma trunc_div_mono: "a \<le> b \<Longrightarrow> 0 < n \<Longrightarrow> trunc_div a n \<le> trunc_div b n"
proof -
  assume ab: "a \<le> b" and n: "0 < n"
  consider "0 \<le> a" | "a < 0" "0 \<le> b" | "b < 0"
    by linarith
  then show ?thesis
  proof cases
    case 1
    then show ?thesis
      using ab n by (simp add: trunc_div_def zdiv_mono1)
  next
    case 2
    then have "0 \<le> (- a) div n" "0 \<le> b div n"
      using n by (simp_all add: pos_imp_zdiv_nonneg_iff)
    then show ?thesis
      using 2 by (simp add: trunc_div_def)
  next
    case 3
    then have "(- b) div n \<le> (- a) div n"
      using ab n by (intro zdiv_mono1) auto
    then show ?thesis
      using 3 ab by (simp add: trunc_div_def)
  qed
qed

lemma ms_clock_mono: "t \<le> t' \<Longrightarrow> ms_clock t \<le> ms_clock t'"
  by (simp add: ms_clock_def trunc_div_mono)

lemma ms_clock_nonneg: "0 \<le> t \<Longrightarrow> 0 \<le> ms_clock t"
  by (simp add: ms_clock_def trunc_div_def)

section \<open>Members never clash\<close>

lemma nat_str_no_colon: "CHR '':'' \<notin> set (nat_str n)"
proof
  assume "CHR '':'' \<in> set (nat_str n)"
  then have "is_digit (CHR '':'')"
    using nat_str_digits by blast
  then show False
    by (simp add: is_digit_def)
qed

lemma int_str_no_colon: "CHR '':'' \<notin> set (int_str i)"
  using nat_str_no_colon by (auto simp: int_str_def)

lemma member_id:
  assumes "int_str a @ '':'' @ u = int_str b @ '':'' @ v"
  shows "u = v"
proof -
  have "dropWhile (\<lambda>c. c \<noteq> CHR '':'') (int_str i @ '':'' @ w) = CHR '':'' # w" for i w
    using int_str_no_colon [of i] by (subst dropWhile_append2) auto
  then have "CHR '':'' # u = CHR '':'' # v"
    using assms by metis
  then show ?thesis
    by simp
qed

section \<open>The contract\<close>

definition redis_key :: "string \<Rightarrow> string \<Rightarrow> string" where
  "redis_key prefix key = prefix @ '':'' @ key"

definition scores_of :: "int \<Rightarrow> instant \<Rightarrow> instant list \<Rightarrow> int list" where
  "scores_of window c h = map (\<lambda>x. x div 1000) (recent window c h)"

definition earlier_member :: "(nat \<Rightarrow> string) \<Rightarrow> nat \<Rightarrow> string \<Rightarrow> bool" where
  "earlier_member uuids n m \<longleftrightarrow> (\<exists>a i. i < n \<and> m = int_str a @ '':'' @ uuids i)"

definition key_represents ::
  "int \<Rightarrow> (nat \<Rightarrow> string) \<Rightarrow> (string \<times> int) list \<Rightarrow> nat \<Rightarrow> instant list \<Rightarrow> instant \<Rightarrow> bool" where
  "key_represents window uuids z n h t \<longleftrightarrow>
     (\<forall>x \<in> set h. 0 \<le> x \<and> x \<le> ms_clock t \<and> 1000 dvd x) \<and>
     (\<exists>c \<le> ms_clock t. map snd z = scores_of window c h) \<and>
     (\<forall>m \<in> fst ` set z. earlier_member uuids n m)"

definition redis_represents ::
  "'r zsets \<Rightarrow> string \<Rightarrow> int \<Rightarrow> (nat \<Rightarrow> string) \<Rightarrow> 'r \<times> nat \<Rightarrow> events \<Rightarrow> instant \<Rightarrow> bool" where
  "redis_represents zset prefix window uuids st h t \<longleftrightarrow> 0 \<le> t \<and>
     (\<forall>key. key_represents window uuids (zset (fst st) (redis_key prefix key)) (snd st) (h key) t)"

lemma key_representsD:
  assumes "key_represents window uuids z n h t"
  shows "x \<in> set h \<Longrightarrow> 0 \<le> x \<and> x \<le> ms_clock t \<and> 1000 dvd x"
    and "\<exists>c \<le> ms_clock t. map snd z = scores_of window c h"
    and "m \<in> fst ` set z \<Longrightarrow> earlier_member uuids n m"
  using assms unfolding key_represents_def by blast+

lemma key_representsI:
  assumes "\<And>x. x \<in> set h \<Longrightarrow> 0 \<le> x \<and> x \<le> ms_clock t \<and> 1000 dvd x"
    and "c \<le> ms_clock t" and "map snd z = scores_of window c h"
    and "\<And>m. m \<in> fst ` set z \<Longrightarrow> earlier_member uuids n m"
  shows "key_represents window uuids z n h t"
  using assms unfolding key_represents_def by blast

lemma key_represents_later:
  assumes "key_represents window uuids z n h t0" and "t0 \<le> t" and "n \<le> n'"
  shows "key_represents window uuids z n' h t"
proof -
  obtain c where c: "c \<le> ms_clock t0" "map snd z = scores_of window c h"
    using key_representsD(2) [OF assms(1)] by blast
  show ?thesis
  proof (rule key_representsI [OF _ _ c(2)])
    show "c \<le> ms_clock t"
      using c(1) ms_clock_mono [OF assms(2)] by simp
    show "0 \<le> x \<and> x \<le> ms_clock t \<and> 1000 dvd x" if "x \<in> set h" for x
      using key_representsD(1) [OF assms(1) that] ms_clock_mono [OF assms(2)] by simp
    show "earlier_member uuids n' m" if "m \<in> fst ` set z" for m
      using key_representsD(3) [OF assms(1) that] assms(3) order_less_le_trans unfolding earlier_member_def
      by blast
  qed
qed

text \<open>Removing the scores up to the boundary leaves what is recent on the clock.\<close>

lemma purge_scores:
  assumes "key_represents window uuids z n h t0" and "t0 \<le> t" and "0 \<le> t"
  shows "map snd (filter (\<lambda>(m, sc). \<not> (0 \<le> sc \<and> sc \<le> trunc_div t 1000 - window * 1000)) z)
    = scores_of window (ms_clock t) h"
proof -
  let ?b = "trunc_div t 1000 - window * 1000"
  obtain c where c: "c \<le> ms_clock t0" "map snd z = scores_of window c h"
    and h: "\<forall>x \<in> set h. 0 \<le> x \<and> 1000 dvd x"
    using assms(1) by (auto simp: key_represents_def)
  have "map snd (filter (\<lambda>(m, sc). \<not> (0 \<le> sc \<and> sc \<le> ?b)) z) = filter (\<lambda>sc. \<not> (0 \<le> sc \<and> sc \<le> ?b)) (map snd z)"
    by (induction z) auto
  also have "\<dots> = map (\<lambda>x. x div 1000) (filter (\<lambda>x. \<not> (0 \<le> x div 1000 \<and> x div 1000 \<le> ?b)) (recent window c h))"
    by (simp add: c(2) scores_of_def filter_map comp_def)
  also have "filter (\<lambda>x. \<not> (0 \<le> x div 1000 \<and> x div 1000 \<le> ?b)) (recent window c h)
      = filter (\<lambda>x. ms_clock t - window * second < x) (recent window c h)"
  proof (rule filter_cong [OF refl])
    fix x
    assume "x \<in> set (recent window c h)"
    then obtain y where "x = 1000 * y" "0 \<le> y"
      using h by (auto simp: recent_def elim!: dvdE)
    then show "(\<not> (0 \<le> x div 1000 \<and> x div 1000 \<le> ?b)) = (ms_clock t - window * second < x)"
      by (auto simp: ms_clock_def second_def)
  qed
  also have "\<dots> = recent window (ms_clock t) h"
    using c(1) ms_clock_mono [OF assms(2)] by (intro recent_recent) simp
  finally show ?thesis
    by (simp add: scores_of_def)
qed

lemma key_represents_purged:
  assumes "key_represents window uuids z n h t0" and "t0 \<le> t" and "0 \<le> t"
  shows "key_represents window uuids
    (filter (\<lambda>(m, sc). \<not> (0 \<le> sc \<and> sc \<le> trunc_div t 1000 - window * 1000)) z) n h t"
proof -
  have later: "key_represents window uuids z n h t"
    using assms(1,2) by (rule key_represents_later) simp
  show ?thesis
    by (rule key_representsI [OF _ order.refl purge_scores [OF assms]])
      (use key_representsD(1,3) [OF later] in auto)
qed

lemma key_represents_added:
  assumes "key_represents window uuids z n h t" and "map snd z = scores_of window (ms_clock t) h"
    and "0 \<le> t" and "0 < window" and "map snd z' = map snd z @ [trunc_div t 1000]"
    and "fst ` set z' = insert (int_str (trunc_div t 1000) @ '':'' @ uuids n) (fst ` set z)"
  shows "key_represents window uuids z' (Suc n) (h @ [ms_clock t]) t"
proof -
  have "recent window (ms_clock t) (h @ [ms_clock t]) = recent window (ms_clock t) h @ [ms_clock t]"
    using assms(4) by (simp add: recent_def second_def)
  then have "map snd z' = scores_of window (ms_clock t) (h @ [ms_clock t])"
    using assms(2,5) by (simp add: scores_of_def) (simp add: ms_clock_def)
  moreover have "earlier_member uuids (Suc n) m" if "m \<in> fst ` set z'" for m
  proof (cases "m \<in> fst ` set z")
    case True
    then show ?thesis
      using key_representsD(3) [OF assms(1)] less_SucI unfolding earlier_member_def by blast
  next
    case False
    then show ?thesis
      using that assms(6) unfolding earlier_member_def by blast
  qed
  moreover have "0 \<le> x \<and> x \<le> ms_clock t \<and> 1000 dvd x" if "x \<in> set (h @ [ms_clock t])" for x
    using that key_representsD(1) [OF assms(1)] ms_clock_nonneg [OF assms(3)] by (auto simp: ms_clock_def)
  ultimately show ?thesis
    by (intro key_representsI [OF _ order.refl]) auto
qed

lemma newest_member_new:
  assumes "key_represents window uuids (zset r k) n h t" and "0 \<le> t" and "uuids_ok uuids"
  shows "newest_member zset k (int_str a @ '':'' @ uuids n) (trunc_div t 1000) r"
proof -
  have "sc \<le> trunc_div t 1000" if sc: "sc \<in> set (map snd (zset r k))" for sc
  proof -
    obtain c where "map snd (zset r k) = scores_of window c h"
      using assms(1) by (auto simp: key_represents_def)
    then obtain x where "x \<in> set h" "sc = x div 1000"
      using sc unfolding scores_of_def recent_def by auto
    then have "sc \<le> ms_clock t div 1000"
      using key_representsD(1) [OF assms(1)] by (auto intro!: zdiv_mono1)
    then show ?thesis
      by (simp add: ms_clock_def)
  qed
  moreover have "int_str a @ '':'' @ uuids n \<notin> fst ` set (zset r k)"
  proof
    assume "int_str a @ '':'' @ uuids n \<in> fst ` set (zset r k)"
    then obtain b i where "i < n" "int_str a @ '':'' @ uuids n = int_str b @ '':'' @ uuids i"
      using key_representsD(3) [OF assms(1)] unfolding earlier_member_def by blast
    then have "uuids n = uuids i" "i < n"
      using member_id by blast+
    then show False
      using assms(3) by (auto simp: uuids_ok_def dest: injD)
  qed
  ultimately show ?thesis
    by (simp add: newest_member_def)
qed

lemma redis_key_inject [simp]: "redis_key prefix a = redis_key prefix b \<longleftrightarrow> a = b"
  by (simp add: redis_key_def)

lemma redis_represents_update:
  assumes "redis_represents zset prefix window uuids (r, n) h t0" and "t0 \<le> t" and "0 \<le> t"
    and "zset r' = (zset r)(redis_key prefix key := z)" and "key_represents window uuids z (Suc n) hk t"
  shows "redis_represents zset prefix window uuids (r', Suc n) (h(key := hk)) t"
  unfolding redis_represents_def fst_conv snd_conv
proof (intro conjI allI assms(3))
  fix k
  have "key_represents window uuids (zset r (redis_key prefix k)) n (h k) t0"
    using assms(1) by (simp add: redis_represents_def)
  then have "key_represents window uuids (zset r (redis_key prefix k)) (Suc n) (h k) t"
    using assms(2) by (rule key_represents_later) simp
  then show "key_represents window uuids (zset r' (redis_key prefix k)) (Suc n) ((h(key := hk)) k) t"
    using assms(5) by (simp add: assms(4))
qed

text \<open>One call: its answer, and what it leaves.\<close>

lemma numbered_allow_spec:
  assumes srv: "redis_server_ok execute zset" and ids: "uuids_ok uuids" and w: "0 < window"
    and rep: "redis_represents zset prefix window uuids (r, n) h t0" and t: "t0 \<le> t" and l: "0 < limit"
  shows "\<exists>retry st'. numbered_allow execute prefix uuids t key limit window (r, n)
      = (Inr (fst (history_step window (ms_clock t) key limit h), retry), st') \<and>
    redis_represents zset prefix window uuids st' (snd (history_step window (ms_clock t) key limit h)) t"
proof -
  let ?k = "redis_key prefix key" and ?T = "trunc_div t 1000"
  let ?b = "?T - window * 1000" and ?m = "int_str (trunc_div t 1000) @ '':'' @ uuids n"
  have t0: "0 \<le> t" and key: "key_represents window uuids (zset r ?k) n (h key) t0"
    using rep t by (auto simp: redis_represents_def)
  obtain c r1 where "counts_range execute zset ?k ?b r c r1"
    using srv unfolding redis_server_ok_def by blast
  then have ex1: "execute [Zremrangebyscore ?k 0 ?b, Zcard ?k] r
      = (Inr [Reply_Int c, Reply_Int (int (length (zset r1 ?k)))], r1)"
    and z1: "zset r1 = (zset r)(?k := filter (\<lambda>(m, sc). \<not> (0 \<le> sc \<and> sc \<le> ?b)) (zset r ?k))"
    by (simp_all add: counts_range_def)
  have sc1: "map snd (zset r1 ?k) = scores_of window (ms_clock t) (h key)"
    using purge_scores [OF key t t0] by (simp add: z1)
  have len: "length (zset r1 ?k) = length (recent window (ms_clock t) (h key))"
    using arg_cong [OF sc1, of length] by (simp add: scores_of_def)
  have rep1: "redis_represents zset prefix window uuids (r1, Suc n) h t"
    using redis_represents_update [OF rep t t0 z1, of "h key"]
      key_represents_later [OF key_represents_purged [OF key t t0] order.refl, of "Suc n"] by simp
  have first: "execute [Zrange_First ?k] r1 = (Inr [Reply_Scores (take 1 (zset r1 ?k))], r1)"
    using srv by (simp add: redis_server_ok_def)
  show ?thesis
  proof (cases "int (length (recent window (ms_clock t) (h key))) < limit")
    case False
    then obtain x xs where "zset r1 ?k = x # xs"
      using len l by (cases "zset r1 ?k") auto
    then have "\<exists>retry. numbered_allow execute prefix uuids t key limit window (r, n)
        = (Inr (False, retry), (r1, Suc n))"
      using False ex1 first len
      by (cases x) (auto simp: numbered_allow_def redis_allow_def Let_def redis_key_def [symmetric]
          simp del: append_Cons append.simps)
    then show ?thesis
      using False rep1 by (auto simp: history_step_def)
  next
    case True
    have key1: "key_represents window uuids (zset r1 ?k) n (h key) t"
      using key_represents_purged [OF key t t0] by (simp add: z1)
    have "newest_member zset ?k ?m ?T r1"
      using key1 t0 ids by (rule newest_member_new)
    then obtain r2 where "adds_member execute zset ?k ?m ?T (window + 5) r1 r2"
      using srv unfolding redis_server_ok_def by blast
    then obtain replies z where ex2: "execute [Zadd ?k ?m ?T, Expire ?k (window + 5)] r1 = (Inr replies, r2)"
      and z: "map snd z = map snd (zset r1 ?k) @ [?T]" "fst ` set z = insert ?m (fst ` set (zset r1 ?k))"
      and z2: "zset r2 = (zset r1)(?k := z)"
      unfolding adds_member_def by blast
    have "redis_represents zset prefix window uuids (r2, Suc n) (h(key := h key @ [ms_clock t])) t"
    proof (rule redis_represents_update [OF rep t t0])
      show "zset r2 = (zset r)(?k := z)"
        by (simp add: z2 z1)
      show "key_represents window uuids z (Suc n) (h key @ [ms_clock t]) t"
        using key1 sc1 t0 w z
        by (rule key_represents_added)
    qed
    moreover have "numbered_allow execute prefix uuids t key limit window (r, n) = (Inr (True, 0), (r2, Suc n))"
      using True ex1 ex2 len
      by (auto simp: numbered_allow_def redis_allow_def Let_def redis_key_def [symmetric]
          simp del: append_Cons append.simps)
    ultimately show ?thesis
      using True by (auto simp: history_step_def)
  qed
qed

lemma redis_clocked_limiter:
  assumes "redis_server_ok execute zset" and "uuids_ok uuids" and "0 < window" and "zset r0 = (\<lambda>_. [])"
  shows "clocked_limiter window ms_clock (\<lambda>t. 0 \<le> t) (numbered_allow execute prefix uuids)
    (redis_represents zset prefix window uuids) (r0, 0)"
proof
  show "ms_clock t \<le> ms_clock t'" if "t \<le> t'" for t t'
    using that by (rule ms_clock_mono)
  show "redis_represents zset prefix window uuids (r0, 0) no_events t" if "0 \<le> t" for t
    using that ms_clock_nonneg
    by (auto simp: redis_represents_def key_represents_def assms(4) no_events_def scores_of_def recent_def)
  show "\<exists>retry st'. numbered_allow execute prefix uuids t key limit window st
      = (Inr (fst (history_step window (ms_clock t) key limit h), retry), st') \<and>
    redis_represents zset prefix window uuids st' (snd (history_step window (ms_clock t) key limit h)) t"
    if "redis_represents zset prefix window uuids st h t0" "t0 \<le> t" "0 < limit" for st h t0 t limit key
    using numbered_allow_spec [OF assms(1-3) _ that(2,3), of prefix "fst st" "snd st"] that(1) by simp
qed

section \<open>A server\<close>

text \<open>A server of the commands of \<open>allow\<close>, on which the hypotheses hold.\<close>

type_synonym redis_store = "string \<Rightarrow> (string \<times> int) list"

fun store_command :: "redis_cmd \<Rightarrow> redis_store \<Rightarrow> redis_reply res \<times> redis_store" where
  "store_command (Zremrangebyscore k a b) st =
     (Inr (Reply_Int (int (length (filter (\<lambda>(m, sc). a \<le> sc \<and> sc \<le> b) (st k))))),
      st(k := filter (\<lambda>(m, sc). \<not> (a \<le> sc \<and> sc \<le> b)) (st k)))"
| "store_command (Zcard k) st = (Inr (Reply_Int (int (length (st k)))), st)"
| "store_command (Zrange_First k) st = (Inr (Reply_Scores (take 1 (st k))), st)"
| "store_command (Zadd k m sc) st =
     (let others = filter (\<lambda>(m', _). m' \<noteq> m) (st k)
      in (Inr (Reply_Int 1), st(k := takeWhile (\<lambda>(_, sc'). sc' \<le> sc) others @ [(m, sc)]
            @ dropWhile (\<lambda>(_, sc'). sc' \<le> sc) others)))"
| "store_command (Expire k ttl) st = (Inr (Reply_Int 1), st)"
| "store_command _ st = (Inl ServiceError, st)"

fun store_execute :: "redis_store redis_execute" where
  "store_execute [] st = (Inr [], st)"
| "store_execute (c # cs) st =
     (case store_command c st of
        (Inl err, st) \<Rightarrow> (Inl err, st)
      | (Inr reply, st) \<Rightarrow>
          (case store_execute cs st of
             (Inl err, st) \<Rightarrow> (Inl err, st)
           | (Inr replies, st) \<Rightarrow> (Inr (reply # replies), st)))"

lemma store_server_ok: "redis_server_ok store_execute (\<lambda>st. st)"
  unfolding redis_server_ok_def
proof (intro conjI allI impI)
  fix st :: redis_store and k m :: string and b sc ttl :: int
  show "\<exists>n st'. counts_range store_execute (\<lambda>st. st) k b st n st'"
    by (simp add: counts_range_def)
  show "store_execute [Zrange_First k] st = (Inr [Reply_Scores (take 1 (st k))], st)"
    by simp
  assume new: "newest_member (\<lambda>st. st) k m sc st"
  have others: "filter (\<lambda>(m', _). m' \<noteq> m) (st k) = st k"
    using new by (intro filter_True) (auto simp: newest_member_def image_iff)
  have all: "takeWhile (\<lambda>(_, sc'). sc' \<le> sc) (st k) = st k" "dropWhile (\<lambda>(_, sc'). sc' \<le> sc) (st k) = []"
    using new by (auto simp: newest_member_def takeWhile_eq_all_conv dropWhile_eq_Nil_conv)
  show "\<exists>st'. adds_member store_execute (\<lambda>st. st) k m sc ttl st st'"
    unfolding adds_member_def
    by (intro exI [of _ "st(k := st k @ [(m, sc)])"] exI [of _ "[Reply_Int 1, Reply_Int 1]"]
        exI [of _ "st k @ [(m, sc)]"]) (simp add: others all Let_def)
qed

text \<open>Ids without a colon: \<open>n\<close> letters.\<close>

definition example_uuids :: "nat \<Rightarrow> string" where
  "example_uuids n = replicate n CHR ''x''"

lemma example_uuids_ok: "uuids_ok example_uuids"
  unfolding uuids_ok_def inj_def by (auto simp: example_uuids_def dest: arg_cong [of _ _ length])

section \<open>The properties\<close>

text \<open>The Redis limiter bounds calls like the in-memory one: against a server that keeps its sorted sets
  as documented, calls served one after the other are answered as if every accepted call were
  remembered at its whole millisecond, and no span of time as long as the window has more accepted
  calls of a key than its limit.\<close>

theorem redis_limiter_bounds_window:
  assumes "redis_server_ok execute zset" and "uuids_ok uuids" and "0 < window" and "zset r0 = (\<lambda>_. [])"
    and "sorted (map fst calls)" and "\<forall>key. 0 < limits key" and "\<forall>c \<in> set calls. 0 \<le> fst c"
  shows "run_calls window (numbered_allow execute prefix uuids) limits calls (r0, 0)
      = fst (run_history window limits (seen ms_clock calls) no_events) \<and>
    int (in_window window y (accepted_times key (seen ms_clock calls)
      (run_calls window (numbered_allow execute prefix uuids) limits calls (r0, 0)))) \<le> limits key"
  using clocked_limiter.run_clocked [OF redis_clocked_limiter [OF assms(1-4)] assms(5-7)]
    clocked_limiter.accepted_clocked [OF redis_clocked_limiter [OF assms(1-4)] assms(5-7)]
  by blast

theorem redis_limiter_bounds_window_witness:
  "run_calls 60 (numbered_allow store_execute ''rl'' example_uuids) (\<lambda>_. 1)
     [(0, ''k''), (500, ''k''), (60000000, ''k'')] (\<lambda>_. [], 0) = [True, False, True]"
proof -
  have "\<forall>c \<in> set [(0, ''k''), (500, ''k''), (60000000, ''k'')]. 0 \<le> (fst c :: int)"
    by simp
  with redis_limiter_bounds_window [OF store_server_ok example_uuids_ok, of 60 "\<lambda>_. []"
      "[(0, ''k''), (500, ''k''), (60000000, ''k'')]" "\<lambda>_. 1" "''rl''"]
  have "run_calls 60 (numbered_allow store_execute ''rl'' example_uuids) (\<lambda>_. 1)
      [(0, ''k''), (500, ''k''), (60000000, ''k'')] (\<lambda>_. [], 0)
    = fst (run_history 60 (\<lambda>_. 1) (seen ms_clock [(0, ''k''), (500, ''k''), (60000000, ''k'')]) no_events)"
    by simp
  also have "\<dots> = [True, False, True]"
    by (simp add: seen_def ms_clock_def trunc_div_def history_step_def recent_def second_def no_events_def)
  finally show ?thesis .
qed

section \<open>Two clients at once\<close>

text \<open>The two halves of a call: the count, and the addition.\<close>

definition redis_count :: "'r redis_execute \<Rightarrow> string \<Rightarrow> instant \<Rightarrow> string \<Rightarrow> int \<Rightarrow> 'r \<Rightarrow> redis_reply list res \<times> 'r" where
  "redis_count execute prefix t key window_seconds r =
     execute [Zremrangebyscore (redis_key prefix key) 0 (trunc_div t 1000 - window_seconds * 1000),
       Zcard (redis_key prefix key)] r"

definition redis_record ::
  "'r redis_execute \<Rightarrow> string \<Rightarrow> string \<Rightarrow> instant \<Rightarrow> string \<Rightarrow> int \<Rightarrow> 'r \<Rightarrow> (bool \<times> int) res \<times> 'r" where
  "redis_record execute prefix uuid t key window_seconds r =
     (case execute [Zadd (redis_key prefix key) (int_str (trunc_div t 1000) @ '':'' @ uuid) (trunc_div t 1000),
         Expire (redis_key prefix key) (window_seconds + 5)] r of
        (Inl err, r) \<Rightarrow> (Inl err, r)
      | (Inr _, r) \<Rightarrow> (Inr (True, 0), r))"

lemma redis_allow_halves:
  assumes "redis_count execute prefix t key window r = (Inr [reply, Reply_Int n], r1)" and "n < limit"
  shows "redis_allow execute prefix uuid t key limit window r = redis_record execute prefix uuid t key window r1"
  using assms by (simp add: redis_allow_def redis_count_def redis_record_def redis_key_def Let_def)

text \<open>Two clients at once can exceed the limit: the count and the addition are separate pipelines, so
  when both count before either adds, both calls are accepted although the limit is one, and the
  server then holds two calls in the same window.\<close>

theorem redis_race_exceeds_limit:
  "(let (a, r1) = redis_count store_execute ''rl'' 0 ''k'' 60 (\<lambda>_. []);
        (b, r2) = redis_count store_execute ''rl'' 0 ''k'' 60 r1;
        (x, r3) = redis_record store_execute ''rl'' ''u'' 0 ''k'' 60 r2;
        (y, r4) = redis_record store_execute ''rl'' ''v'' 0 ''k'' 60 r3
    in (a, b, x, y, length (r4 (redis_key ''rl'' ''k''))))
   = (Inr [Reply_Int 0, Reply_Int 0], Inr [Reply_Int 0, Reply_Int 0], Inr (True, 0), Inr (True, 0), 2)"
  by (simp add: redis_count_def redis_record_def Let_def)

end
