(* ===== verification/Expiry_Race.thy ===== *)
theory Expiry_Race
  imports Tasks Booking_Cancellation Bookings_Handlers Scenario
begin

text \<open>
  The expiry task (\<^verbatim>\<open>app/tasks/expirations.py\<close>) reads the stale bookings and their slots without a
  lock, and writes them back at its commit. Here its transaction is cut in two at that place, so
  that requests can be served in between: a row is written by its primary key, with the columns
  the task has changed, whatever has become of it.
\<close>

section \<open>The two halves\<close>

definition expire_read :: "settings \<Rightarrow> instant \<Rightarrow> db \<Rightarrow> booking list" where
  "expire_read cfg current_time d =
     stale_bookings (current_time - minutes (booking_expire_after_start_minutes cfg)) d"

definition expire_write :: "instant \<Rightarrow> booking list \<Rightarrow> db \<Rightarrow> db" where
  "expire_write current_time stale d = fold (\<lambda>b. release (expire_booking current_time) b) stale d"

text \<open>Without anything in between they are the task as a whole.\<close>

lemma expire_halves:
  assumes "schema_ok (expire_write (now e) (expire_read cfg (now e) d) d)"
  shows "expire_started_slots cfg e ep None (open_session d) =
    (case promote_all ep (expire_read cfg (now e) d)
        (open_session (expire_write (now e) (expire_read cfg (now e) d) d)) of
       (Inl err, s) \<Rightarrow> (Inl err, s)
     | (Inr _, s) \<Rightarrow> (Inr (int (length (expire_read cfg (now e) d))), s))"
  using assms
  by (auto simp: expire_started_slots_def expire_read_def expire_write_def Let_def commit_ok modify_def
      open_session_def split: prod.splits sum.splits)

section \<open>Undisturbed, and disturbed\<close>

text \<open>The expiry task is safe as long as nobody touches the bookings it has read: if they are all
  still confirmed on the same slots when it commits, whatever else has happened in between, bookings
  stay exclusive and exactly the slots of those bookings become free.\<close>

theorem late_expiry_safe_when_undisturbed:
  assumes "base_inv d'" and "exclusive d'" and "distinct (map b_id stale)"
    and "set stale \<subseteq> set (bookings d')" and "\<forall>b \<in> set stale. status b = CONFIRMED"
  shows "exclusive (expire_write t stale d') \<and>
    holder_of (expire_write t stale d') = (\<lambda>s. if s \<in> slot_id ` set stale then None else holder_of d' s)"
  unfolding expire_write_def
  by (rule fold_release_exclusive [OF assms(1,2) closing_expire assms(3-5)])

theorem late_expiry_safe_when_undisturbed_witness:
  "holder_of (expire_write 1000 (expire_read default_settings 1000 demo_db) demo_db) 2 = None"
proof -
  let ?stale = "[demo_booking 1 2 1 CONFIRMED]"
  have "expire_read default_settings 1000 demo_db = ?stale"
    by code_simp
  moreover have "distinct (map b_id ?stale)" "set ?stale \<subseteq> set (bookings demo_db)"
      "\<forall>b \<in> set ?stale. status b = CONFIRMED" "2 \<in> slot_id ` set ?stale"
    by (simp_all add: demo_defs)
  ultimately show ?thesis
    using late_expiry_safe_when_undisturbed [OF demo_base_inv demo_exclusive, of ?stale 1000] by simp
qed


end
