(* ===== verification/Stale_Rows.thy ===== *)
theory Stale_Rows
  imports System Expiry_Race
begin

text \<open>
  The handlers that read rows without a lock and write later: moving a booking and opening or
  deleting a slot (\<^verbatim>\<open>app/api/v1/bookings.py\<close>, \<^verbatim>\<open>app/api/v1/specialists.py\<close>), and the expiry task. Each is
  cut into what it has loaded and what it writes at its commit, so that other requests can be
  served in between. A move locks its rows before it writes, but it has loaded them before that:
  SQLAlchemy documents that a query that finds a loaded row again leaves the attributes of the object as they
  are, unless it is told to populate existing objects.
\<close>

section \<open>Requests cut in two\<close>

text \<open>
  \<open>look a d\<close> is what the request \<open>a\<close> has loaded, \<open>None\<close> when it is refused; \<open>finish a v d\<close> is what its
  commit makes of the database at that time; \<open>fresh a v d\<close> is that nothing has changed that matters.
\<close>

locale split_request =
  fixes look :: "'a \<Rightarrow> db \<Rightarrow> 'v option" and finish :: "'a \<Rightarrow> 'v \<Rightarrow> db \<Rightarrow> db"
    and whole :: "'a \<Rightarrow> db \<Rightarrow> db" and fresh :: "'a \<Rightarrow> 'v \<Rightarrow> db \<Rightarrow> bool"
  assumes refused: "base_inv d \<Longrightarrow> look a d = None \<Longrightarrow> whole a d = d"
    and halves: "base_inv d \<Longrightarrow> look a d = Some v \<Longrightarrow> whole a d = finish a v d"
    and looked: "base_inv d \<Longrightarrow> look a d = Some v \<Longrightarrow> fresh a v d"
    and late: "base_inv d \<Longrightarrow> exclusive d \<Longrightarrow> fresh a v d \<Longrightarrow>
      base_inv (finish a v d) \<and> exclusive (finish a v d)"
begin

lemma undisturbed:
  assumes "base_inv d" and "exclusive d"
  shows "base_inv (whole a d) \<and> exclusive (whole a d)"
  using assms refused [of d a] halves [of d a] looked [of d a] late [of d a]
  by (cases "look a d") auto

text \<open>Other requests may run in between, as long as they are safe and leave what was loaded fresh.\<close>

lemma interleaved:
  assumes "base_inv d" and "exclusive d" and "safe_run c cfg ops d" and "look a d = Some v"
    and "fresh a v (fold (exec_op c cfg) ops d)"
  shows "base_inv (finish a v (fold (exec_op c cfg) ops d)) \<and>
    exclusive (finish a v (fold (exec_op c cfg) ops d))"
  using safe_run_keeps [OF assms(1-3)] late [OF _ _ assms(5)] by blast

end

section \<open>Expiring\<close>

definition expire_look :: "settings \<times> instant \<Rightarrow> db \<Rightarrow> booking list option" where
  "expire_look a d = Some (expire_read (fst a) (snd a) d)"

definition expire_fresh :: "settings \<times> instant \<Rightarrow> booking list \<Rightarrow> db \<Rightarrow> bool" where
  "expire_fresh a stale d \<longleftrightarrow> distinct (map b_id stale) \<and> set stale \<subseteq> set (bookings d) \<and>
     (\<forall>b \<in> set stale. status b = CONFIRMED)"

lemma expire_write_eq: "expire_write t (expire_read cfg t d) d = expired_db cfg t d"
  by (simp add: expire_write_def expire_read_def expired_db_def)

interpretation late_expire: split_request expire_look "\<lambda>a. expire_write (snd a)"
  "\<lambda>a. expired_db (fst a) (snd a)" expire_fresh
proof
  fix d and a :: "settings \<times> instant" and stale
  show "expire_look a d = None \<Longrightarrow> expired_db (fst a) (snd a) d = d"
    by (simp add: expire_look_def)
  show "expire_look a d = Some stale \<Longrightarrow> expired_db (fst a) (snd a) d = expire_write (snd a) stale d"
    by (auto simp: expire_look_def expire_write_eq)
  show "base_inv d \<Longrightarrow> expire_look a d = Some stale \<Longrightarrow> expire_fresh a stale d"
    using stale_bookings_facts [of d] base_inv_schema [of d]
    by (auto simp: expire_look_def expire_fresh_def expire_read_def)
  show "base_inv d \<Longrightarrow> exclusive d \<Longrightarrow> expire_fresh a stale d \<Longrightarrow>
      base_inv (expire_write (snd a) stale d) \<and> exclusive (expire_write (snd a) stale d)"
    using fold_release_base [OF _ closing_expire] fold_release_exclusive [OF _ _ closing_expire]
    by (auto simp: expire_fresh_def expire_write_def)
qed

section \<open>Deleting a slot\<close>

text \<open>\<open>delete_slot_for_me\<close>: the slot is loaded and found free, and deleted whatever it is at the commit.\<close>

definition delete_look :: "int \<times> user \<Rightarrow> db \<Rightarrow> int option" where
  "delete_look a d = (case a of (slot, u) \<Rightarrow>
     if role u \<in> {SPECIALIST, ADMIN}
     then (case find_by sp_user_id (u_id u) (specialist_profiles d) of
             None \<Rightarrow> None
           | Some profile \<Rightarrow>
             (case find (\<lambda>t. ts_id t = slot \<and> specialist_id t = sp_id profile) (time_slots d) of
                None \<Rightarrow> None
              | Some t \<Rightarrow> if is_booked t then None else Some (ts_id t)))
     else None)"

definition delete_finish :: "int \<Rightarrow> db \<Rightarrow> db" where
  "delete_finish i d = (case commit (modify (remove_slot i) (open_session d)) of (r, s) \<Rightarrow> committed s)"

lemma delete_finish_eq: "delete_finish i d = (if schema_ok (remove_slot i d) then remove_slot i d else d)"
  by (simp add: delete_finish_def commit_def modify_def open_session_def)

interpretation late_delete: split_request delete_look "\<lambda>a. delete_finish"
  "\<lambda>a d. snd (serve_delete_slot e a d)" "\<lambda>a v d. True"
proof
  fix d v and a :: "int \<times> user"
  show "delete_look a d = None \<Longrightarrow> snd (serve_delete_slot e a d) = d"
    by (auto simp: delete_look_def serve_delete_slot_def get_db_def delete_slot_for_me_def depends_def
        require_roles_eq split: if_splits option.splits prod.splits)
  show "delete_look a d = Some v \<Longrightarrow> snd (serve_delete_slot e a d) = delete_finish v d"
    by (auto simp: delete_look_def serve_delete_slot_def get_db_def delete_slot_for_me_def depends_def
        require_roles_eq delete_finish_eq commit_def modify_def Let_def
        split: if_splits option.splits prod.splits)
  show "base_inv d \<Longrightarrow> exclusive d \<Longrightarrow> base_inv (delete_finish v d) \<and> exclusive (delete_finish v d)"
    using remove_slot_invariants [of d v] by (simp add: delete_finish_eq base_inv_def)
qed simp_all

section \<open>Opening a slot\<close>

text \<open>
  \<open>create_slot_for_me\<close>: the profile is found or flushed, and the slot is added when no overlap was
  found before. A profile that is new is not committed before the slot is.
\<close>

definition slot_look ::
  "env \<times> slot_create_request \<times> user \<Rightarrow> db \<Rightarrow> (bool \<times> specialist_profile) option" where
  "slot_look a d = (case a of (e, payload, u) \<Rightarrow>
     if role u \<in> {SPECIALIST, ADMIN} \<and> is_ok (validate_interval payload)
     then (case get_or_create_specialist_profile e u (open_session d) of
             (Inl err, s) \<Rightarrow> None
           | (Inr profile, s) \<Rightarrow>
             if overlap_found (sp_id profile) payload (current s) then None
             else Some (find_by sp_user_id (u_id u) (specialist_profiles d) = None, profile))
     else None)"

definition slot_finish ::
  "env \<times> slot_create_request \<times> user \<Rightarrow> bool \<times> specialist_profile \<Rightarrow> db \<Rightarrow> db" where
  "slot_finish a v d = (case (a, v) of ((e, payload, u), new, profile) \<Rightarrow>
     let s = (if new then modify (add_profile profile) (open_session d) else open_session d);
         s = modify (add_slot (new_slot e (sp_id profile) payload (current s))) s
     in case commit s of (r, s) \<Rightarrow> committed s)"

definition slot_fresh ::
  "env \<times> slot_create_request \<times> user \<Rightarrow> bool \<times> specialist_profile \<Rightarrow> db \<Rightarrow> bool" where
  "slot_fresh a v d = (case (a, v) of ((e, payload, u), new, profile) \<Rightarrow>
     rq_start_at payload < rq_end_at payload \<and> \<not> overlap_found (sp_id profile) payload d)"

lemma opened_slot_invariants:
  assumes inv: "base_inv d" "exclusive d" and rows: "time_slots d' = time_slots d @ [t]" "bookings d' = bookings d"
    and ok: "schema_ok d'" and t: "\<not> is_booked t" "start_at t < end_at t"
    and new: "\<not> (\<exists>u \<in> set (time_slots d). specialist_id u = specialist_id t \<and> start_at u < end_at t \<and>
      end_at u > start_at t)"
  shows "base_inv d' \<and> exclusive d'"
proof -
  have "ts_id t \<notin> ts_id ` set (time_slots d)"
    using schema_ok_distinct(6) [OF ok] rows(1) by simp
  then have "confirmed_on (ts_id t) d = []"
    by (rule new_slot_unused [OF base_inv_schema [OF inv(1)]])
  moreover have "confirmed_on s d' = confirmed_on s d" for s
    using rows(2) by (rule confirmed_on_cong)
  ultimately have "exclusive d'" "backed d'"
    using inv rows(1) t(1) by (simp_all add: exclusive_def backed_def base_inv_def)
  moreover have "slots_disjoint d' = slots_disjoint (add_slot t d)"
    using rows(1) by (intro slots_disjoint_cong) simp
  ultimately show ?thesis
    using add_slot_disjoint [OF _ t(2) new] inv(1) ok by (simp add: base_inv_def)
qed

lemma slot_finish_eq:
  "slot_finish (e, payload, u) (new, profile) d =
     (let d0 = if new then add_profile profile d else d;
          d1 = add_slot (new_slot e (sp_id profile) payload d0) d0
      in if schema_ok d1 then d1 else d)"
  by (simp add: slot_finish_def Let_def commit_def)

interpretation late_slot: split_request slot_look slot_finish
  "\<lambda>a d. snd (case a of (e, payload, u) \<Rightarrow> serve_add_slot e (payload, u) d)" slot_fresh
proof
  fix d and v :: "bool \<times> specialist_profile" and a :: "env \<times> slot_create_request \<times> user"
  obtain e payload u new profile where a: "a = (e, payload, u)" "v = (new, profile)"
    by (cases a, cases v)
  assume inv: "base_inv d"
  note cases = get_or_create_cases [OF surjective_pairing base_inv_schema [OF inv], of e u]
  show "snd (case a of (e, payload, u) \<Rightarrow> serve_add_slot e (payload, u) d) = d" if "slot_look a d = None"
    using that cases
    by (auto simp: a(1) slot_look_def serve_add_slot_def get_db_def create_slot_for_me_def depends_def
        require_roles_eq validate_interval_def split: if_splits option.splits sum.splits prod.splits)
  show "snd (case a of (e, payload, u) \<Rightarrow> serve_add_slot e (payload, u) d) = slot_finish a v d"
    if "slot_look a d = Some v"
    using that cases
    by (auto simp: a(1) slot_look_def slot_finish_eq serve_add_slot_def get_db_def create_slot_for_me_def
        depends_def require_roles_eq validate_interval_def find_by_append with_profile_def commit_def modify_def Let_def
        split: if_splits option.splits sum.splits prod.splits)
  show "slot_fresh a v d" if "slot_look a d = Some v"
    using that cases
    by (auto simp: a(1) slot_look_def slot_fresh_def validate_interval_def overlap_found_def
        split: if_splits sum.splits prod.splits)
  show "base_inv (slot_finish a v d) \<and> exclusive (slot_finish a v d)" if "exclusive d" "slot_fresh a v d"
    using that inv opened_slot_invariants [OF inv that(1), of "slot_finish a v d"]
    by (auto simp: a slot_finish_eq slot_fresh_def Let_def overlap_found_def)
qed

section \<open>Moving a booking\<close>

text \<open>
  \<open>reschedule_existing_booking\<close> loads the booking and its slot to check the permission;
  \<open>reschedule_booking\<close> then queries the booking and both slots again, with locks, and everything after
  that is one step. \<open>populate_existing\<close> says whether these queries overwrite the loaded objects; a changed
  attribute is written to its row at the commit.
\<close>

definition move_look :: "int \<Rightarrow> user \<Rightarrow> db \<Rightarrow> (booking \<times> time_slot) option" where
  "move_look booking_id current_user d =
     (case find_by b_id booking_id (bookings d) of
        None \<Rightarrow> None
      | Some b \<Rightarrow>
        (case find_by ts_id (slot_id b) (time_slots d) of
           None \<Rightarrow> None
         | Some current_slot \<Rightarrow>
           if allowed_on current_user b current_slot d then Some (b, current_slot) else None))"

definition move_finish ::
  "bool \<Rightarrow> int \<Rightarrow> int \<Rightarrow> booking \<times> time_slot \<Rightarrow> db \<Rightarrow> booking res \<times> db" where
  "move_finish populate_existing booking_id new_slot_id loaded d =
     (case find_by b_id booking_id (bookings d) of
        None \<Rightarrow> (Inl (http 404 ''Booking not found''), d)
      | Some row \<Rightarrow>
        let bk = (if populate_existing then row else fst loaded) in
        if status bk \<noteq> CONFIRMED then (Inl (http 409 BOOKING_NOT_RESCHEDULABLE_DETAIL), d)
        else if slot_id bk = new_slot_id then (Inr bk, d)
        else
          (case find_by ts_id (slot_id bk) (time_slots d) of
             None \<Rightarrow> (Inl (http 404 ''Current slot not found''), d)
           | Some slot_row \<Rightarrow>
             (case find_by ts_id new_slot_id (time_slots d) of
                None \<Rightarrow> (Inl (http 404 ''Slot not found''), d)
              | Some target \<Rightarrow>
                let current_slot = (if populate_existing then slot_row else snd loaded) in
                if specialist_id target \<noteq> specialist_id current_slot
                then (Inl (http 409 SLOT_SPECIALIST_MISMATCH_DETAIL), d)
                else if is_booked target then (Inl (http 409 SLOT_ALREADY_BOOKED_DETAIL), d)
                else
                  (let s = open_session d;
                       s = (if is_booked current_slot then modify (set_booked (ts_id current_slot) False) s
                            else s);
                       s = modify (set_booked (ts_id target) True) s;
                       s = modify (update_booking (b_id bk) (\<lambda>b. b\<lparr>slot_id := ts_id target\<rparr>)) s
                   in case commit s of
                        (Inl err, s) \<Rightarrow> (Inl err, committed s)
                      | (Inr _, s) \<Rightarrow> (Inr (row\<lparr>slot_id := ts_id target\<rparr>), committed s)))))"

definition move_fresh :: "bool \<Rightarrow> int \<Rightarrow> booking \<times> time_slot \<Rightarrow> db \<Rightarrow> bool" where
  "move_fresh populate_existing booking_id loaded d \<longleftrightarrow> populate_existing \<or>
     find_by b_id booking_id (bookings d) = Some (fst loaded) \<and>
     find_by ts_id (slot_id (fst loaded)) (time_slots d) = Some (snd loaded)"

text \<open>A slot that is free already stays as it is.\<close>

lemma set_booked_idle:
  assumes "schema_ok d" and "find_by ts_id i (time_slots d) = Some t" and "is_booked t = v"
  shows "set_booked i v d = d"
proof -
  have "u = t" if "u \<in> set (time_slots d)" "ts_id u = i" for u
    using find_by_SomeD [OF assms(2)] distinct_key_eq [OF schema_ok_distinct(6) [OF assms(1)]] that by auto
  then have "update_by ts_id i (\<lambda>t. t\<lparr>is_booked := v\<rparr>) (time_slots d) = time_slots d"
    using assms(3) by (auto simp: update_by_def intro!: map_idI)
  then show ?thesis
    by (simp add: set_booked_def)
qed

text \<open>On rows that are fresh, or read again, the move is the reference function at the time of the commit.\<close>

lemma move_finish_populated:
  assumes "schema_ok d"
  shows "move_finish True i n loaded d = reschedule_ref i n d"
proof (cases "find_by b_id i (bookings d)")
  case None
  then show ?thesis
    by (simp add: move_finish_def reschedule_ref_def)
next
  case (Some row)
  show ?thesis
  proof (cases "find_by ts_id (slot_id row) (time_slots d)")
    case None
    then show ?thesis
      using Some by (simp add: move_finish_def reschedule_ref_def)
  next
    case (Some c)
    note row = \<open>find_by b_id i (bookings d) = Some row\<close>
    have id: "ts_id c = slot_id row"
      using find_by_SomeD [OF Some] by simp
    have free: "\<not> is_booked c \<Longrightarrow> set_booked (slot_id row) False d = d"
      by (rule set_booked_idle [OF assms Some]) simp
    show ?thesis
    proof (cases "find_by ts_id n (time_slots d)")
      case None
      then show ?thesis
        using Some row by (simp add: move_finish_def reschedule_ref_def)
    next
      case (Some u)
      have u: "ts_id u = n" "schema_ok (moved_db row n d)"
        using find_by_SomeD [OF Some] schema_ok_moved_db [OF assms] by auto
      have "move_finish True i n loaded d = (if status row \<noteq> CONFIRMED \<or> slot_id row = n
            \<or> specialist_id u \<noteq> specialist_id c \<or> is_booked u then reschedule_ref i n d
          else (Inr (row\<lparr>slot_id := n\<rparr>), moved_db row n d))"
        by (cases "is_booked c") (use free u in \<open>simp_all add: move_finish_def reschedule_ref_def row Some
            \<open>find_by ts_id (slot_id row) _ = _\<close> id commit_def Let_def moved_db_def\<close>)
      then show ?thesis
        by (simp add: reschedule_ref_def row Some \<open>find_by ts_id (slot_id row) _ = _\<close>)
    qed
  qed
qed

lemma move_finish_fresh:
  assumes "schema_ok d" and "move_fresh p i loaded d"
  shows "move_finish p i n loaded d = reschedule_ref i n d"
proof -
  have "move_finish p i n loaded d = move_finish True i n loaded d"
    using assms(2) by (cases p) (simp_all add: move_finish_def move_fresh_def Let_def)
  then show ?thesis
    by (simp add: move_finish_populated [OF assms(1)])
qed

text \<open>A handler with no failing statements: \<open>quiet e\<close> is \<open>e\<close> without them.\<close>

definition quiet :: "env \<Rightarrow> env" where
  "quiet e = e\<lparr>fault := \<lambda>_. None\<rparr>"

lemma serve_move_look:
  assumes "schema_ok d"
  shows "snd (serve_move (quiet e) (i, n, u) d)
    = (case move_look i u d of None \<Rightarrow> d | Some loaded \<Rightarrow> snd (reschedule_ref i n d))"
proof -
  have "no_faults (quiet e)"
    by (simp add: no_faults_def quiet_def)
  note open_eq = reschedule_open [OF assms this, of i n]
  show ?thesis
    by (auto simp: serve_move_def get_db_def reschedule_existing_booking_def move_look_def open_eq
        split: option.split sum.split prod.split)
qed

lemma reschedule_ref_keeps:
  assumes "base_inv d" and "exclusive d"
  shows "base_inv (snd (reschedule_ref i n d)) \<and> exclusive (snd (reschedule_ref i n d))"
proof (cases "\<exists>bk. movable i n d bk")
  case True
  then show ?thesis
    using moved_db_base [OF assms(1)] moved_db_exclusive [OF assms] by (auto simp: reschedule_ref_movable)
next
  case False
  then show ?thesis
    using assms by (simp add: reschedule_ref_same)
qed

interpretation late_move: split_request "\<lambda>(i, n, u) d. move_look i u d"
  "\<lambda>(i, n, u) loaded d. snd (move_finish p i n loaded d)"
  "\<lambda>a d. snd (serve_move (quiet e) a d)" "\<lambda>(i, n, u). move_fresh p i"
proof
  fix d loaded and a :: "int \<times> int \<times> user"
  obtain i n u where a: "a = (i, n, u)"
    by (cases a)
  assume inv: "base_inv d"
  note ok = base_inv_schema [OF inv]
  show "snd (serve_move (quiet e) a d) = d" if "(case a of (i, n, u) \<Rightarrow> \<lambda>d. move_look i u d) d = None"
    using that by (simp add: a serve_move_look [OF ok])
  have fresh: "move_fresh p i loaded d" if "move_look i u d = Some loaded"
    using that by (auto simp: move_look_def move_fresh_def split: option.splits if_splits)
  show "snd (serve_move (quiet e) a d) = (case a of (i, n, u) \<Rightarrow> \<lambda>loaded d. snd (move_finish p i n loaded d)) loaded d"
    if "(case a of (i, n, u) \<Rightarrow> \<lambda>d. move_look i u d) d = Some loaded"
    using that fresh by (simp add: a serve_move_look [OF ok] move_finish_fresh [OF ok])
  show "(case a of (i, n, u) \<Rightarrow> move_fresh p i) loaded d"
    if "(case a of (i, n, u) \<Rightarrow> \<lambda>d. move_look i u d) d = Some loaded"
    using that fresh by (simp add: a)
  show "base_inv ((case a of (i, n, u) \<Rightarrow> \<lambda>loaded d. snd (move_finish p i n loaded d)) loaded d) \<and>
      exclusive ((case a of (i, n, u) \<Rightarrow> \<lambda>loaded d. snd (move_finish p i n loaded d)) loaded d)"
    if "exclusive d" "(case a of (i, n, u) \<Rightarrow> move_fresh p i) loaded d"
    using that reschedule_ref_keeps [OF inv that(1)] by (simp add: a move_finish_fresh [OF ok])
qed

section \<open>A move on stale objects\<close>

lemma stale_move:
  assumes ok: "schema_ok d" "exclusive d" and row: "find_by b_id i (bookings d) = Some row" "status row \<noteq> CONFIRMED"
    and b: "status b = CONFIRMED" "b_id b = i" "slot_id b \<noteq> n" and t: "is_booked t" "ts_id t = slot_id b"
    and slots: "find_by ts_id (slot_id b) (time_slots d) = Some c" "find_by ts_id n (time_slots d) = Some target"
    and target: "specialist_id target = specialist_id t" "\<not> is_booked target"
  shows "move_finish False i n (b, t) d = (Inr (row\<lparr>slot_id := n\<rparr>), moved_db b n d)"
    and "confirmed_on n (moved_db b n d) = []"
    and "find_by ts_id n (time_slots (moved_db b n d)) = Some (target\<lparr>is_booked := True\<rparr>)"
    and "find_by ts_id (slot_id b) (time_slots (moved_db b n d)) = Some (c\<lparr>is_booked := False\<rparr>)"
    and "confirmed_on (slot_id b) (moved_db b n d) = confirmed_on (slot_id b) d"
proof -
  have n: "ts_id target = n" and i: "b_id row = i"
    using find_by_SomeD [OF slots(2)] find_by_SomeD [OF row(1)] by auto
  have "schema_ok (moved_db b n d)"
    using find_by_SomeD [OF slots(2)] by (intro schema_ok_moved_db [OF ok(1)]) auto
  then show "move_finish False i n (b, t) d = (Inr (row\<lparr>slot_id := n\<rparr>), moved_db b n d)"
    using row(1) b t slots target n by (simp add: move_finish_def commit_def Let_def moved_db_def)
  have only: "status x \<noteq> CONFIRMED" if "x \<in> set (bookings d)" "b_id x = i" for x
    using that row find_by_SomeD [OF row(1)] distinct_key_eq [OF schema_ok_distinct(7) [OF ok(1)]] by metis
  have "confirmed_on s (moved_db b n d) = confirmed_on s d" for s
  proof -
    have "filter (\<lambda>x. slot_id x = s \<and> status x = CONFIRMED)
          (map (\<lambda>x. if b_id x = i then x\<lparr>slot_id := n\<rparr> else x) bs)
        = filter (\<lambda>x. slot_id x = s \<and> status x = CONFIRMED) bs"
      if "\<forall>x \<in> set bs. b_id x = i \<longrightarrow> status x \<noteq> CONFIRMED" for bs
      using that by (induction bs) auto
    from this [of "bookings d"] show ?thesis
      using only b(2) by (simp add: confirmed_on_def moved_db_def update_booking_def update_by_def)
  qed
  then show "confirmed_on n (moved_db b n d) = []" "confirmed_on (slot_id b) (moved_db b n d) = confirmed_on (slot_id b) d"
    using exclusive_free [OF ok(2) slots(2) target(2)] by simp_all
  show "find_by ts_id n (time_slots (moved_db b n d)) = Some (target\<lparr>is_booked := True\<rparr>)"
    "find_by ts_id (slot_id b) (time_slots (moved_db b n d)) = Some (c\<lparr>is_booked := False\<rparr>)"
    using slots b(3) by (simp_all add: moved_db_def set_booked_def find_by_update_by)
qed

end
