(* ===== verification/Lost_Slots.thy ===== *)
theory Lost_Slots
  imports Stale_Rows
begin

text \<open>
  What becomes of a slot that is marked booked although all its bookings are cancelled: no request
  and no task gives it back. The invariant is independent of \<open>base_inv\<close>, which such a slot breaks.
\<close>

section \<open>Lost slots\<close>

definition lost :: "int \<Rightarrow> db \<Rightarrow> bool" where
  "lost n d \<longleftrightarrow> (case find_by ts_id n (time_slots d) of None \<Rightarrow> False | Some t \<Rightarrow> is_booked t) \<and>
     list_all (\<lambda>b. slot_id b = n \<longrightarrow> status b = CANCELLED) (bookings d)"

lemma lost_iff:
  "lost n d \<longleftrightarrow> (\<exists>t. find_by ts_id n (time_slots d) = Some t \<and> is_booked t) \<and>
     (\<forall>b \<in> set (bookings d). slot_id b = n \<longrightarrow> status b = CANCELLED)"
  by (simp add: lost_def list_all_iff split: option.split)

lemma lost_cong: "time_slots d' = time_slots d \<Longrightarrow> bookings d' = bookings d \<Longrightarrow> lost n d' = lost n d"
  by (simp add: lost_iff)

section \<open>The writes of the services\<close>

lemma lost_set_booked: "lost n d \<Longrightarrow> s \<noteq> n \<or> v \<Longrightarrow> lost n (set_booked s v d)"
  by (auto simp: lost_iff set_booked_def find_by_update_by)

lemma lost_claims:
  assumes "lost n d" and "claims e slot client key d r d'"
  shows "schema_ok d' \<and> lost n d'"
proof -
  have "slot \<noteq> n"
    using assms by (auto simp: claims_def lost_iff)
  then have "lost n (set_booked slot True d)" "slot_id (new_booking e slot client key d) \<noteq> n"
    using lost_set_booked [OF assms(1)] by simp_all
  then show ?thesis
    using assms(2) by (auto simp: claims_def booked_db_def lost_iff)
qed

lemma lost_promote:
  assumes "schema_ok d" and "lost n d"
  shows "schema_ok (snd (serve_promote e slot d)) \<and> lost n (snd (serve_promote e slot d))"
proof -
  obtain r d' where r: "serve_promote e slot d = (r, d')"
    by (cases "serve_promote e slot d")
  have "schema_ok (remove_entry i d1) \<and> lost n (remove_entry i d1)" if "schema_ok d1" "lost n d1" for i d1
    using that lost_cong [of "remove_entry i d1" d1] by (simp add: schema_ok_remove_entry)
  then show ?thesis
    using serve_promote_cases [OF assms(1) r] lost_claims [OF assms(2)] assms r by auto
qed

text \<open>A booking of a lost slot is cancelled, so a booking that is closed or moved is on another slot.\<close>

lemma lost_update_booking:
  assumes "schema_ok d" and "lost n d" and "b \<in> set (bookings d)" and "status b \<noteq> CANCELLED"
    and "slot_id (f b) \<noteq> n"
  shows "lost n (update_booking (b_id b) f d)"
proof -
  have "c = b" if "c \<in> set (bookings d)" "b_id c = b_id b" for c
    using that assms(3) distinct_key_eq [OF schema_ok_distinct(7) [OF assms(1)]] by blast
  then show ?thesis
    using assms(2,5) by (auto simp: lost_iff set_update_by)
qed

lemma lost_release:
  assumes "schema_ok d" and "lost n d" and "closing f" and "b \<in> set (bookings d)" and "status b \<noteq> CANCELLED"
  shows "lost n (release f b d)"
proof -
  have "slot_id b \<noteq> n"
    using assms(2,4,5) by (auto simp: lost_iff)
  moreover from this have "lost n (update_booking (b_id b) f d)"
    by (intro lost_update_booking [OF assms(1,2,4,5)]) (simp add: closing_simps [OF assms(3)])
  ultimately show ?thesis
    by (simp add: release_def lost_set_booked)
qed

lemma lost_moved:
  assumes "schema_ok d" and "lost n d" and "movable i m d bk"
  shows "schema_ok (moved_db bk m d) \<and> lost n (moved_db bk m d)"
proof -
  note mv = movableD [OF assms(3)]
  obtain t where t: "find_by ts_id m (time_slots d) = Some t" "\<not> is_booked t"
    using mv(6) by blast
  then have m: "m \<noteq> n" "slot_id bk \<noteq> n"
    using assms(2) mv(1,3) by (auto simp: lost_iff)
  have "schema_ok (moved_db bk m d)"
    using find_by_SomeD [OF t(1)] by (intro schema_ok_moved_db [OF assms(1)]) auto
  moreover have "lost n (set_booked m True (set_booked (slot_id bk) False d))"
    using m by (intro lost_set_booked assms(2)) auto
  then have "lost n (moved_db bk m d)"
    unfolding moved_db_def using mv m
    by (intro lost_update_booking) (simp_all add: assms(1))
  ultimately show ?thesis by simp
qed

section \<open>Requests and tasks\<close>

definition keeps_lost :: "int \<Rightarrow> db \<Rightarrow> bool" where
  "keeps_lost n d \<longleftrightarrow> schema_ok d \<and> lost n d"

lemma keeps_lost_rows:
  assumes "keeps_lost n d" and "schema_ok d'" and "time_slots d' = time_slots d" and "bookings d' = bookings d"
  shows "keeps_lost n d'"
  using assms(1,2) lost_cong [OF assms(3,4)] by (simp add: keeps_lost_def)

lemma lost_register:
  assumes "keeps_lost n d"
  shows "keeps_lost n (snd (serve_register c e payload d))"
proof -
  have "schema_ok (add_user u d) \<Longrightarrow> keeps_lost n (add_user u d)" for u
    by (rule keeps_lost_rows [OF assms]) simp_all
  then show ?thesis
    using serve_register_cases [OF surjective_pairing, of c e payload d] assms by metis
qed

lemma lost_create: "keeps_lost n d \<Longrightarrow> keeps_lost n (snd (serve_create e (slot, client, key) d))"
  using serve_create_cases [OF _ surjective_pairing, of d e slot client key] lost_claims [of n d]
  by (cases "snd (serve_create e (slot, client, key) d) = d") (auto simp: keeps_lost_def)

lemma lost_book: "keeps_lost n d \<Longrightarrow> keeps_lost n (snd (serve_book e (slot, header, u) d))"
  using serve_book_cases [of e slot header u d] lost_create [of n d e slot "u_id u"] by auto

lemma lost_cancel:
  assumes "keeps_lost n d"
  shows "keeps_lost n (snd (serve_cancel e (i, u) d))"
proof -
  have d: "schema_ok d" "lost n d"
    using assms by (simp_all add: keeps_lost_def)
  have "keeps_lost n (snd (serve_promote e (slot_id b) (release (cancel (now e)) b d)))"
    if "find_by b_id i (bookings d) = Some b" "status b \<noteq> CANCELLED" for b
  proof -
    have "b \<in> set (bookings d)"
      using find_by_SomeD [OF that(1)] by simp
    then have "lost n (release (cancel (now e)) b d)"
      by (intro lost_release [OF d closing_cancel]) (simp_all add: that)
    then show ?thesis
      using lost_promote [OF schema_ok_release [OF d(1) closing_cancel]] by (simp add: keeps_lost_def)
  qed
  then show ?thesis
    using cancel_ref_cases [OF surjective_pairing, of e i u d] assms
    by (auto simp: serve_cancel_eq [OF d(1)])
qed

lemma lost_move: "keeps_lost n d \<Longrightarrow> keeps_lost n (snd (serve_move e (i, m, u) d))"
  using serve_move_cases [of e i m u d] serve_reschedule_cases [OF _ surjective_pairing, of d e i m]
  by (auto simp: keeps_lost_def dest: lost_moved)

lemma lost_wait: "keeps_lost n d \<Longrightarrow> keeps_lost n (snd (serve_wait e (slot, u) d))"
  using serve_wait_cases [of e slot u d] serve_join_cases [OF surjective_pairing, of e "(slot, u_id u)" d]
    keeps_lost_rows [of n d] by auto

lemma lost_leave: "keeps_lost n d \<Longrightarrow> keeps_lost n (snd (serve_leave e (i, u) d))"
  using serve_leave_cases [of e i u d] keeps_lost_rows [of n d]
  by (auto simp: keeps_lost_def schema_ok_remove_entry)

lemma with_profile_lost: "schema_ok (with_profile e u d) \<Longrightarrow> keeps_lost n d \<Longrightarrow> keeps_lost n (with_profile e u d)"
  by (rule keeps_lost_rows) simp_all

lemma lost_add_service: "keeps_lost n d \<Longrightarrow> keeps_lost n (snd (serve_add_service e (payload, u) d))"
  using serve_add_service_cases [of d e payload u] keeps_lost_rows [of n d]
  by (auto simp: keeps_lost_def)

lemma lost_add_slot:
  assumes "keeps_lost n d"
  shows "keeps_lost n (snd (serve_add_slot e (payload, u) d))"
proof -
  have "lost n (add_slot t (with_profile e u d))" for t
    using assms by (auto simp: keeps_lost_def lost_iff find_by_append)
  then show ?thesis
    using serve_add_slot_cases [of d e payload u] assms by (auto simp: keeps_lost_def Let_def)
qed

lemma lost_delete_slot:
  assumes "keeps_lost n d"
  shows "keeps_lost n (snd (serve_delete_slot e (slot, u) d))"
proof -
  have "lost n (remove_slot slot d)" if t: "t \<in> set (time_slots d)" "ts_id t = slot" "\<not> is_booked t" for t
  proof -
    have "find_by ts_id slot (time_slots d) = Some t"
      using t assms by (simp add: keeps_lost_def find_by_distinct schema_ok_distinct(6))
    then have "slot \<noteq> n"
      using t(3) assms by (auto simp: keeps_lost_def lost_iff)
    then show ?thesis
      using assms by (auto simp: keeps_lost_def lost_iff find_by_delete_by)
  qed
  then show ?thesis
    using serve_delete_slot_cases [of e slot u d] assms by (auto simp: keeps_lost_def)
qed

lemma lost_promote_all:
  assumes "keeps_lost n d" and "promote_all ep bs (open_session d) = (r, s')"
  shows "keeps_lost n (committed s')"
  using assms
proof (induction bs arbitrary: d)
  case Nil
  then show ?case by auto
next
  case (Cons b bs)
  let ?d = "snd (serve_promote (ep (b_id b)) (slot_id b) d)"
  obtain r1 where r1: "promote_next_wait_list_entry (ep (b_id b)) (slot_id b) (open_session d)
      = (r1, open_session ?d)"
    using serve_promote_open [of d "ep (b_id b)" "slot_id b"] Cons.prems(1) by (auto simp: keeps_lost_def)
  have "keeps_lost n ?d"
    using lost_promote [of d n] Cons.prems(1) by (simp add: keeps_lost_def)
  then show ?case
    using Cons.prems(2) Cons.IH [of ?d] r1 by (auto split: sum.splits)
qed

lemma lost_expire:
  assumes "keeps_lost n d"
  shows "keeps_lost n (snd (serve_expire cfg ep e arg d))"
proof -
  define t where "t = (case arg of None \<Rightarrow> now e | Some u \<Rightarrow> u)"
  have d: "schema_ok d" "lost n d"
    using assms by (simp_all add: keeps_lost_def)
  have "keeps_lost n (fold (release (expire_booking t)) bs d)"
    if "distinct (map b_id bs)" "set bs \<subseteq> set (bookings d)" "\<forall>b \<in> set bs. status b = CONFIRMED" for bs
    using that assms
  proof (induction bs arbitrary: d)
    case Nil
    then show ?case by simp
  next
    case (Cons b bs)
    have "lost n (release (expire_booking t) b d)"
      using Cons.prems by (intro lost_release) (auto simp: keeps_lost_def)
    then have "keeps_lost n (release (expire_booking t) b d)"
      using Cons.prems(4) by (simp add: keeps_lost_def schema_ok_release)
    moreover have "set bs \<subseteq> set (bookings (release (expire_booking t) b d))"
      using Cons.prems by (intro release_keeps_list) auto
    ultimately show ?case
      using Cons by simp
  qed
  then have first: "keeps_lost n (expired_db cfg t d)"
    unfolding expired_db_def using stale_bookings_facts [OF d(1)] by blast
  obtain r s' where loop: "promote_all ep (stale_bookings (cutoff cfg t) d)
      (open_session (expired_db cfg t d)) = (r, s')"
    by (cases "promote_all ep (stale_bookings (cutoff cfg t) d) (open_session (expired_db cfg t d))")
  show ?thesis
    using assms lost_promote_all [OF first loop]
    by (simp add: serve_expire_def get_db_def expire_started_slots_schema [OF d(1) t_def] loop
        split: prod.splits sum.splits)
qed

interpretation lost_slot: db_machine "exec_op c cfg" "keeps_lost n"
proof
  fix d q
  assume "keeps_lost n d"
  then show "keeps_lost n (exec_op c cfg q d)"
    by (cases q) (simp_all add: lost_register lost_book lost_cancel lost_move lost_wait lost_leave
        lost_add_service lost_add_slot lost_delete_slot lost_expire)
qed

end
