(* ===== verification/Race_Properties.thy ===== *)
theory Race_Properties
  imports Lost_Slots
begin

text \<open>
  Properties of requests that others overtake between their queries and their commit: a move that
  reads its rows again is atomic, one that keeps its loaded objects loses a slot for good, and
  a slot is opened without looking again.
\<close>

section \<open>Moving\<close>

text \<open>C25: A move that other requests overtake between its permission check and its service call is still one
  atomic move, at the moment of the call, when the queries of the service overwrite the objects the
  handler has loaded or the booking and its slot have not changed; it then keeps all invariants.\<close>

theorem late_move_is_atomic:
  assumes "base_inv d" and "exclusive d" and "safe_run c cfg ops d" and "move_look i u d = Some loaded"
    and "d' = fold (exec_op c cfg) ops d" and "move_fresh populate_existing i loaded d'"
  shows "move_finish populate_existing i n loaded d' = reschedule_ref i n d' \<and>
    base_inv (snd (move_finish populate_existing i n loaded d')) \<and>
    exclusive (snd (move_finish populate_existing i n loaded d'))"
proof -
  have "schema_ok d'"
    using safe_run_keeps [OF assms(1-3)] assms(5) by (simp add: base_inv_def)
  then have "move_finish populate_existing i n loaded d' = reschedule_ref i n d'"
    by (rule move_finish_fresh [OF _ assms(6)])
  moreover have "base_inv (snd (move_finish populate_existing i n loaded d')) \<and>
      exclusive (snd (move_finish populate_existing i n loaded d'))"
    using late_move.interleaved [OF assms(1-3), of "(i, n, u)" loaded populate_existing] assms(4-6) by simp
  ultimately show ?thesis
    by blast
qed

text \<open>C8: With stale objects a move strands a slot. When the booking has been closed since the handler loaded
  it, the move succeeds all the same: the new slot is marked booked although no booking holds it, and
  the old slot is marked free, whoever holds it now.\<close>

theorem stale_move_strands_slot:
  assumes "exclusive d" and "move_look i u d = Some (b, t)" and "status b = CONFIRMED"
    and "schema_ok d'" and "exclusive d'"
    and "find_by b_id i (bookings d') = Some row" and "status row \<noteq> CONFIRMED"
    and "find_by ts_id (slot_id b) (time_slots d') = Some old"
    and "find_by ts_id n (time_slots d') = Some target" and "n \<noteq> slot_id b"
    and "specialist_id target = specialist_id t" and "\<not> is_booked target"
  shows "\<exists>d''. move_finish False i n (b, t) d' = (Inr (row\<lparr>slot_id := n\<rparr>), d'') \<and>
    find_by ts_id n (time_slots d'') = Some (target\<lparr>is_booked := True\<rparr>) \<and> holder_of d'' n = None \<and>
    find_by ts_id (slot_id b) (time_slots d'') = Some (old\<lparr>is_booked := False\<rparr>) \<and>
    holder_of d'' (slot_id b) = holder_of d' (slot_id b)"
proof -
  have b: "find_by b_id i (bookings d) = Some b" "find_by ts_id (slot_id b) (time_slots d) = Some t"
    using assms(2) by (auto simp: move_look_def split: option.splits if_splits)
  then have "b \<in> set (confirmed_on (slot_id b) d)" "b_id b = i" "ts_id t = slot_id b"
    using assms(3) find_by_SomeD [OF b(1)] find_by_SomeD [OF b(2)] by simp_all
  moreover have "confirmed_on (slot_id b) d \<noteq> []"
    using \<open>b \<in> _\<close> by (metis empty_iff list.set(1))
  then have "is_booked t"
    using exclusiveD [OF assms(1) b(2)] by (cases "is_booked t") simp_all
  ultimately show ?thesis
    using stale_move [OF assms(4-7,3) _ assms(10) [symmetric] _ _ assms(8,9,11,12)]
    by (auto simp: holder_of_def)
qed

section \<open>Lost slots\<close>

text \<open>A slot that is marked booked while all its bookings are cancelled is lost: whatever requests and
  tasks run afterwards, it stays booked, and every request to book it is refused.\<close>

theorem lost_slots_stay_lost:
  assumes "schema_ok d" and "lost n d" and "d' = fold (exec_op c cfg) ops d"
  shows "lost n d' \<and> \<not> is_ok (fst (serve_book e (n, None, u) d')) \<and> snd (serve_book e (n, None, u) d') = d'"
proof -
  have d': "schema_ok d'" "lost n d'"
    using lost_slot.run_good [of n d c cfg ops] assms by (simp_all add: keeps_lost_def)
  obtain r s where call: "create_booking_for_slot e n (u_id u) None (open_session d') = (r, s)"
    by (cases "create_booking_for_slot e n (u_id u) None (open_session d')")
  have "\<not> claims e n (u_id u) None d' r' d1" for r' d1
    using d'(2) by (auto simp: claims_def lost_iff)
  then have "committed s = d'" "\<not> is_ok r"
    using create_booking_shape [OF d'(1) call] by (auto simp: replay_def key_given_def)
  then show ?thesis
    using d'(2) call
    by (cases r) (auto simp: serve_book_def get_db_def create_booking_def depends_def normalize_key_def
        require_roles_eq)
qed

section \<open>Opening and deleting slots\<close>

text \<open>A slot that is opened late keeps the slots of a specialist apart exactly when its interval is still
  free at the commit. The handler looks only before, and no constraint of the database looks at all, so two
  specialist requests at once can open overlapping slots.\<close>

theorem late_slot_exact:
  assumes "base_inv d" and "exclusive d" and "rq_start_at payload < rq_end_at payload"
    and "slot_finish (e, payload, u) (new, profile) d \<noteq> d"
  shows "slots_disjoint (slot_finish (e, payload, u) (new, profile) d)
    \<longleftrightarrow> \<not> overlap_found (sp_id profile) payload d"
proof
  assume "\<not> overlap_found (sp_id profile) payload d"
  then have "slot_fresh (e, payload, u) (new, profile) d"
    using assms(3) by (simp add: slot_fresh_def)
  then show "slots_disjoint (slot_finish (e, payload, u) (new, profile) d)"
    using late_slot.late [OF assms(1,2)] by (simp add: base_inv_def)
next
  let ?d = "if new then add_profile profile d else d"
  let ?t = "new_slot e (sp_id profile) payload ?d"
  have d': "slot_finish (e, payload, u) (new, profile) d = add_slot ?t ?d" "schema_ok (add_slot ?t ?d)"
    using assms(4) by (simp_all add: slot_finish_eq Let_def split: if_splits)
  have rows: "time_slots ?d = time_slots d"
    by simp
  then have fresh: "ts_id ?t \<notin> ts_id ` set (time_slots d)"
    using schema_ok_distinct(6) [OF d'(2)] by simp
  assume "slots_disjoint (slot_finish (e, payload, u) (new, profile) d)"
  then have "\<forall>v \<in> set (time_slots d). ts_id v \<noteq> ts_id ?t \<longrightarrow> \<not> overlaps v ?t"
    unfolding d'(1) by (simp add: slots_disjoint_def list_all_iff rows)
  then show "\<not> overlap_found (sp_id profile) payload d"
    using fresh by (auto simp: overlap_found_def overlaps_def image_iff)
qed

text \<open>Deleting a slot needs no lock: whatever safe requests overtake it after it was found free, the
  invariants hold afterwards, and a slot that has been booked in between is not deleted.\<close>

theorem late_deletion_safe:
  assumes "base_inv d" and "exclusive d" and "safe_run c cfg ops d" and "delete_look a d = Some i"
    and "d' = fold (exec_op c cfg) ops d"
  shows "base_inv (delete_finish i d') \<and> exclusive (delete_finish i d') \<and>
    delete_finish i d' = (if i \<in> slot_id ` set (bookings d') then d' else remove_slot i d')"
proof -
  have "base_inv (delete_finish i d') \<and> exclusive (delete_finish i d')"
    using late_delete.interleaved [OF assms(1-4)] assms(5) by simp
  moreover have "schema_ok d'"
    using safe_run_keeps [OF assms(1-3)] assms(5) by (simp add: base_inv_def)
  ultimately show ?thesis
    by (simp add: delete_finish_eq schema_ok_remove_slot)
qed

section \<open>Scenarios\<close>

text \<open>The first client moves its booking; the second one leaves the wait list meanwhile.\<close>

definition loaded_rows :: "booking \<times> time_slot" where
  "loaded_rows = (demo_booking 1 2 1 CONFIRMED, demo_slot 2 200 300 True)"

lemma loaded_rows_looked: "move_look 1 (demo_user 1 ''a@x'' CLIENT) demo_db = Some loaded_rows"
  by code_simp

definition left_db :: db where
  "left_db = exec_op plain_crypto default_settings (Op_Leave demo_env 1 (demo_user 2 ''b@x'' CLIENT)) demo_db"

theorem late_move_is_atomic_witness:
  "holder_of (snd (move_finish False 1 1 loaded_rows left_db)) 1 = Some 1
   \<and> exclusive (snd (move_finish False 1 1 loaded_rows left_db))"
proof -
  have "move_fresh False 1 loaded_rows left_db"
    by code_simp
  moreover have "safe_run plain_crypto default_settings [Op_Leave demo_env 1 (demo_user 2 ''b@x'' CLIENT)] demo_db"
    by simp
  moreover have "left_db = fold (exec_op plain_crypto default_settings)
      [Op_Leave demo_env 1 (demo_user 2 ''b@x'' CLIENT)] demo_db"
    by (simp add: left_db_def)
  ultimately have "move_finish False 1 1 loaded_rows left_db = reschedule_ref 1 1 left_db"
      "exclusive (snd (move_finish False 1 1 loaded_rows left_db))"
    using late_move_is_atomic [OF demo_base_inv demo_exclusive _ loaded_rows_looked] by blast+
  moreover have "holder_of (snd (reschedule_ref 1 1 left_db)) 1 = Some 1"
    by code_simp
  ultimately show ?thesis
    by simp
qed

text \<open>The first client cancels meanwhile, and the slot passes to the second one.\<close>

definition cancelled_db :: db where
  "cancelled_db = snd (serve_cancel demo_env (1, demo_user 1 ''a@x'' CLIENT) demo_db)"

lemma cancelled_db_facts:
  "schema_ok cancelled_db \<and> exclusive cancelled_db"
  "find_by b_id 1 (bookings cancelled_db) = Some (cancel 1000 (demo_booking 1 2 1 CONFIRMED))"
  "find_by ts_id 2 (time_slots cancelled_db) = Some (demo_slot 2 200 300 True)"
  "find_by ts_id 1 (time_slots cancelled_db) = Some (demo_slot 1 100 200 False)"
  "holder_of cancelled_db 2 = Some 2"
proof -
  have "cancel_safe (1, demo_user 1 ''a@x'' CLIENT) demo_db"
    by code_simp
  then show "schema_ok cancelled_db \<and> exclusive cancelled_db"
    unfolding cancelled_db_def
    using cancel.keeps_both [of demo_db "(1, demo_user 1 ''a@x'' CLIENT)" demo_env] base_inv_schema by simp
  show "find_by b_id 1 (bookings cancelled_db) = Some (cancel 1000 (demo_booking 1 2 1 CONFIRMED))"
    "find_by ts_id 2 (time_slots cancelled_db) = Some (demo_slot 2 200 300 True)"
    "find_by ts_id 1 (time_slots cancelled_db) = Some (demo_slot 1 100 200 False)"
    "holder_of cancelled_db 2 = Some 2"
    by code_simp+
qed

theorem stale_move_strands_slot_witness:
  "\<exists>d''. snd (move_finish False 1 1 loaded_rows cancelled_db) = d'' \<and>
    find_by ts_id 1 (time_slots d'') = Some (demo_slot 1 100 200 True) \<and> holder_of d'' 1 = None \<and>
    find_by ts_id 2 (time_slots d'') = Some (demo_slot 2 200 300 False) \<and> holder_of d'' 2 = Some 2"
proof -
  have "move_look 1 (demo_user 1 ''a@x'' CLIENT) demo_db
      = Some (demo_booking 1 2 1 CONFIRMED, demo_slot 2 200 300 True)"
    using loaded_rows_looked by (simp add: loaded_rows_def)
  from stale_move_strands_slot [OF demo_exclusive this _ _ _ cancelled_db_facts(2), of "demo_slot 2 200 300 True" 1
      "demo_slot 1 100 200 False"] cancelled_db_facts
  show ?thesis
    by (auto simp: loaded_rows_def demo_booking_def demo_slot_def cancel_def)
qed

theorem lost_slots_stay_lost_witness:
  "lost 1 (fold (exec_op plain_crypto default_settings) [Op_Cancel demo_env 1 (demo_user 1 ''a@x'' CLIENT),
     Op_Expire demo_env (\<lambda>_. demo_env) None] (snd (move_finish False 1 1 loaded_rows cancelled_db)))"
proof -
  have "schema_ok (snd (move_finish False 1 1 loaded_rows cancelled_db))"
      "lost 1 (snd (move_finish False 1 1 loaded_rows cancelled_db))"
    by code_simp+
  then show ?thesis
    using lost_slots_stay_lost [OF _ _ refl] by blast
qed

text \<open>A specialist opens two overlapping slots at once.\<close>

definition demo_specialist :: specialist_profile where
  "demo_specialist = \<lparr>sp_id = 1, sp_user_id = 3, display_name = ''s'', sp_description = None, sp_created_at = 0\<rparr>"

definition slot_request :: "instant \<Rightarrow> instant \<Rightarrow> env \<times> slot_create_request \<times> user" where
  "slot_request a b = (demo_env, \<lparr>rq_start_at = a, rq_end_at = b\<rparr>, demo_user 3 ''s@x'' SPECIALIST)"

theorem late_slot_exact_witness:
  "slot_look (slot_request 500 600) demo_db = Some (False, demo_specialist) \<and>
   slot_look (slot_request 550 650) demo_db = Some (False, demo_specialist) \<and>
   \<not> slots_disjoint (slot_finish (slot_request 550 650) (False, demo_specialist)
       (slot_finish (slot_request 500 600) (False, demo_specialist) demo_db))"
proof -
  let ?d = "slot_finish (slot_request 500 600) (False, demo_specialist) demo_db"
  have looked: "slot_look (slot_request 500 600) demo_db = Some (False, demo_specialist)"
      "slot_look (slot_request 550 650) demo_db = Some (False, demo_specialist)"
    by code_simp+
  have "base_inv ?d \<and> exclusive ?d"
    using late_slot.late [OF demo_base_inv demo_exclusive late_slot.looked [OF demo_base_inv looked(1)]] .
  moreover have "length (time_slots (slot_finish (slot_request 550 650) (False, demo_specialist) ?d)) \<noteq> length (time_slots ?d)"
    by code_simp
  then have "slot_finish (slot_request 550 650) (False, demo_specialist) ?d \<noteq> ?d"
    by metis
  moreover have "overlap_found (sp_id demo_specialist) \<lparr>rq_start_at = 550, rq_end_at = 650\<rparr> ?d"
    by code_simp
  moreover have "slot_request 550 650 = (demo_env, \<lparr>rq_start_at = 550, rq_end_at = 650\<rparr>, demo_user 3 ''s@x'' SPECIALIST)"
    by (simp add: slot_request_def)
  ultimately show ?thesis
    using looked late_slot_exact [of ?d "\<lparr>rq_start_at = 550, rq_end_at = 650\<rparr>" demo_env
        "demo_user 3 ''s@x'' SPECIALIST" False demo_specialist] by simp
qed

text \<open>A slot is booked while its specialist deletes it.\<close>

theorem late_deletion_safe_witness:
  "delete_finish 1 (exec_op plain_crypto default_settings (Op_Book demo_env 1 None (demo_user 1 ''a@x'' CLIENT)) demo_db)
   = exec_op plain_crypto default_settings (Op_Book demo_env 1 None (demo_user 1 ''a@x'' CLIENT)) demo_db"
proof -
  let ?op = "Op_Book demo_env 1 None (demo_user 1 ''a@x'' CLIENT)"
  have "delete_look (1, demo_user 3 ''s@x'' SPECIALIST) demo_db = Some 1"
    by code_simp
  moreover have "safe_run plain_crypto default_settings [?op] demo_db"
    by simp
  moreover have "1 \<in> slot_id ` set (bookings (exec_op plain_crypto default_settings ?op demo_db))"
    by code_simp
  ultimately show ?thesis
    using late_deletion_safe [OF demo_base_inv demo_exclusive, of plain_crypto default_settings "[?op]"
        "(1, demo_user 3 ''s@x'' SPECIALIST)" 1] by simp
qed

end
