(* ===== verification/Beat.thy ===== *)
theory Beat
  imports Expiry_Runs
begin

text \<open>
  \<^verbatim>\<open>app/tasks/celery_app.py\<close>: the configuration of Celery, the tasks that its names stand for, and what
  the beat schedule means for a slot that has started. Celery documents that beat sends the task of an entry
  again and again, one interval apart, and that a worker runs the task registered under that name.
\<close>

section \<open>The configuration\<close>

record celery_config =
  main_name :: string
  broker :: string
  backend :: string
  task_modules :: "string list"
  task_serializer :: string
  accept_content :: "string list"
  result_serializer :: string
  timezone :: string
  enable_utc :: bool
  beat_schedule :: "(string \<times> string \<times> int) list"

text \<open>An entry of the schedule has a name, the name of its task, and its interval, a \<open>timedelta\<close>.\<close>

definition getenv :: "(string \<Rightarrow> string option) \<Rightarrow> string \<Rightarrow> string \<Rightarrow> string" where
  "getenv environ name dflt = (case environ name of None \<Rightarrow> dflt | Some v \<Rightarrow> v)"

definition celery_app :: "(string \<Rightarrow> string option) \<Rightarrow> settings \<Rightarrow> celery_config" where
  "celery_app environ cfg = \<lparr>
     main_name = ''booking'',
     broker = getenv environ ''CELERY_BROKER_URL'' ''redis://redis:6379/0'',
     backend = getenv environ ''CELERY_RESULT_BACKEND'' ''redis://redis:6379/1'',
     task_modules = [''app.tasks.expirations'', ''app.tasks.reminders''],
     task_serializer = ''json'', accept_content = [''json''], result_serializer = ''json'',
     timezone = ''UTC'', enable_utc = True,
     beat_schedule = [
       (''expire-started-bookings'', ''bookings.expire_started_slots'',
         minutes (celery_expiration_interval_minutes cfg)),
       (''remind-upcoming-bookings'', ''bookings.remind_upcoming'',
         minutes (celery_reminder_interval_minutes cfg))]\<rparr>"

text \<open>The tasks that the modules of \<open>include\<close> register, by name.\<close>

definition registered_task ::
  "settings \<Rightarrow> string \<Rightarrow> (env \<Rightarrow> (int \<Rightarrow> env) \<Rightarrow> db \<Rightarrow> (string \<times> int) list res \<times> db) option" where
  "registered_task cfg name =
     (if name = ''bookings.expire_started_slots'' then Some (expire_started_slots_task cfg)
      else if name = ''bookings.remind_upcoming''
      then Some (\<lambda>e ep d. (Inr (remind_upcoming_bookings_task cfg e d), d))
      else None)"

text \<open>One tick of an entry. A worker reports an unknown task and drops it.\<close>

definition beat_tick ::
  "(string \<Rightarrow> string option) \<Rightarrow> settings \<Rightarrow> string \<Rightarrow> env \<times> (int \<Rightarrow> env) \<Rightarrow> db \<Rightarrow> db" where
  "beat_tick environ cfg entry run d =
     (case map_of (beat_schedule (celery_app environ cfg)) entry of
        None \<Rightarrow> d
      | Some (task, _) \<Rightarrow>
        (case registered_task cfg task of
           None \<Rightarrow> d
         | Some body \<Rightarrow> snd (body (fst run) (snd run) d)))"

lemma beat_tasks_registered:
  "list_all (\<lambda>(entry, task, interval). registered_task cfg task \<noteq> None) (beat_schedule (celery_app environ cfg))"
  by (simp add: celery_app_def registered_task_def)

lemma expire_tick: "beat_tick environ cfg ''expire-started-bookings'' run = expire_run cfg run"
  by (auto simp: fun_eq_iff beat_tick_def celery_app_def registered_task_def expire_started_slots_task_def
      expire_run_def serve_expire_def split: sum.splits prod.splits)

lemma remind_tick: "beat_tick environ cfg ''remind-upcoming-bookings'' run d = d"
  by (simp add: beat_tick_def celery_app_def registered_task_def)

section \<open>Early and idle runs\<close>

definition run_env_ok :: "env \<times> (int \<Rightarrow> env) \<Rightarrow> bool" where
  "run_env_ok run \<longleftrightarrow> (\<forall>i. generated_ok (snd run i) \<and> no_faults (snd run i))"

definition run_late :: "settings \<Rightarrow> instant \<Rightarrow> env \<times> (int \<Rightarrow> env) \<Rightarrow> bool" where
  "run_late cfg start run \<longleftrightarrow> start + minutes (booking_expire_after_start_minutes cfg) \<le> now (fst run)"

lemma run_ok_split: "run_ok cfg start run \<longleftrightarrow> run_late cfg start run \<and> run_env_ok run"
  by (auto simp: run_ok_def run_late_def run_env_ok_def)

text \<open>A run that is too early for a slot, or finds nobody holding it, leaves the slot alone.\<close>

lemma expire_run_idle:
  assumes "drainable s start d" and "run_env_ok run"
    and "\<not> run_late cfg start run \<or> holder_of d s = None"
  shows "drainable s start (expire_run cfg run d) \<and> holder_of (expire_run cfg run d) s = holder_of d s \<and>
    queue_of (expire_run cfg run d) s = queue_of d s"
proof -
  have d: "base_inv d" "exclusive d" "slots_positive d"
    using assms(1) by (simp_all add: drainable_def)
  note ok = base_inv_schema [OF d(1)]
  obtain t where t: "find_by ts_id s (time_slots d) = Some t" "start_at t = start"
    using assms(1) by (auto simp: drainable_def)
  let ?stale = "stale_bookings (cutoff cfg (now (fst run))) d"
  have s: "s \<notin> slot_id ` set ?stale"
  proof
    assume "s \<in> slot_id ` set ?stale"
    then obtain b where b: "b \<in> set (bookings d)" "slot_id b = s" "is_stale (cutoff cfg (now (fst run))) d b"
      by (auto simp: stale_bookings_eq [OF ok])
    then have "start \<le> cutoff cfg (now (fst run))" "status b = CONFIRMED"
      using t by (auto simp: is_stale_def slot_of_def)
    then show False
      using assms(3) b holder_of_confirmed [OF d(1,2) b(1)] by (auto simp: run_late_def)
  qed
  have "\<forall>i. generated_ok (snd run i) \<and> no_faults (snd run i)"
    using assms(2) by (simp add: run_env_ok_def)
  then obtain d' where d': "get_db (expire_started_slots cfg (fst run) (snd run) None) d
      = (Inr (int (length ?stale)), d')" "base_inv d'" "exclusive d'"
    "holder_of d' s = holder_of d s" "queue_of d' s = queue_of d s"
    using expire_calendar [OF d, of "snd run" "now (fst run)" "fst run" None ?stale cfg] s by auto
  then have eq: "expire_run cfg run d = d'"
    by (simp add: expire_run_def serve_expire_def)
  have starts: "slot_starts d' = slot_starts d"
    using serve_expire_starts [OF d(1), of cfg "snd run" "fst run"] eq by (simp add: expire_run_def)
  then have "slots_positive d'"
    using d(3) by (simp add: slots_positive_starts)
  moreover have "\<exists>t. find_by ts_id s (time_slots d') = Some t \<and> start_at t = start"
    using slot_starts_find [OF starts t(1)] t(2) by auto
  ultimately show ?thesis
    using d' eq by (simp add: drainable_def)
qed

section \<open>Enough late runs\<close>

definition served :: "int \<Rightarrow> db \<Rightarrow> bool" where
  "served s d \<longleftrightarrow> holder_of d s = None \<and> queue_of d s = []"

lemma late_runs_serve:
  assumes "drainable s start d" and "\<forall>run \<in> set runs. run_env_ok run"
    and "served s d \<or> holder_of d s \<noteq> None \<and> length (queue_of d s) < length (filter (run_late cfg start) runs)"
  shows "served s (fold (expire_run cfg) runs d)"
  using assms
proof (induction runs arbitrary: d)
  case Nil
  then show ?case by simp
next
  case (Cons run runs)
  have env: "run_env_ok run" "\<forall>run \<in> set runs. run_env_ok run"
    using Cons.prems(2) by simp_all
  show ?case
  proof (cases "run_late cfg start run \<and> holder_of d s \<noteq> None")
    case True
    then have "run_ok cfg start run"
      using env(1) by (simp add: run_ok_split)
    note step = expire_run_step [OF Cons.prems(1) this]
    show ?thesis
      using True step Cons.prems(3) Cons.IH [of "expire_run cfg run d"] env(2)
      by (cases "queue_of d s") (auto simp: served_def next_holder_def)
  next
    case False
    then show ?thesis
      using expire_run_idle [OF Cons.prems(1) env(1), of cfg] Cons.prems(3) Cons.IH [of "expire_run cfg run d"] env(2)
      by (auto simp: served_def)
  qed
qed

end
