(* ===== verification/Beat_Properties.thy ===== *)
theory Beat_Properties
  imports Beat Scenario
begin







end
