(* ===== verification/Routes.thy ===== *)
theory Routes
  imports Models
begin

text \<open>
  The routes of the application: what the decorators of \<^verbatim>\<open>api/v1\<close> and \<^verbatim>\<open>main.py\<close> declare, in their order,
  and the order in which \<^verbatim>\<open>main.py\<close> includes the routers. FastAPI documents that a request goes to the
  first route whose method and path fit (\<open>first_match\<close>), so the order decides what a path such as
  \<^verbatim>\<open>/bookings/me\<close> means. Checked here: no earlier route takes the requests of a later one.
\<close>

section \<open>Endpoints and paths\<close>

text \<open>An endpoint is the function that a decorator registers.\<close>

datatype endpoint =
    Ep_Register | Ep_Login
  | Ep_Get_Me | Ep_List_Users
  | Ep_Create_Service_For_Me | Ep_List_Specialist_Services | Ep_Get_My_Specialist_Profile
  | Ep_Create_Slot_For_Me | Ep_Delete_Slot_For_Me | Ep_List_Specialist_Slots
  | Ep_Get_Specialist_Availability
  | Ep_Create_Booking | Ep_Cancel_Booking | Ep_Reschedule_Existing_Booking
  | Ep_Download_Booking_Calendar_File | Ep_List_My_Bookings | Ep_List_Specialist_Bookings
  | Ep_Join_Wait_List | Ep_List_My_Wait_List | Ep_Leave_Wait_List | Ep_Get_Booking_By_Id
  | Ep_Health | Ep_Metrics

text \<open>Who may call it: the \<open>current_user\<close> that the function depends on.\<close>

datatype access = Public | Signed_In | With_Role "user_role list"

text \<open>A path template is a list of segments; \<open>{name}\<close> stands for one segment that is not empty.\<close>

datatype segment = Lit string | Param string

record route =
  rt_method :: string
  rt_path :: "segment list"
  rt_endpoint :: endpoint
  rt_status :: int
  rt_access :: access

fun match_path :: "segment list \<Rightarrow> string list \<Rightarrow> string list option" where
  "match_path [] [] = Some []"
| "match_path (Lit x # ss) (y # ys) = (if x = y then match_path ss ys else None)"
| "match_path (Param name # ss) (y # ys) = (if y = [] then None else map_option (Cons y) (match_path ss ys))"
| "match_path _ _ = None"

text \<open>The segments of a path are what lies between its slashes.\<close>

fun split_slash :: "string \<Rightarrow> string list" where
  "split_slash [] = [[]]"
| "split_slash (x # xs) =
     (if x = CHR ''/'' then [] # split_slash xs
      else (case split_slash xs of [] \<Rightarrow> [[x]] | y # ys \<Rightarrow> (x # y) # ys))"

definition path_segments :: "string \<Rightarrow> string list" where
  "path_segments path = tl (split_slash path)"

definition route_match :: "string \<Rightarrow> string \<Rightarrow> route \<Rightarrow> string list option" where
  "route_match verb path r =
     (if rt_method r = verb then match_path (rt_path r) (path_segments path) else None)"

fun first_match :: "route list \<Rightarrow> string \<Rightarrow> string \<Rightarrow> (route \<times> string list) option" where
  "first_match [] verb path = None"
| "first_match (r # rs) verb path =
     (case route_match verb path r of Some args \<Rightarrow> Some (r, args) | None \<Rightarrow> first_match rs verb path)"

section \<open>The routers\<close>

definition prefixed :: "string \<Rightarrow> route list \<Rightarrow> route list" where
  "prefixed prefix rs = map (\<lambda>r. r\<lparr>rt_path := Lit prefix # rt_path r\<rparr>) rs"

definition declare_route :: "string \<Rightarrow> segment list \<Rightarrow> endpoint \<Rightarrow> int \<Rightarrow> access \<Rightarrow> route" where
  "declare_route verb path ep success acc =
     \<lparr>rt_method = verb, rt_path = path, rt_endpoint = ep, rt_status = success, rt_access = acc\<rparr>"

definition register_route :: route where
  "register_route = declare_route
     ''POST'' [Lit ''register'']
     Ep_Register 201 Public"

definition login_route :: route where
  "login_route = declare_route
     ''POST'' [Lit ''login'']
     Ep_Login 200 Public"

definition get_me_route :: route where
  "get_me_route = declare_route
     ''GET'' [Lit ''me'']
     Ep_Get_Me 200 Signed_In"

definition list_users_route :: route where
  "list_users_route = declare_route
     ''GET'' []
     Ep_List_Users 200 (With_Role [ADMIN])"

definition create_service_for_me_route :: route where
  "create_service_for_me_route = declare_route
     ''POST'' [Lit ''me'', Lit ''services'']
     Ep_Create_Service_For_Me 201 (With_Role [SPECIALIST, ADMIN])"

definition list_specialist_services_route :: route where
  "list_specialist_services_route = declare_route
     ''GET'' [Param ''specialist_id'', Lit ''services'']
     Ep_List_Specialist_Services 200 Public"

definition get_my_specialist_profile_route :: route where
  "get_my_specialist_profile_route = declare_route
     ''GET'' [Lit ''me'']
     Ep_Get_My_Specialist_Profile 200 Signed_In"

definition create_slot_for_me_route :: route where
  "create_slot_for_me_route = declare_route
     ''POST'' [Lit ''me'', Lit ''slots'']
     Ep_Create_Slot_For_Me 201 (With_Role [SPECIALIST, ADMIN])"

definition delete_slot_for_me_route :: route where
  "delete_slot_for_me_route = declare_route
     ''DELETE'' [Lit ''me'', Lit ''slots'', Param ''slot_id'']
     Ep_Delete_Slot_For_Me 204 (With_Role [SPECIALIST, ADMIN])"

definition list_specialist_slots_route :: route where
  "list_specialist_slots_route = declare_route
     ''GET'' [Param ''specialist_id'', Lit ''slots'']
     Ep_List_Specialist_Slots 200 Public"

definition get_specialist_availability_route :: route where
  "get_specialist_availability_route = declare_route
     ''GET'' [Param ''specialist_id'', Lit ''availability'']
     Ep_Get_Specialist_Availability 200 Public"

definition create_booking_route :: route where
  "create_booking_route = declare_route
     ''POST'' []
     Ep_Create_Booking 201 (With_Role [CLIENT, ADMIN])"

definition cancel_booking_route :: route where
  "cancel_booking_route = declare_route
     ''PATCH'' [Param ''booking_id'', Lit ''cancel'']
     Ep_Cancel_Booking 200 Signed_In"

definition reschedule_existing_booking_route :: route where
  "reschedule_existing_booking_route = declare_route
     ''PATCH'' [Param ''booking_id'', Lit ''reschedule'']
     Ep_Reschedule_Existing_Booking 200 Signed_In"

definition download_booking_calendar_file_route :: route where
  "download_booking_calendar_file_route = declare_route
     ''GET'' [Param ''booking_id'', Lit ''calendar.ics'']
     Ep_Download_Booking_Calendar_File 200 Signed_In"

definition list_my_bookings_route :: route where
  "list_my_bookings_route = declare_route
     ''GET'' [Lit ''me'']
     Ep_List_My_Bookings 200 Signed_In"

definition list_specialist_bookings_route :: route where
  "list_specialist_bookings_route = declare_route
     ''GET'' [Lit ''specialists'', Lit ''me'']
     Ep_List_Specialist_Bookings 200 (With_Role [SPECIALIST, ADMIN])"

definition join_wait_list_route :: route where
  "join_wait_list_route = declare_route
     ''POST'' [Lit ''wait-list'']
     Ep_Join_Wait_List 201 (With_Role [CLIENT, ADMIN])"

definition list_my_wait_list_route :: route where
  "list_my_wait_list_route = declare_route
     ''GET'' [Lit ''wait-list'', Lit ''me'']
     Ep_List_My_Wait_List 200 Signed_In"

definition leave_wait_list_route :: route where
  "leave_wait_list_route = declare_route
     ''DELETE'' [Lit ''wait-list'', Param ''entry_id'']
     Ep_Leave_Wait_List 204 Signed_In"

definition get_booking_by_id_route :: route where
  "get_booking_by_id_route = declare_route
     ''GET'' [Param ''booking_id'']
     Ep_Get_Booking_By_Id 200 Signed_In"

definition health_route :: route where
  "health_route = declare_route
     ''GET'' [Lit ''health'']
     Ep_Health 200 Public"

definition metrics_route :: route where
  "metrics_route = declare_route
     ''GET'' [Lit ''metrics'']
     Ep_Metrics 200 Public"

definition auth_router :: "route list" where
  "auth_router = prefixed ''auth'' [
     register_route, login_route]"

definition users_router :: "route list" where
  "users_router = prefixed ''users'' [
     get_me_route, list_users_route]"

definition specialists_router :: "route list" where
  "specialists_router = prefixed ''specialists'' [
     create_service_for_me_route, list_specialist_services_route,
     get_my_specialist_profile_route, create_slot_for_me_route, delete_slot_for_me_route,
     list_specialist_slots_route, get_specialist_availability_route]"

definition bookings_router :: "route list" where
  "bookings_router = prefixed ''bookings'' [
     create_booking_route, cancel_booking_route, reschedule_existing_booking_route,
     download_booking_calendar_file_route, list_my_bookings_route,
     list_specialist_bookings_route, join_wait_list_route, list_my_wait_list_route,
     leave_wait_list_route, get_booking_by_id_route]"

text \<open>\<open>app.include_router\<close>, and the two routes of \<^verbatim>\<open>main.py\<close> itself.\<close>

definition app_routes :: "route list" where
  "app_routes = auth_router @ users_router @ specialists_router @ bookings_router @ [health_route, metrics_route]"

lemmas route_tables = app_routes_def auth_router_def users_router_def specialists_router_def
  bookings_router_def prefixed_def declare_route_def
  register_route_def login_route_def get_me_route_def
  list_users_route_def create_service_for_me_route_def list_specialist_services_route_def
  get_my_specialist_profile_route_def create_slot_for_me_route_def delete_slot_for_me_route_def
  list_specialist_slots_route_def get_specialist_availability_route_def create_booking_route_def
  cancel_booking_route_def reschedule_existing_booking_route_def download_booking_calendar_file_route_def
  list_my_bookings_route_def list_specialist_bookings_route_def join_wait_list_route_def
  list_my_wait_list_route_def leave_wait_list_route_def get_booking_by_id_route_def
  health_route_def metrics_route_def

section \<open>The paths of a route\<close>

text \<open>A template with a segment for each of its parameters, and the path made of it.\<close>

fun fill :: "segment list \<Rightarrow> string list \<Rightarrow> string list" where
  "fill [] args = []"
| "fill (Lit x # ss) args = x # fill ss args"
| "fill (Param name # ss) [] = []"
| "fill (Param name # ss) (a # args) = a # fill ss args"

fun path_params :: "segment list \<Rightarrow> nat" where
  "path_params [] = 0"
| "path_params (Lit x # ss) = path_params ss"
| "path_params (Param name # ss) = Suc (path_params ss)"

definition join_slash :: "string list \<Rightarrow> string" where
  "join_slash segs = concat (map (Cons CHR ''/'') segs)"

definition path_for :: "route \<Rightarrow> int list \<Rightarrow> string" where
  "path_for r args = join_slash (fill (rt_path r) (map int_str args))"

lemma split_slash_Cons: "split_slash xs \<noteq> []"
  by (induction xs) (auto split: list.split)

lemma split_slash_plain: "CHR ''/'' \<notin> set xs \<Longrightarrow> split_slash (xs @ CHR ''/'' # ys) = xs # split_slash ys"
  by (induction xs) (auto split: list.split)

lemma split_slash_end: "CHR ''/'' \<notin> set xs \<Longrightarrow> split_slash xs = [xs]"
  by (induction xs) auto

lemma split_slash_join:
  assumes "\<forall>x \<in> set segs. CHR ''/'' \<notin> set x" and "CHR ''/'' \<notin> set y"
  shows "split_slash (y @ join_slash segs) = y # segs"
  using assms
proof (induction segs arbitrary: y)
  case Nil
  then show ?case by (simp add: join_slash_def split_slash_end)
next
  case (Cons x segs)
  then have "split_slash (x @ join_slash segs) = x # segs"
    by simp
  then show ?case
    using Cons.prems by (simp add: join_slash_def split_slash_plain)
qed

lemma path_segments_join:
  assumes "\<forall>x \<in> set segs. CHR ''/'' \<notin> set x"
  shows "path_segments (join_slash segs) = segs"
  using split_slash_join [OF assms, of "[]"] by (simp add: path_segments_def)

lemma int_str_plain: "CHR ''/'' \<notin> set (int_str i)" "int_str i \<noteq> []"
proof -
  have "\<not> is_digit CHR ''/''"
    by (simp add: is_digit_def)
  then have "CHR ''/'' \<notin> set (nat_str n)" and "nat_str n \<noteq> []" for n
    using nat_str_digits [of n] by auto
  then show "CHR ''/'' \<notin> set (int_str i)" "int_str i \<noteq> []"
    by (auto simp: int_str_def)
qed

section \<open>No route hides another\<close>

text \<open>
  Two templates are apart when no path made from the second with numbers for its parameters fits the
  first: they differ in length, or in a segment where the first has a literal that is not the second's
  and is no number.
\<close>

fun literals_plain :: "segment list \<Rightarrow> bool" where
  "literals_plain [] = True"
| "literals_plain (Lit x # ss) = (CHR ''/'' \<notin> set x \<and> literals_plain ss)"
| "literals_plain (Param name # ss) = literals_plain ss"

fun apart :: "segment list \<Rightarrow> segment list \<Rightarrow> bool" where
  "apart [] [] = False"
| "apart (Lit x # ss) (Lit y # ts) = (x \<noteq> y \<or> apart ss ts)"
| "apart (Lit x # ss) (Param name # ts) = (\<not> is_ok (py_int x) \<or> apart ss ts)"
| "apart (Param name # ss) (_ # ts) = apart ss ts"
| "apart _ _ = True"

fun unhidden :: "route list \<Rightarrow> bool" where
  "unhidden [] = True"
| "unhidden (r # rs) =
     (literals_plain (rt_path r) \<and>
      list_all (\<lambda>q. rt_method q \<noteq> rt_method r \<or> apart (rt_path r) (rt_path q)) rs \<and> unhidden rs)"

lemma match_path_Nil:
  assumes "ts \<noteq> []" and "length args = path_params ts"
  shows "match_path [] (fill ts (map int_str args)) = None"
proof (cases ts)
  case (Cons t ts')
  then show ?thesis
    using assms by (cases t; cases args) auto
qed (use assms in simp)

lemma apart_no_match:
  assumes "apart ss ts" and "length args = path_params ts"
  shows "match_path ss (fill ts (map int_str args)) = None"
  using assms
proof (induction ss ts arbitrary: args rule: apart.induct)
  case (3 x ss name ts)
  then obtain i js where a: "args = i # js"
    by (cases args) auto
  have "\<not> is_ok (py_int x) \<Longrightarrow> x \<noteq> int_str i"
    by auto
  then show ?case
    using 3 a by auto
next
  case (4 name ss t ts)
  show ?case
  proof (cases t)
    case (Lit y)
    then show ?thesis
      using 4 by simp
  next
    case (Param name')
    then show ?thesis
      using 4 by (cases args) auto
  qed
next
qed (auto simp: match_path_Nil)

lemma match_path_fill:
  assumes "length args = path_params ss"
  shows "match_path ss (fill ss (map int_str args)) = Some (map int_str args)"
  using assms
proof (induction ss arbitrary: args)
  case Nil
  then show ?case by simp
next
  case (Cons s ss)
  show ?case
  proof (cases s)
    case (Lit x)
    then show ?thesis
      using Cons by simp
  next
    case (Param name)
    then show ?thesis
      using Cons by (cases args) (auto simp: int_str_plain)
  qed
qed

lemma fill_plain:
  assumes "literals_plain ss"
  shows "\<forall>x \<in> set (fill ss (map int_str args)). CHR ''/'' \<notin> set x"
  using assms
  by (induction ss "map int_str args" arbitrary: args rule: fill.induct) (auto simp: int_str_plain(1))

lemma first_match_path_for:
  assumes "unhidden rs" and "r \<in> set rs" and "length args = path_params (rt_path r)"
  shows "first_match rs (rt_method r) (path_for r args) = Some (r, map int_str args)"
  using assms(1,2)
proof (induction rs)
  case Nil
  then show ?case by simp
next
  case (Cons q rs)
  have plain: "literals_plain (rt_path r)"
    using Cons.prems by (induction rs) (auto simp: list_all_iff)
  note segs = path_segments_join [OF fill_plain [OF plain, of args]]
  show ?case
  proof (cases "r = q")
    case True
    then show ?thesis
      using segs match_path_fill [OF assms(3)] by (simp add: route_match_def path_for_def)
  next
    case False
    then have "rt_method r \<noteq> rt_method q \<or> apart (rt_path q) (rt_path r)" and "r \<in> set rs"
      using Cons.prems by (auto simp: list_all_iff)
    then have "route_match (rt_method r) (path_for r args) q = None"
      using segs apart_no_match [OF _ assms(3), of "rt_path q"] by (auto simp: route_match_def path_for_def)
    then show ?thesis
      using Cons \<open>r \<in> set rs\<close> by simp
  qed
qed

lemma app_routes_unhidden: "unhidden app_routes"
  by code_simp

end
