(* ===== verification/Web_App.thy ===== *)
theory Web_App
  imports Routes Application Calendar_Service System
begin

text \<open>
  The whole application behind the socket: a request is routed, its dependencies are solved, its
  arguments are read and validated, its handler runs in the session of the request, and the result
  becomes a response. FastAPI is the record \<open>framework\<close>: it finds the route, takes the bearer token from
  the headers, reads the arguments of an endpoint from path, query, headers and body, and renders answers;
  \<open>framework_ok\<close> states what its documentation says of that. What the code declares is modelled: the
  routes and who may call them (\<open>Routes\<close>), the bounds of the arguments (\<open>validate_call\<close>),
  the defaults of the query parameters, and the handlers.
\<close>

section \<open>Calls and answers\<close>

text \<open>A call is an endpoint with the arguments of its function, as the framework reads them.\<close>

datatype call =
    Call_Register register_request
  | Call_Login login_request
  | Call_Get_Me
  | Call_List_Users "int option" "int option"
  | Call_Create_Service_For_Me service_create_request
  | Call_List_Specialist_Services int "int option" "int option"
  | Call_Get_My_Specialist_Profile
  | Call_Create_Slot_For_Me py_datetime py_datetime
  | Call_Delete_Slot_For_Me int
  | Call_List_Specialist_Slots int "date option" "int option" "int option"
  | Call_Get_Specialist_Availability int "date option" "int option"
  | Call_Create_Booking int "string option"
  | Call_Cancel_Booking int
  | Call_Reschedule_Existing_Booking int int
  | Call_Download_Booking_Calendar_File int
  | Call_List_My_Bookings "booking_status option" "date option" "date option" "int option" "int option"
  | Call_List_Specialist_Bookings "booking_status option" "date option" "date option" "int option" "int option"
  | Call_Join_Wait_List int
  | Call_List_My_Wait_List "int option" "int option"
  | Call_Leave_Wait_List int
  | Call_Get_Booking_By_Id int
  | Call_Health
  | Call_Metrics

fun call_endpoint :: "call \<Rightarrow> endpoint" where
  "call_endpoint (Call_Register p) = Ep_Register"
| "call_endpoint (Call_Login p) = Ep_Login"
| "call_endpoint Call_Get_Me = Ep_Get_Me"
| "call_endpoint (Call_List_Users l offs) = Ep_List_Users"
| "call_endpoint (Call_Create_Service_For_Me p) = Ep_Create_Service_For_Me"
| "call_endpoint (Call_List_Specialist_Services i l offs) = Ep_List_Specialist_Services"
| "call_endpoint Call_Get_My_Specialist_Profile = Ep_Get_My_Specialist_Profile"
| "call_endpoint (Call_Create_Slot_For_Me a z) = Ep_Create_Slot_For_Me"
| "call_endpoint (Call_Delete_Slot_For_Me i) = Ep_Delete_Slot_For_Me"
| "call_endpoint (Call_List_Specialist_Slots i day l offs) = Ep_List_Specialist_Slots"
| "call_endpoint (Call_Get_Specialist_Availability i day days) = Ep_Get_Specialist_Availability"
| "call_endpoint (Call_Create_Booking i header) = Ep_Create_Booking"
| "call_endpoint (Call_Cancel_Booking i) = Ep_Cancel_Booking"
| "call_endpoint (Call_Reschedule_Existing_Booking i n) = Ep_Reschedule_Existing_Booking"
| "call_endpoint (Call_Download_Booking_Calendar_File i) = Ep_Download_Booking_Calendar_File"
| "call_endpoint (Call_List_My_Bookings st a z l offs) = Ep_List_My_Bookings"
| "call_endpoint (Call_List_Specialist_Bookings st a z l offs) = Ep_List_Specialist_Bookings"
| "call_endpoint (Call_Join_Wait_List i) = Ep_Join_Wait_List"
| "call_endpoint (Call_List_My_Wait_List l offs) = Ep_List_My_Wait_List"
| "call_endpoint (Call_Leave_Wait_List i) = Ep_Leave_Wait_List"
| "call_endpoint (Call_Get_Booking_By_Id i) = Ep_Get_Booking_By_Id"
| "call_endpoint Call_Health = Ep_Health"
| "call_endpoint Call_Metrics = Ep_Metrics"

text \<open>The arguments that come from the path.\<close>

fun call_ids :: "call \<Rightarrow> int list" where
  "call_ids (Call_List_Specialist_Services i l offs) = [i]"
| "call_ids (Call_Delete_Slot_For_Me i) = [i]"
| "call_ids (Call_List_Specialist_Slots i day l offs) = [i]"
| "call_ids (Call_Get_Specialist_Availability i day days) = [i]"
| "call_ids (Call_Cancel_Booking i) = [i]"
| "call_ids (Call_Reschedule_Existing_Booking i n) = [i]"
| "call_ids (Call_Download_Booking_Calendar_File i) = [i]"
| "call_ids (Call_Leave_Wait_List i) = [i]"
| "call_ids (Call_Get_Booking_By_Id i) = [i]"
| "call_ids _ = []"

datatype 'tok answer =
    A_User user_response
  | A_Users "user_response list"
  | A_Token "'tok token_response"
  | A_Service service_response
  | A_Services "service_response list"
  | A_Profile specialist_profile_response
  | A_Slot slot_response
  | A_Slots "slot_response list"
  | A_Availability "specialist_availability_day_response list"
  | A_Booking booking_response
  | A_Bookings "booking_response list"
  | A_Summaries "specialist_booking_summary list"
  | A_Entry wait_list_entry_response
  | A_Entries "wait_list_entry_response list"
  | A_File response
  | A_Empty
  | A_Health "(string \<times> string) list"
  | A_Metrics

section \<open>Validation\<close>

text \<open>The bounds of \<open>schemas\<close> and \<open>api/pagination.py\<close>. A parameter left out has its default.\<close>

definition limit_or_default :: "int option \<Rightarrow> int" where
  "limit_or_default l = (case l of None \<Rightarrow> 20 | Some n \<Rightarrow> n)"

definition offset_or_default :: "int option \<Rightarrow> int" where
  "offset_or_default offs = (case offs of None \<Rightarrow> 0 | Some n \<Rightarrow> n)"

definition days_or_default :: "int option \<Rightarrow> int" where
  "days_or_default days = (case days of None \<Rightarrow> 7 | Some n \<Rightarrow> n)"

definition password_ok :: "string \<Rightarrow> bool" where
  "password_ok p \<longleftrightarrow> 8 \<le> length p \<and> length p \<le> 128"

definition page_valid :: "int option \<Rightarrow> int option \<Rightarrow> bool" where
  "page_valid l offs \<longleftrightarrow> limit_param (limit_or_default l) \<and> offset_param (offset_or_default offs)"

definition days_valid :: "int option \<Rightarrow> bool" where
  "days_valid days \<longleftrightarrow> 1 \<le> days_or_default days \<and> days_or_default days \<le> 31"

text \<open>
  \<open>SlotCreateRequest.validate_interval\<close>. Python compares two times without a zone, or two with one; a
  mixed comparison raises a \<open>TypeError\<close>.
\<close>

fun check_interval :: "py_datetime \<Rightarrow> py_datetime \<Rightarrow> unit res" where
  "check_interval (Naive a) (Naive z) = (if z \<le> a then Inl ValueError else Inr ())"
| "check_interval (Aware a) (Aware z) = (if z \<le> a then Inl ValueError else Inr ())"
| "check_interval _ _ = Inl TypeError"

text \<open>
  What the validation of a call comes to: it fits, an argument is out of its declared bounds, or a
  validator of \<open>schemas\<close> has raised an exception.
\<close>

datatype verdict = Fits | Out_Of_Bounds | Validator_Raised py_exc

definition bounds :: "bool \<Rightarrow> verdict" where
  "bounds ok = (if ok then Fits else Out_Of_Bounds)"

lemma bounds_fit [simp]: "bounds b = Fits \<longleftrightarrow> b"
  by (simp add: bounds_def)

fun validate_call :: "call \<Rightarrow> verdict" where
  "validate_call (Call_Register p) = bounds (password_ok (rq_password p))"
| "validate_call (Call_Login p) = bounds (password_ok (lq_password p))"
| "validate_call (Call_List_Users l offs) = bounds (page_valid l offs)"
| "validate_call (Call_Create_Service_For_Me p) = bounds (service_request_ok p)"
| "validate_call (Call_List_Specialist_Services i l offs) = bounds (page_valid l offs)"
| "validate_call (Call_Create_Slot_For_Me a z) =
     (case check_interval a z of Inl err \<Rightarrow> Validator_Raised err | Inr _ \<Rightarrow> Fits)"
| "validate_call (Call_List_Specialist_Slots i day l offs) = bounds (page_valid l offs)"
| "validate_call (Call_Get_Specialist_Availability i day days) = bounds (days_valid days)"
| "validate_call (Call_List_My_Bookings st a z l offs) = bounds (page_valid l offs)"
| "validate_call (Call_List_Specialist_Bookings st a z l offs) = bounds (page_valid l offs)"
| "validate_call (Call_List_My_Wait_List l offs) = bounds (page_valid l offs)"
| "validate_call _ = Fits"

abbreviation call_valid :: "call \<Rightarrow> bool" where
  "call_valid call \<equiv> validate_call call = Fits"

text \<open>
  What the columns store of a time: PostgreSQL reads a time without a zone in the zone of the session, whose
  offset from UTC is fixed here.
\<close>

definition in_zone :: "int \<Rightarrow> py_datetime \<Rightarrow> instant" where
  "in_zone offset v = (case v of Naive t \<Rightarrow> t - offset | Aware t \<Rightarrow> t)"

definition slot_request :: "int \<Rightarrow> py_datetime \<Rightarrow> py_datetime \<Rightarrow> slot_create_request" where
  "slot_request offset a z = \<lparr>rq_start_at = in_zone offset a, rq_end_at = in_zone offset z\<rparr>"

lemma check_interval_ok: "check_interval a z = Inr () \<Longrightarrow> \<not> in_zone offset z \<le> in_zone offset a"
  by (cases a; cases z) (auto simp: in_zone_def split: if_splits)

section \<open>The framework\<close>

record 'tok framework =
  find_route :: "route list \<Rightarrow> string \<Rightarrow> string \<Rightarrow> (route \<times> string list) option"
  no_route :: "http_request \<Rightarrow> http_response"
  unreadable_body :: "http_request \<Rightarrow> json option"
  bearer_token :: "http_request \<Rightarrow> 'tok res"
  read_call :: "endpoint \<Rightarrow> string list \<Rightarrow> http_request \<Rightarrow> json + call"
  validation_errors :: "call \<Rightarrow> json"
  validator_errors :: "call \<Rightarrow> py_exc \<Rightarrow> json"
  render :: "'tok answer \<Rightarrow> json"
  server_error :: "py_exc \<Rightarrow> http_response"
  server_offset :: int

text \<open>
  Documented: requests go to the first route that fits; \<open>OAuth2PasswordBearer\<close> answers 401 when there is no
  token; an endpoint gets the arguments it declares, an integer of the path being the one written there;
  the server answers an exception that nobody handles with 500. Pydantic turns a \<open>ValueError\<close> of a validator into a
  validation error, whose context holds the exception itself, and lets a \<open>TypeError\<close> pass.
\<close>

definition framework_ok :: "'tok framework \<Rightarrow> bool" where
  "framework_ok fw \<longleftrightarrow>
     find_route fw = first_match \<and>
     (\<forall>req err. bearer_token fw req = Inl err \<longrightarrow>
        err = HTTPException 401 ''Not authenticated'' [(''WWW-Authenticate'', ''Bearer'')]) \<and>
     (\<forall>ep args req call. read_call fw ep args req = Inr call \<longrightarrow>
        call_endpoint call = ep \<and> (\<forall>ids. args = map int_str ids \<longrightarrow> call_ids call = ids)) \<and>
     (\<forall>call err. err \<in> set (python_objects (validator_errors fw call err))) \<and>
     (\<forall>err. rs_status (server_error fw err) = 500)"

section \<open>Dependencies\<close>

definition signed_in_user ::
  "'tok framework \<Rightarrow> 'tok crypto \<Rightarrow> settings \<Rightarrow> env \<Rightarrow> http_request \<Rightarrow> session \<Rightarrow> user res \<times> session" where
  "signed_in_user fw c cfg e req s =
     (case bearer_token fw req of
        Inl err \<Rightarrow> (Inl err, s)
      | Inr token \<Rightarrow> get_current_user c cfg e token s)"

definition solve_dependencies ::
  "'tok framework \<Rightarrow> 'tok crypto \<Rightarrow> settings \<Rightarrow> env \<Rightarrow> access \<Rightarrow> http_request \<Rightarrow> session
    \<Rightarrow> user option res \<times> session" where
  "solve_dependencies fw c cfg e acc req s =
     (case acc of
        Public \<Rightarrow> (Inr None, s)
      | Signed_In \<Rightarrow>
        (case signed_in_user fw c cfg e req s of
           (Inl err, s) \<Rightarrow> (Inl err, s)
         | (Inr u, s) \<Rightarrow> (Inr (Some u), s))
      | With_Role roles \<Rightarrow>
        (case signed_in_user fw c cfg e req s of
           (Inl err, s) \<Rightarrow> (Inl err, s)
         | (Inr u, s) \<Rightarrow>
           (case require_roles roles u of
              Inl err \<Rightarrow> (Inl err, s)
            | Inr u \<Rightarrow> (Inr (Some u), s))))"

section \<open>Handlers\<close>

definition reply :: "('a \<Rightarrow> 'b) \<Rightarrow> 'a res \<times> session \<Rightarrow> 'b res \<times> session" where
  "reply f x = (map_sum id f (fst x), snd x)"

text \<open>The handlers that take a current user; \<open>TypeError\<close> is a function called without an argument.\<close>

fun user_call :: "int \<Rightarrow> env \<Rightarrow> call \<Rightarrow> user \<Rightarrow> session \<Rightarrow> 'tok answer res \<times> session" where
  "user_call offset e Call_Get_Me u s = (Inr (A_User (get_me u)), s)"
| "user_call offset e (Call_List_Users l offs) u s =
     reply A_Users (list_users (limit_or_default l) (offset_or_default offs) u (current s), s)"
| "user_call offset e (Call_Create_Service_For_Me p) u s = reply A_Service (create_service_for_me e p u s)"
| "user_call offset e Call_Get_My_Specialist_Profile u s =
     reply A_Profile (get_my_specialist_profile u (current s), s)"
| "user_call offset e (Call_Create_Slot_For_Me a z) u s =
     reply A_Slot (create_slot_for_me e (slot_request offset a z) u s)"
| "user_call offset e (Call_Delete_Slot_For_Me i) u s = reply (\<lambda>_. A_Empty) (delete_slot_for_me i u s)"
| "user_call offset e (Call_Create_Booking i header) u s = reply A_Booking (create_booking e i header u s)"
| "user_call offset e (Call_Cancel_Booking i) u s = reply A_Booking (cancel_booking e i u s)"
| "user_call offset e (Call_Reschedule_Existing_Booking i n) u s =
     reply A_Booking (reschedule_existing_booking e i n u s)"
| "user_call offset e (Call_Download_Booking_Calendar_File i) u s =
     reply A_File (download_booking_calendar_file e i u (current s), s)"
| "user_call offset e (Call_List_My_Bookings st a z l offs) u s =
     reply A_Bookings (list_my_bookings st a z (limit_or_default l) (offset_or_default offs) u (current s), s)"
| "user_call offset e (Call_List_Specialist_Bookings st a z l offs) u s =
     reply A_Summaries
       (list_specialist_bookings st a z (limit_or_default l) (offset_or_default offs) u (current s), s)"
| "user_call offset e (Call_Join_Wait_List i) u s = reply A_Entry (join_wait_list e i u s)"
| "user_call offset e (Call_List_My_Wait_List l offs) u s =
     (Inr (A_Entries (list_my_wait_list (limit_or_default l) (offset_or_default offs) u (current s))), s)"
| "user_call offset e (Call_Leave_Wait_List i) u s = reply (\<lambda>_. A_Empty) (leave_wait_list i u s)"
| "user_call offset e (Call_Get_Booking_By_Id i) u s = reply A_Booking (get_booking_by_id i u (current s), s)"
| "user_call offset e _ u s = (Inl TypeError, s)"

text \<open>The others. Registration and login also use the limiter, whose state is \<open>st\<close>.\<close>

fun public_call ::
  "'tok crypto \<Rightarrow> settings \<Rightarrow> 's allow_op \<Rightarrow> env \<Rightarrow> string option \<Rightarrow> call \<Rightarrow> 's \<Rightarrow> session
    \<Rightarrow> 'tok answer res \<times> 's \<times> session" where
  "public_call c cfg allow e host (Call_Register p) st s =
     (case register cfg allow c e p host st s of (r, st, s) \<Rightarrow> (map_sum id A_User r, st, s))"
| "public_call c cfg allow e host (Call_Login p) st s =
     (case login cfg allow c e p host st s of (r, st, s) \<Rightarrow> (map_sum id A_Token r, st, s))"
| "public_call c cfg allow e host (Call_List_Specialist_Services i l offs) st s =
     (map_sum id A_Services
        (list_specialist_services i (limit_or_default l) (offset_or_default offs) (current s)), st, s)"
| "public_call c cfg allow e host (Call_List_Specialist_Slots i day l offs) st s =
     (map_sum id A_Slots
        (list_specialist_slots i day (limit_or_default l) (offset_or_default offs) (current s)), st, s)"
| "public_call c cfg allow e host (Call_Get_Specialist_Availability i day days) st s =
     (map_sum id A_Availability
        (get_specialist_availability e i day (days_or_default days) (current s)), st, s)"
| "public_call c cfg allow e host Call_Health st s = (Inr (A_Health health), st, s)"
| "public_call c cfg allow e host Call_Metrics st s = (Inr A_Metrics, st, s)"
| "public_call c cfg allow e host _ st s = (Inl TypeError, st, s)"

definition run_call ::
  "'tok crypto \<Rightarrow> settings \<Rightarrow> 's allow_op \<Rightarrow> int \<Rightarrow> env \<Rightarrow> string option \<Rightarrow> call \<Rightarrow> user option \<Rightarrow> 's \<Rightarrow> session
    \<Rightarrow> 'tok answer res \<times> 's \<times> session" where
  "run_call c cfg allow offset e host call caller st s =
     (case caller of
        None \<Rightarrow> public_call c cfg allow e host call st s
      | Some u \<Rightarrow> (case user_call offset e call u s of (r, s) \<Rightarrow> (r, st, s)))"

text \<open>A handler that builds its own \<open>Response\<close> also gives it headers.\<close>

definition answer_headers :: "'tok answer \<Rightarrow> (string \<times> string) list" where
  "answer_headers a = (case a of A_File f \<Rightarrow> (''content-type'', media_type f) # headers f | _ \<Rightarrow> [])"

section \<open>A request\<close>

definition web_route ::
  "'tok framework \<Rightarrow> 'tok crypto \<Rightarrow> settings \<Rightarrow> 's allow_op \<Rightarrow> env \<Rightarrow> http_request \<Rightarrow> 's \<times> db
    \<Rightarrow> outcome \<times> 's \<times> db" where
  "web_route fw c cfg allow e req w = (case w of (st, d) \<Rightarrow>
     (case find_route fw app_routes (rq_method req) (rq_path req) of
        None \<Rightarrow> (Returned (no_route fw req), st, d)
      | Some (r, args) \<Rightarrow>
        (case unreadable_body fw req of
           Some errors \<Rightarrow> (Invalid_Request errors, st, d)
         | None \<Rightarrow>
           (case solve_dependencies fw c cfg e (rt_access r) req (open_session d) of
              (Inl err, s) \<Rightarrow> (Raised err, st, committed s)
            | (Inr caller, s) \<Rightarrow>
              (case read_call fw (rt_endpoint r) args req of
                 Inl errors \<Rightarrow> (Invalid_Request errors, st, committed s)
               | Inr call \<Rightarrow>
                 (case validate_call call of
                    Out_Of_Bounds \<Rightarrow> (Invalid_Request (validation_errors fw call), st, committed s)
                  | Validator_Raised err \<Rightarrow>
                      ((if err = ValueError then Invalid_Request (validator_errors fw call err) else Raised err),
                       st, committed s)
                  | Fits \<Rightarrow>
                    (case run_call c cfg allow (server_offset fw) e (rq_client_host req) call caller st s of
                       (Inl err, st, s) \<Rightarrow> (Raised err, st, committed s)
                     | (Inr a, st, s) \<Rightarrow>
                       (Returned \<lparr>rs_status = rt_status r, rs_headers = answer_headers a,
                          rs_body = render fw a\<rparr>, st, committed s))))))))"

text \<open>A request as it arrives, with the environment of its handler; behind the middleware.\<close>

definition serve_web ::
  "'tok framework \<Rightarrow> 'tok crypto \<Rightarrow> settings \<Rightarrow> 's allow_op \<Rightarrow> arrival \<times> env \<Rightarrow> observability \<times> 's \<times> db
    \<Rightarrow> http_response \<times> observability \<times> 's \<times> db" where
  "serve_web fw c cfg allow ae =
     (case ae of (a, e) \<Rightarrow> serve_request (handle_exceptions (web_route fw c cfg allow e)) (server_error fw) a)"

definition web_db ::
  "'tok framework \<Rightarrow> 'tok crypto \<Rightarrow> settings \<Rightarrow> 's allow_op \<Rightarrow> arrival \<times> env \<Rightarrow> observability \<times> 's \<times> db
    \<Rightarrow> observability \<times> 's \<times> db" where
  "web_db fw c cfg allow ae w = snd (serve_web fw c cfg allow ae w)"

end
