(* ===== verification/Web_Operations.thy ===== *)
theory Web_Operations
  imports Web_App Concurrent_Booking
begin

text \<open>
  What a web request is for the program of \<open>System\<close>: one of its operations, by the user its token
  names, or none. From there the runs of the web application are runs of the program: \<open>web_step\<close> is
  one request, \<open>program_step\<close> one operation, and \<open>simulation\<close> carries one over to the other.
\<close>

section \<open>The operation of a call\<close>

fun user_operation :: "int \<Rightarrow> env \<Rightarrow> call \<Rightarrow> user \<Rightarrow> operation option" where
  "user_operation offset e (Call_Create_Service_For_Me p) u = Some (Op_Add_Service e p u)"
| "user_operation offset e (Call_Create_Slot_For_Me a z) u = Some (Op_Add_Slot e (slot_request offset a z) u)"
| "user_operation offset e (Call_Delete_Slot_For_Me i) u = Some (Op_Delete_Slot e i u)"
| "user_operation offset e (Call_Create_Booking i header) u = Some (Op_Book e i header u)"
| "user_operation offset e (Call_Cancel_Booking i) u = Some (Op_Cancel e i u)"
| "user_operation offset e (Call_Reschedule_Existing_Booking i n) u = Some (Op_Move e i n u)"
| "user_operation offset e (Call_Join_Wait_List i) u = Some (Op_Wait e i u)"
| "user_operation offset e (Call_Leave_Wait_List i) u = Some (Op_Leave e i u)"
| "user_operation offset e _ u = None"

fun public_operation :: "env \<Rightarrow> call \<Rightarrow> operation option" where
  "public_operation e (Call_Register p) = Some (Op_Register e p)"
| "public_operation e _ = None"

definition after_operation :: "'tok crypto \<Rightarrow> settings \<Rightarrow> operation option \<Rightarrow> db \<Rightarrow> db" where
  "after_operation c cfg q d = (case q of None \<Rightarrow> d | Some q \<Rightarrow> exec_op c cfg q d)"

lemma after_operation_simps [simp]:
  "after_operation c cfg None d = d"
  "after_operation c cfg (Some q) d = exec_op c cfg q d"
  by (simp_all add: after_operation_def)

lemma committed_reply: "committed (snd (reply f (h (open_session d)))) = snd (get_db h d)"
  by (simp add: reply_def get_db_def split: prod.split)

lemma committed_reply_read [simp]: "snd (reply f (r, s)) = s"
  by (simp add: reply_def)

lemma user_call_committed:
  assumes "call_valid call"
  shows "committed (snd (user_call offset e call u (open_session d))) = after_operation c cfg (user_operation offset e call u) d"
  using assms
  by (cases call)
    (simp_all add: committed_reply serve_book_def serve_cancel_def serve_move_def serve_wait_def serve_leave_def
      serve_add_service_def serve_add_slot_def serve_delete_slot_def validate_interval_def slot_request_def
      check_interval_ok split: sum.splits)

lemma login_session:
  "snd (snd (login cfg allow c e p host st (open_session d))) = open_session d"
  by (auto simp: login_def login_user_def Let_def split: sum.split prod.split option.split bool.split)

lemma register_committed:
  "committed (snd (snd (register cfg allow c e p host st (open_session d)))) \<in> {d, exec_op c cfg (Op_Register e p) d}"
  by (auto simp: register_def serve_register_def get_db_def split: sum.split prod.split)

lemma public_call_committed:
  "committed (snd (snd (public_call c cfg allow e host call st (open_session d))))
    \<in> {d, after_operation c cfg (public_operation e call) d}"
proof (cases call)
  case (Call_Register p)
  then show ?thesis
    using register_committed [of cfg allow c e p host st d] by (auto split: prod.split)
next
  case (Call_Login p)
  then show ?thesis
    using login_session [of cfg allow c e p host st d] by (auto split: prod.split)
qed simp_all

section \<open>Who is admitted\<close>

fun access_allows :: "access \<Rightarrow> user_role \<Rightarrow> bool" where
  "access_allows Public r = True"
| "access_allows Signed_In r = True"
| "access_allows (With_Role roles) r = (r \<in> set roles)"

text \<open>The user whose token the request carries: an active row of the users table, with the role.\<close>

definition admitted ::
  "'tok framework \<Rightarrow> 'tok crypto \<Rightarrow> settings \<Rightarrow> env \<Rightarrow> http_request \<Rightarrow> access \<Rightarrow> db \<Rightarrow> user \<Rightarrow> bool" where
  "admitted fw c cfg e req acc d u \<longleftrightarrow>
     (case bearer_token fw req of
        Inl _ \<Rightarrow> False
      | Inr token \<Rightarrow> token_user_id c cfg e token = Inr (u_id u)) \<and>
     u \<in> set (users d) \<and> is_active u \<and> access_allows acc (role u)"

lemma signed_in_user_eq:
  "signed_in_user fw c cfg e req s =
     ((case bearer_token fw req of
         Inl err \<Rightarrow> Inl err
       | Inr token \<Rightarrow> fst (get_current_user c cfg e token s)), s)"
  by (simp add: signed_in_user_def get_current_user_eq split: sum.split)

lemma solve_dependencies_session: "snd (solve_dependencies fw c cfg e acc req s) = s"
  by (auto simp: solve_dependencies_def signed_in_user_eq split: access.split sum.split)

lemma signed_in_user_admitted:
  assumes "fst (signed_in_user fw c cfg e req (open_session d)) = Inr u"
  shows "admitted fw c cfg e req Signed_In d u"
  using assms
  by (auto simp: signed_in_user_eq get_current_user_eq admitted_def dest: find_by_SomeD
      split: sum.splits option.splits if_splits)

lemma solve_dependencies_caller:
  assumes "solve_dependencies fw c cfg e acc req (open_session d) = (Inr caller, s)"
  shows "s = open_session d \<and>
    (caller = None \<and> acc = Public \<or> (\<exists>u. caller = Some u \<and> acc \<noteq> Public \<and> admitted fw c cfg e req acc d u))"
proof -
  have "s = open_session d"
    using assms solve_dependencies_session [of fw c cfg e acc req "open_session d"] by simp
  moreover have "caller = None \<and> acc = Public \<or>
      (\<exists>u. caller = Some u \<and> acc \<noteq> Public \<and> admitted fw c cfg e req acc d u)"
  proof (cases "fst (signed_in_user fw c cfg e req (open_session d))")
    case (Inl err)
    then have "signed_in_user fw c cfg e req (open_session d) = (Inl err, open_session d)"
      by (simp add: signed_in_user_eq)
    then show ?thesis
      using assms by (cases acc) (simp_all add: solve_dependencies_def)
  next
    case (Inr u)
    then have "signed_in_user fw c cfg e req (open_session d) = (Inr u, open_session d)"
      by (simp add: signed_in_user_eq)
    then show ?thesis
      using assms signed_in_user_admitted [OF Inr]
      by (cases acc) (auto simp: solve_dependencies_def require_roles_eq admitted_def split: if_splits)
  qed
  ultimately show ?thesis
    by simp
qed

text \<open>An admitted user is the caller, when ids are unique.\<close>

lemma admitted_is_caller:
  assumes "admitted fw c cfg e req acc d u" and "acc \<noteq> Public" and "schema_ok d"
  shows "solve_dependencies fw c cfg e acc req (open_session d) = (Inr (Some u), open_session d)"
proof -
  obtain token where token: "bearer_token fw req = Inr token" "token_user_id c cfg e token = Inr (u_id u)"
    using assms(1) by (auto simp: admitted_def split: sum.splits)
  have u: "u \<in> set (users d)" "is_active u" "access_allows acc (role u)"
    using assms(1) by (simp_all add: admitted_def)
  have "distinct (map u_id (users d))"
    using assms(3) by (simp add: schema_defs)
  then have "find_by u_id (u_id u) (users d) = Some u"
    using find_by_distinct [of u_id "users d" "u_id u" u] u(1) by simp
  then have "signed_in_user fw c cfg e req (open_session d) = (Inr u, open_session d)"
    using token u(2) by (simp add: signed_in_user_eq get_current_user_eq)
  then show ?thesis
    using u(3) assms(2) by (cases acc) (simp_all add: solve_dependencies_def require_roles_eq)
qed

section \<open>One request\<close>

text \<open>
  Every request leaves the database as it is or runs the operation of its call, which was read for the
  route of the request and whose caller the route admits.
\<close>

definition caller_operation :: "int \<Rightarrow> env \<Rightarrow> call \<Rightarrow> user option \<Rightarrow> operation option" where
  "caller_operation offset e call caller = (case caller of None \<Rightarrow> public_operation e call | Some u \<Rightarrow> user_operation offset e call u)"

lemma run_call_committed:
  fixes c :: "'a crypto"
  assumes "call_valid call"
  shows "committed (snd (snd (run_call c cfg allow offset e host call caller st (open_session d))))
    \<in> {d, after_operation c cfg (caller_operation offset e call caller) d}"
proof (cases caller)
  case None
  then show ?thesis
    using public_call_committed [of c cfg allow e host call st d] by (simp add: run_call_def caller_operation_def)
next
  case (Some u)
  then have "snd (snd (run_call c cfg allow offset e host call caller st (open_session d)))
      = snd (user_call offset e call u (open_session d) :: 'a answer res \<times> session)"
    by (simp add: run_call_def split: prod.split)
  then show ?thesis
    by (simp add: user_call_committed [OF assms, where c = c and cfg = cfg] caller_operation_def Some)
qed

lemma web_route_cases:
  obtains "snd (snd (web_route fw c cfg allow e req (st, d))) = d"
  | r args caller call where
    "find_route fw app_routes (rq_method req) (rq_path req) = Some (r, args)"
    "caller = None \<and> rt_access r = Public \<or>
      (\<exists>u. caller = Some u \<and> rt_access r \<noteq> Public \<and> admitted fw c cfg e req (rt_access r) d u)"
    "read_call fw (rt_endpoint r) args req = Inr call" "call_valid call"
    "snd (snd (web_route fw c cfg allow e req (st, d))) = after_operation c cfg (caller_operation (server_offset fw) e call caller) d"
proof (cases "\<exists>r args caller s call. find_route fw app_routes (rq_method req) (rq_path req) = Some (r, args) \<and>
    unreadable_body fw req = None \<and>
    solve_dependencies fw c cfg e (rt_access r) req (open_session d) = (Inr caller, s) \<and>
    read_call fw (rt_endpoint r) args req = Inr call \<and> call_valid call")
  case True
  then obtain r args caller s call where req: "find_route fw app_routes (rq_method req) (rq_path req) = Some (r, args)"
    "unreadable_body fw req = None"
    "solve_dependencies fw c cfg e (rt_access r) req (open_session d) = (Inr caller, s)"
    "read_call fw (rt_endpoint r) args req = Inr call" "call_valid call"
    by blast
  note caller = solve_dependencies_caller [OF req(3)]
  have "snd (snd (web_route fw c cfg allow e req (st, d)))
      = committed (snd (snd (run_call c cfg allow (server_offset fw) e (rq_client_host req) call caller st (open_session d))))"
    using req caller by (simp add: web_route_def split: prod.split sum.split)
  then consider "snd (snd (web_route fw c cfg allow e req (st, d))) = d"
    | "snd (snd (web_route fw c cfg allow e req (st, d))) = after_operation c cfg (caller_operation (server_offset fw) e call caller) d"
    using run_call_committed [OF req(5), of c cfg allow "server_offset fw" e "rq_client_host req" caller st d] by fastforce
  then show ?thesis
    using that req caller by cases blast+
next
  case False
  have "committed s = d" if "solve_dependencies fw c cfg e acc req (open_session d) = (x, s)" for acc x s
    using that solve_dependencies_session [of fw c cfg e acc req "open_session d"] by auto
  then have "snd (snd (web_route fw c cfg allow e req (st, d))) = d"
    using False by (auto simp: web_route_def split: option.split prod.split sum.split verdict.split)
  then show ?thesis
    by (rule that(1))
qed

section \<open>Runs\<close>

fun operation_user :: "operation \<Rightarrow> user option" where
  "operation_user (Op_Register e p) = None"
| "operation_user (Op_Book e i header u) = Some u"
| "operation_user (Op_Cancel e i u) = Some u"
| "operation_user (Op_Move e i n u) = Some u"
| "operation_user (Op_Wait e i u) = Some u"
| "operation_user (Op_Leave e i u) = Some u"
| "operation_user (Op_Add_Service e p u) = Some u"
| "operation_user (Op_Add_Slot e p u) = Some u"
| "operation_user (Op_Delete_Slot e i u) = Some u"
| "operation_user (Op_Expire e ep t) = None"

definition user_current :: "operation \<Rightarrow> db \<Rightarrow> bool" where
  "user_current q d = (case operation_user q of None \<Rightarrow> True | Some u \<Rightarrow> u \<in> set (users d) \<and> is_active u)"

inductive program_step :: "'tok crypto \<Rightarrow> settings \<Rightarrow> db \<Rightarrow> db \<Rightarrow> bool" for c cfg where
  operation: "user_current q d \<Longrightarrow> program_step c cfg d (exec_op c cfg q d)"

inductive web_step ::
  "'tok framework \<Rightarrow> 'tok crypto \<Rightarrow> settings \<Rightarrow> 's allow_op \<Rightarrow> observability \<times> 's \<times> db
    \<Rightarrow> observability \<times> 's \<times> db \<Rightarrow> bool" for fw c cfg allow where
  request: "web_step fw c cfg allow w (web_db fw c cfg allow ae w)"

inductive_cases program_step_E: "program_step c cfg d d'"
inductive_cases web_step_E: "web_step fw c cfg allow w w'"

lemma operation_user_of_call: "user_operation offset e call u = Some q \<Longrightarrow> operation_user q = Some u"
  by (cases call) auto

lemma operation_of_public: "public_operation e call = Some q \<Longrightarrow> operation_user q = None"
  by (cases call) auto

lemma program_step_base: "program_step c cfg d d' \<Longrightarrow> base_inv d \<Longrightarrow> base_inv d'"
  by (erule program_step_E) (simp add: exec_op_base)

lemma program_run_base: "(program_step c cfg)\<^sup>*\<^sup>* d d' \<Longrightarrow> base_inv d \<Longrightarrow> base_inv d'"
  by (induction rule: rtranclp_induct) (auto intro: program_step_base)

lemma web_db_world: "snd (web_db fw c cfg allow (a, e) (ob, w)) = snd (web_route fw c cfg allow e (request a) w)"
  by (simp add: web_db_def serve_web_def serve_request_state_kept handle_exceptions_state)

lemma web_route_step:
  "snd (snd (web_route fw c cfg allow e req (st, d))) = d \<or>
   program_step c cfg d (snd (snd (web_route fw c cfg allow e req (st, d))))"
proof (cases rule: web_route_cases [of fw c cfg allow e req st d])
  case 1
  then show ?thesis by simp
next
  case (2 r args caller call)
  show ?thesis
  proof (cases "caller_operation (server_offset fw) e call caller")
    case None
    then show ?thesis
      using 2(5) by simp
  next
    case (Some q)
    have "user_current q d"
    proof (cases caller)
      case None
      then have "operation_user q = None"
        using Some operation_of_public [of e call q] by (simp add: caller_operation_def)
      then show ?thesis
        by (simp add: user_current_def)
    next
      case (Some u)
      then have "operation_user q = Some u"
        using \<open>caller_operation (server_offset fw) e call caller = Some q\<close> operation_user_of_call [of "server_offset fw" e call u q]
        by (simp add: caller_operation_def)
      then show ?thesis
        using 2(2) Some by (auto simp: user_current_def admitted_def)
    qed
    then show ?thesis
      using 2(5) Some program_step.operation [of q d c cfg] by simp
  qed
qed

interpretation web: simulation "web_step fw c cfg allow" "program_step c cfg" "\<lambda>w. snd (snd w)" "\<lambda>_. True"
proof unfold_locales
  fix s s' :: "observability \<times> 'b \<times> db"
  assume "web_step fw c cfg allow s s'"
  then obtain ae where ae: "s' = web_db fw c cfg allow ae s"
    by (rule web_step_E)
  obtain a e where "ae = (a, e)"
    by (rule prod.exhaust)
  moreover obtain ob st d where "s = (ob, st, d)"
    by (rule prod_cases3)
  ultimately show "snd (snd s') = snd (snd s) \<or> program_step c cfg (snd (snd s)) (snd (snd s'))"
    using ae web_db_world [of fw c cfg allow a e ob "(st, d)"] web_route_step [of fw c cfg allow e "request a" st d]
    by simp
qed simp

end
