(* ===== verification/Web_Properties.thy ===== *)
theory Web_Properties
  imports Web_Operations Scenario
begin

text \<open>
  Properties of the application as its clients see it: every declared URL reaches its function, who is
  not signed in is told so and changes nothing, who is admitted has his request carried out, and whatever
  requests arrive, the database goes through a run of the program.
\<close>

section \<open>A framework\<close>

text \<open>A framework for the examples: the token names its user, and integers are read.\<close>

definition not_authenticated :: py_exc where
  "not_authenticated = HTTPException 401 ''Not authenticated'' [(''WWW-Authenticate'', ''Bearer'')]"

definition demo_bearer :: "http_request \<Rightarrow> plain_token res" where
  "demo_bearer req = (case header_get ''authorization'' (rq_headers req) of
     None \<Rightarrow> Inl not_authenticated
   | Some v \<Rightarrow>
     if take 7 v \<noteq> ''Bearer '' then Inl not_authenticated
     else Inr ([(''sub'', Claim_Str (drop 7 v))], jwt_secret_key default_settings, jwt_algorithm default_settings))"

definition read_id :: "(int \<Rightarrow> call) \<Rightarrow> string \<Rightarrow> json + call" where
  "read_id f v = (case py_int v of Inl _ \<Rightarrow> Inl J_Null | Inr i \<Rightarrow> Inr (f i))"

definition demo_read :: "endpoint \<Rightarrow> string list \<Rightarrow> http_request \<Rightarrow> json + call" where
  "demo_read ep args req = (case (ep, args) of
     (Ep_Cancel_Booking, [a]) \<Rightarrow> read_id Call_Cancel_Booking a
   | (Ep_Get_Booking_By_Id, [a]) \<Rightarrow> read_id Call_Get_Booking_By_Id a
   | (Ep_Delete_Slot_For_Me, [a]) \<Rightarrow> read_id Call_Delete_Slot_For_Me a
   | (Ep_Create_Slot_For_Me, []) \<Rightarrow> Inr (Call_Create_Slot_For_Me (Aware (int (length (rq_body req)))) (Aware 10))
   | (Ep_Get_Me, []) \<Rightarrow> Inr Call_Get_Me
   | (Ep_Login, []) \<Rightarrow> Inr (Call_Login \<lparr>lq_email = ''a@x'', lq_password = rq_body req\<rparr>)
   | (Ep_Create_Booking, []) \<Rightarrow> read_id (\<lambda>i. Call_Create_Booking i None) (rq_body req)
   | _ \<Rightarrow> Inl J_Null)"

definition demo_framework :: "plain_token framework" where
  "demo_framework = \<lparr>find_route = first_match,
     no_route = (\<lambda>_. \<lparr>rs_status = 404, rs_headers = [], rs_body = J_Str ''Not Found''\<rparr>),
     unreadable_body = (\<lambda>_. None), bearer_token = demo_bearer, read_call = demo_read,
     validation_errors = (\<lambda>_. J_Null),
     validator_errors = (\<lambda>_ err. J_List [J_Obj [(''error'', J_Python err)]]), render = (\<lambda>_. J_Null),
     server_error = (\<lambda>_. \<lparr>rs_status = 500, rs_headers = [], rs_body = J_Null\<rparr>), server_offset = 0\<rparr>"

lemma read_id_Inr: "read_id f a = Inr call \<longleftrightarrow> (\<exists>i. py_int a = Inr i \<and> call = f i)"
  by (auto simp: read_id_def split: sum.splits)

lemma demo_framework_ok [simp]: "framework_ok demo_framework"
proof -
  have "call_endpoint call = ep \<and> (\<forall>ids. args = map int_str ids \<longrightarrow> call_ids call = ids)"
    if "demo_read ep args req = Inr call" for ep args req call
    using that by (cases ep)
      (auto simp: demo_read_def read_id_Inr split: list.splits)
  moreover have "err = not_authenticated" if "demo_bearer req = Inl err" for req err
    using that by (auto simp: demo_bearer_def split: option.splits if_splits)
  ultimately show ?thesis
    by (simp add: framework_ok_def demo_framework_def not_authenticated_def)
qed

definition demo_request :: "string \<Rightarrow> string \<Rightarrow> string option \<Rightarrow> http_request" where
  "demo_request verb path token = \<lparr>rq_method = verb, rq_path = path,
     rq_headers = (case token of None \<Rightarrow> [] | Some v \<Rightarrow> [(''authorization'', ''Bearer '' @ v)]),
     rq_query_string = [], rq_body = [], rq_client_host = None\<rparr>"

definition demo_visit :: "http_request \<Rightarrow> arrival" where
  "demo_visit req = \<lparr>request = req, new_uuid = ''u'', started = 0, finished = 1\<rparr>"

lemma framework_route: "framework_ok fw \<Longrightarrow> find_route fw = first_match"
  by (simp add: framework_ok_def)

lemma framework_read:
  assumes "framework_ok fw" and "read_call fw ep args req = Inr call"
  shows "call_endpoint call = ep" and "args = map int_str ids \<Longrightarrow> call_ids call = ids"
  using assms unfolding framework_ok_def by blast+

section \<open>Routing\<close>

text \<open>C34: Every declared URL reaches its function: the path of a route, with any numbers for its parameters, goes
  to that route and to no earlier one, with those numbers as arguments. So \<^verbatim>\<open>/bookings/me\<close> is never taken for
  a booking, and no literal path hides a booking or a specialist.\<close>

theorem urls_reach_their_functions:
  assumes "framework_ok fw" and "r \<in> set app_routes" and "length ids = path_params (rt_path r)"
  shows "find_route fw app_routes (rt_method r) (path_for r ids) = Some (r, map int_str ids)"
  using first_match_path_for [OF app_routes_unhidden assms(2,3)] by (simp add: framework_route [OF assms(1)])

theorem urls_reach_their_functions_witness:
  "find_route demo_framework app_routes ''GET'' ''/bookings/me'' = Some (bookings_router ! 4, []) \<and>
   rt_endpoint (bookings_router ! 4) = Ep_List_My_Bookings"
proof -
  have "bookings_router ! 4 \<in> set app_routes" "rt_method (bookings_router ! 4) = ''GET''"
    "path_params (rt_path (bookings_router ! 4)) = 0" "path_for (bookings_router ! 4) [] = ''/bookings/me''"
    "rt_endpoint (bookings_router ! 4) = Ep_List_My_Bookings"
    by code_simp+
  then show ?thesis
    using urls_reach_their_functions [OF demo_framework_ok, of "bookings_router ! 4" "[]"] by simp
qed

section \<open>Strangers\<close>

text \<open>C32: A request to a route that needs a user, from nobody the database knows as active, is answered 401 with
  the challenge header, whatever the numbers and arguments, and changes nothing but metrics and logs.\<close>

theorem strangers_get_401:
  assumes "framework_ok fw" and "r \<in> set app_routes" and "rt_access r \<noteq> Public"
    and "length ids = path_params (rt_path r)"
    and "rq_method (request a) = rt_method r" and "rq_path (request a) = path_for r ids"
    and "unreadable_body fw (request a) = None"
    and "\<And>u. \<not> admitted fw c cfg e (request a) Signed_In d u"
    and "serve_web fw c cfg allow (a, e) (ob, st, d) = (response, ob', st', d')"
  shows "rs_status response = 401 \<and> header_get ''WWW-Authenticate'' (rs_headers response) = Some ''Bearer'' \<and>
    st' = st \<and> d' = d"
proof -
  have route: "find_route fw app_routes (rq_method (request a)) (rq_path (request a)) = Some (r, map int_str ids)"
    using first_match_path_for [OF app_routes_unhidden assms(2,4)] assms(5,6)
    by (simp add: framework_route [OF assms(1)])
  obtain err where err: "signed_in_user fw c cfg e (request a) (open_session d) = (Inl err, open_session d)"
    using assms(8) signed_in_user_admitted [of fw c cfg e "request a" d]
    by (cases "fst (signed_in_user fw c cfg e (request a) (open_session d))")
      (auto simp: signed_in_user_eq)
  moreover obtain msg where msg: "err = HTTPException 401 msg [(''WWW-Authenticate'', ''Bearer'')]"
    using err assms(1)
    by (auto simp: signed_in_user_eq framework_ok_def get_current_user_eq unauthorized_exc_def
        split: sum.splits option.splits if_splits)
  ultimately have "solve_dependencies fw c cfg e (rt_access r) (request a) (open_session d) = (Inl err, open_session d)"
    using assms(3) by (cases "rt_access r") (simp_all add: solve_dependencies_def)
  then have "web_route fw c cfg allow e (request a) (st, d)
      = (Raised (HTTPException 401 msg [(''WWW-Authenticate'', ''Bearer'')]), st, d)"
    using route assms(7) msg by (simp add: web_route_def)
  from serve_request_http_error [where route = "web_route fw c cfg allow e" and a = a, OF this,
      of "server_error fw" ob] assms(9)
  have "response = \<lparr>rs_status = 401,
      rs_headers = header_set ''X-Request-ID'' (request_id_of a) [(''WWW-Authenticate'', ''Bearer'')],
      rs_body = error_payload (request_id_of a) (''http_'' @ int_str 401) msg (J_Str msg)\<rparr>"
    "(st', d') = (st, d)"
    by (simp_all add: serve_web_def)
  moreover have "py_lower ''WWW-Authenticate'' \<noteq> py_lower ''X-Request-ID''"
    by code_simp
  ultimately show ?thesis
    using header_get_set_other [of "''WWW-Authenticate''" "''X-Request-ID''" "request_id_of a"]
    by (simp add: header_get_def)
qed

theorem strangers_get_401_witness:
  "\<exists>response ob'. serve_web demo_framework plain_crypto default_settings memory_allow
       (demo_visit (demo_request ''PATCH'' ''/bookings/1/cancel'' None), demo_env)
       (initial_observability, no_events, demo_db) = (response, ob', no_events, demo_db) \<and>
     rs_status response = 401"
proof -
  let ?r = "bookings_router ! 1"
    and ?a = "demo_visit (demo_request ''PATCH'' ''/bookings/1/cancel'' None)"
  obtain response ob' st' d' where run: "serve_web demo_framework plain_crypto default_settings memory_allow (?a, demo_env)
      (initial_observability, no_events, demo_db) = (response, ob', st', d')"
    by (metis prod.exhaust)
  have r: "?r \<in> set app_routes" "rt_access ?r \<noteq> Public" "path_params (rt_path ?r) = 1"
    "rt_method ?r = ''PATCH''" "path_for ?r [1] = ''/bookings/1/cancel''"
    by code_simp+
  have none: "\<not> admitted demo_framework plain_crypto default_settings demo_env (request ?a) Signed_In demo_db u" for u
    by (simp add: admitted_def demo_framework_def demo_bearer_def demo_visit_def demo_request_def header_get_def)
  have req: "rq_method (request ?a) = rt_method ?r" "rq_path (request ?a) = path_for ?r [1]"
    "unreadable_body demo_framework (request ?a) = None" "length [1::int] = path_params (rt_path ?r)"
    using r by (simp_all add: demo_visit_def demo_request_def demo_framework_def)
  from strangers_get_401 [OF demo_framework_ok r(1,2) req(4,1,2,3) none run] run show ?thesis
    by auto
qed

section \<open>Writers\<close>

definition writing_endpoints :: "endpoint list" where
  "writing_endpoints = [Ep_Register, Ep_Create_Service_For_Me, Ep_Create_Slot_For_Me, Ep_Delete_Slot_For_Me,
     Ep_Create_Booking, Ep_Cancel_Booking, Ep_Reschedule_Existing_Booking, Ep_Join_Wait_List, Ep_Leave_Wait_List]"

lemma first_match_route: "first_match rs verb path = Some (r, args) \<Longrightarrow> r \<in> set rs \<and> rt_method r = verb"
  by (induction rs) (auto simp: route_match_def split: option.splits if_splits)

lemma writing_routes: "list_all (\<lambda>r. rt_endpoint r \<in> set writing_endpoints \<longrightarrow> rt_method r \<noteq> ''GET'') app_routes"
  by code_simp

lemma operation_writes: "caller_operation offset e call caller = Some q \<Longrightarrow> call_endpoint call \<in> set writing_endpoints"
  by (cases call; cases caller) (simp_all add: caller_operation_def writing_endpoints_def)

lemma public_operation_registers: "public_operation e call = Some q \<Longrightarrow> call_endpoint call = Ep_Register"
  by (cases call) simp_all

text \<open>C16: Only admitted requests write: a request that changes the database is no \<open>GET\<close>, and is either a
  registration or carries a token of an active user whom its route admits.\<close>

theorem only_admitted_requests_write:
  assumes "framework_ok fw" and "snd (snd (web_route fw c cfg allow e req (st, d))) \<noteq> d"
  shows "rq_method req \<noteq> ''GET'' \<and>
    (\<exists>r args. first_match app_routes (rq_method req) (rq_path req) = Some (r, args) \<and>
      (rt_endpoint r = Ep_Register \<or> rt_access r \<noteq> Public \<and> (\<exists>u. admitted fw c cfg e req (rt_access r) d u)))"
proof (cases rule: web_route_cases [of fw c cfg allow e req st d])
  case 1
  then show ?thesis
    using assms(2) by simp
next
  case (2 r args caller call)
  have found: "first_match app_routes (rq_method req) (rq_path req) = Some (r, args)"
    using 2(1) framework_route [OF assms(1)] by simp
  note route = first_match_route [OF found]
  obtain q where q: "caller_operation (server_offset fw) e call caller = Some q"
    using 2(5) assms(2) by (cases "caller_operation (server_offset fw) e call caller") simp_all
  have ep: "rt_endpoint r = call_endpoint call"
    using framework_read(1) [OF assms(1) 2(3)] by simp
  then have "rt_method r \<noteq> ''GET''"
    using operation_writes [OF q] writing_routes route by (auto simp: list_all_iff)
  moreover have "rt_endpoint r = Ep_Register" if "caller = None"
    using q that ep public_operation_registers [of e call q] by (simp add: caller_operation_def)
  ultimately show ?thesis
    using 2(2) found route by auto
qed

text \<open>A client cancels a booking and another one, who waited for the slot, gets it.\<close>

definition cancel_visit :: "http_request" where
  "cancel_visit = demo_request ''PATCH'' ''/bookings/1/cancel'' (Some ''1'')"

lemma cancel_visit_effect:
  "map status (bookings (snd (snd (web_route demo_framework plain_crypto default_settings memory_allow demo_env
     cancel_visit (no_events, demo_db))))) = [CANCELLED, CONFIRMED]"
  by code_simp

theorem only_admitted_requests_write_witness:
  "\<exists>u. admitted demo_framework plain_crypto default_settings demo_env cancel_visit Signed_In demo_db u"
proof -
  let ?d = "snd (snd (web_route demo_framework plain_crypto default_settings memory_allow demo_env
    cancel_visit (no_events, demo_db)))"
  have "map status (bookings demo_db) = [CONFIRMED]"
    by (simp add: demo_defs)
  then have "?d \<noteq> demo_db"
    using cancel_visit_effect by (metis length_map length_Cons n_not_Suc_n)
  from only_admitted_requests_write [OF demo_framework_ok this]
  obtain r args where r: "first_match app_routes (rq_method cancel_visit) (rq_path cancel_visit) = Some (r, args)"
    "rt_endpoint r = Ep_Register \<or>
      (\<exists>u. admitted demo_framework plain_crypto default_settings demo_env cancel_visit (rt_access r) demo_db u)"
    by blast
  have "map_option (\<lambda>(r, args). (rt_endpoint r, rt_access r))
      (first_match app_routes (rq_method cancel_visit) (rq_path cancel_visit)) = Some (Ep_Cancel_Booking, Signed_In)"
    by code_simp
  then show ?thesis
    using r by auto
qed

text \<open>C15: A request of an admitted user is carried out as it was addressed: the function of the route runs, on the
  numbers of the path and in the session of the request; the database becomes what the operation of
  the call makes of it; and the client gets the function's answer with the declared status, or its
  exception.\<close>

theorem admitted_request_is_carried_out:
  fixes fw :: "'a framework"
  assumes "framework_ok fw" and "r \<in> set app_routes" and "rt_access r \<noteq> Public"
    and "length ids = path_params (rt_path r)"
    and "rq_method req = rt_method r" and "rq_path req = path_for r ids"
    and "unreadable_body fw req = None" and "schema_ok d" and "admitted fw c cfg e req (rt_access r) d u"
    and "read_call fw (rt_endpoint r) (map int_str ids) req = Inr call" and "call_valid call"
  shows "call_endpoint call = rt_endpoint r \<and> call_ids call = ids \<and>
    web_route fw c cfg allow e req (st, d) =
      ((case fst (user_call (server_offset fw) e call u (open_session d)) of
          Inl err \<Rightarrow> Raised err
        | Inr a \<Rightarrow> Returned \<lparr>rs_status = rt_status r, rs_headers = answer_headers a, rs_body = render fw a\<rparr>),
       st, after_operation c cfg (user_operation (server_offset fw) e call u) d)"
proof -
  have "find_route fw app_routes (rq_method req) (rq_path req) = Some (r, map int_str ids)"
    using first_match_path_for [OF app_routes_unhidden assms(2,4)] assms(5,6)
    by (simp add: framework_route [OF assms(1)])
  moreover obtain res :: "'a answer res" and s where "user_call (server_offset fw) e call u (open_session d) = (res, s)"
    by (rule prod.exhaust)
  moreover have "committed (snd (user_call (server_offset fw) e call u (open_session d) :: 'a answer res \<times> session))
      = after_operation c cfg (user_operation (server_offset fw) e call u) d"
    by (rule user_call_committed [OF assms(11)])
  ultimately show ?thesis
    using framework_read(1) [OF assms(1,10)] framework_read(2) [OF assms(1,10) refl]
      admitted_is_caller [OF assms(9,3,8)] assms(7,10,11)
    by (cases res) (simp_all add: web_route_def run_call_def)
qed

theorem admitted_request_is_carried_out_witness:
  "snd (web_route demo_framework plain_crypto default_settings memory_allow demo_env cancel_visit (no_events, demo_db))
    = (no_events, snd (serve_cancel demo_env (1, demo_user 1 ''a@x'' CLIENT) demo_db))"
proof -
  let ?r = "bookings_router ! 1"
  have r: "?r \<in> set app_routes" "rt_access ?r \<noteq> Public" "length [1::int] = path_params (rt_path ?r)"
    "rq_method cancel_visit = rt_method ?r" "rq_path cancel_visit = path_for ?r [1]"
    by code_simp+
  have admitted: "admitted demo_framework plain_crypto default_settings demo_env cancel_visit (rt_access ?r) demo_db
      (demo_user 1 ''a@x'' CLIENT)"
    by code_simp
  have "read_call demo_framework (rt_endpoint ?r) (map int_str [1]) cancel_visit = Inr (Call_Cancel_Booking 1)"
    by code_simp
  from admitted_request_is_carried_out [OF demo_framework_ok r _ demo_schema_ok admitted this, of memory_allow no_events]
  show ?thesis
    by (simp add: demo_framework_def)
qed

text \<open>C33: A slot request whose times do not fit, whether the end is not after the start or only one of them has a
  zone, is answered with a server error instead of 422, and changes nothing but metrics and logs. The
  comparison of mixed times raises a \<open>TypeError\<close>; the validation error of the other case holds the exception of the
  validator, which \<open>validation_exception_handler\<close> passes to \<open>JSONResponse\<close> as it is.\<close>

theorem bad_slot_times_are_server_errors:
  assumes "framework_ok fw" and "r \<in> set app_routes" and "rt_endpoint r = Ep_Create_Slot_For_Me" and "rt_access r \<noteq> Public"
    and "length ids = path_params (rt_path r)"
    and "rq_method (request v) = rt_method r" and "rq_path (request v) = path_for r ids"
    and "unreadable_body fw (request v) = None" and "schema_ok d" and "admitted fw c cfg e (request v) (rt_access r) d u"
    and "read_call fw Ep_Create_Slot_For_Me (map int_str ids) (request v) = Inr (Call_Create_Slot_For_Me a z)"
    and "check_interval a z \<noteq> Inr ()"
    and "serve_web fw c cfg allow (v, e) (ob, st, d) = (response, ob', st', d')"
  shows "rs_status response = 500 \<and> st' = st \<and> d' = d"
proof -
  obtain err where err: "check_interval a z = Inl err" "err = ValueError \<or> err = TypeError"
    using assms(12) by (cases a; cases z) (auto split: if_splits)
  let ?call = "Call_Create_Slot_For_Me a z"
  have "find_route fw app_routes (rq_method (request v)) (rq_path (request v)) = Some (r, map int_str ids)"
    using first_match_path_for [OF app_routes_unhidden assms(2,5)] assms(6,7)
    by (simp add: framework_route [OF assms(1)])
  then have routed: "web_route fw c cfg allow e (request v) (st, d) =
      ((if err = ValueError then Invalid_Request (validator_errors fw ?call err) else Raised err), st, d)"
    using admitted_is_caller [OF assms(10,4,9)] assms(3,8,11) err(1) by (simp add: web_route_def)
  have "\<not> encodable (validator_errors fw ?call err)"
    using assms(1) by (metis empty_iff empty_set encodable_def framework_ok_def)
  then have "handle_exceptions (web_route fw c cfg allow e) (request v) (request_id_of v) (st, d) = (Inl TypeError, st, d)"
    using routed err(2) by (auto simp: handle_exceptions_def validation_exception_handler_def json_response_def)
  then have "response = server_error fw TypeError \<and> (st', d') = (st, d)"
    using assms(13) by (auto simp: serve_web_def serve_request_def observability_middleware_def Let_def)
  then show ?thesis
    using assms(1) by (simp add: framework_ok_def)
qed

text \<open>A specialist asks for a slot that begins and ends at the same time.\<close>

definition slot_visit :: "http_request" where
  "slot_visit = (demo_request ''POST'' ''/specialists/me/slots'' (Some ''3''))\<lparr>rq_body := ''1234567890''\<rparr>"

theorem bad_slot_times_are_server_errors_witness:
  "\<exists>response ob'. serve_web demo_framework plain_crypto default_settings memory_allow (demo_visit slot_visit, demo_env)
     (initial_observability, no_events, demo_db) = (response, ob', no_events, demo_db) \<and> rs_status response = 500"
proof -
  let ?r = "specialists_router ! 3"
  obtain response ob' st' d' where run: "serve_web demo_framework plain_crypto default_settings memory_allow
      (demo_visit slot_visit, demo_env) (initial_observability, no_events, demo_db) = (response, ob', st', d')"
    by (metis prod.exhaust)
  have v: "request (demo_visit slot_visit) = slot_visit"
    by (simp add: demo_visit_def)
  have r: "?r \<in> set app_routes" "rt_endpoint ?r = Ep_Create_Slot_For_Me" "rt_access ?r \<noteq> Public"
    "length ([]::int list) = path_params (rt_path ?r)" "rq_method slot_visit = rt_method ?r"
    "rq_path slot_visit = path_for ?r []"
    by code_simp+
  have admitted: "admitted demo_framework plain_crypto default_settings demo_env slot_visit (rt_access ?r) demo_db
      (demo_user 3 ''s@x'' SPECIALIST)"
    by code_simp
  have call: "read_call demo_framework Ep_Create_Slot_For_Me (map int_str []) slot_visit
      = Inr (Call_Create_Slot_For_Me (Aware 10) (Aware 10))" "check_interval (Aware 10) (Aware 10) \<noteq> Inr ()"
    by code_simp+
  have "unreadable_body demo_framework slot_visit = None"
    by (simp add: demo_framework_def)
  from bad_slot_times_are_server_errors [OF demo_framework_ok r(1-4) _ _ _ demo_schema_ok _ _ call(2), of "demo_visit slot_visit",
      unfolded v, OF r(5,6) this admitted call(1) run]
  show ?thesis
    using run by auto
qed

text \<open>C14: The web application refines the program: whatever requests arrive, in whatever order and with whatever
  headers, paths and bodies, the database goes through a run of the program's operations, each of them a
  registration or by a user who was active then; so the constraints hold throughout.\<close>

theorem web_runs_refine_program:
  assumes "(web_step fw c cfg allow)\<^sup>*\<^sup>* (ob, st, d) (ob', st', d')" and "base_inv d"
  shows "(program_step c cfg)\<^sup>*\<^sup>* d d' \<and> base_inv d'"
proof -
  have "(program_step c cfg)\<^sup>*\<^sup>* d d'"
    using web.run_view [OF assms(1)] by simp
  then show ?thesis
    using program_run_base assms(2) by blast
qed

theorem web_runs_refine_program_witness:
  "\<exists>d'. (program_step plain_crypto default_settings)\<^sup>*\<^sup>* demo_db d' \<and> map status (bookings d') = [CANCELLED, CONFIRMED]"
proof -
  let ?w = "(initial_observability, no_events, demo_db)" and ?ae = "(demo_visit cancel_visit, demo_env)"
  obtain ob' st' d' where w': "web_db demo_framework plain_crypto default_settings memory_allow ?ae ?w = (ob', st', d')"
    by (metis prod.exhaust)
  have "request (demo_visit cancel_visit) = cancel_visit"
    by (simp add: demo_visit_def)
  then have "d' = snd (snd (web_route demo_framework plain_crypto default_settings memory_allow demo_env
      cancel_visit (no_events, demo_db)))"
    using w' web_db_world [of demo_framework plain_crypto default_settings memory_allow
      "demo_visit cancel_visit" demo_env initial_observability "(no_events, demo_db)"]
    by (metis snd_conv)
  then have served: "map status (bookings d') = [CANCELLED, CONFIRMED]"
    using cancel_visit_effect by simp
  have "(web_step demo_framework plain_crypto default_settings memory_allow)\<^sup>*\<^sup>* ?w (ob', st', d')"
    using web_step.request [of demo_framework plain_crypto default_settings memory_allow ?w ?ae] w'
    by (simp add: r_into_rtranclp)
  from web_runs_refine_program [OF this demo_base_inv]
  have "(program_step plain_crypto default_settings)\<^sup>*\<^sup>* demo_db d'"
    by (rule conjunct1)
  then show ?thesis
    using served by (intro exI [of _ d'] conjI)
qed

end
