(* ===== verification/Web_Limits.thy ===== *)
theory Web_Limits
  imports Web_Properties
begin

text \<open>
  The limiter in the whole application: which requests consult it, what becomes of its state in a run of
  requests, and what a host can achieve by guessing passwords.
\<close>

section \<open>Requests that consult the limiter\<close>



text \<open>The limit of a key depends on the endpoint it begins with.\<close>

definition key_limit :: "settings \<Rightarrow> string \<Rightarrow> int" where
  "key_limit cfg key =
     (if take 9 key = ''register:'' then auth_register_max_attempts cfg else auth_login_max_attempts cfg)"

lemma key_limit_keys [simp]:
  "key_limit cfg (rate_limit_key ''register'' host) = auth_register_max_attempts cfg"
  "key_limit cfg (rate_limit_key ''login'' host) = auth_login_max_attempts cfg"
  by (simp_all add: key_limit_def rate_limit_key_def Let_def)

definition limiter_state :: "settings \<Rightarrow> 's allow_op \<Rightarrow> (instant \<times> string) option \<Rightarrow> 's \<Rightarrow> 's" where
  "limiter_state cfg allow q st = (case q of None \<Rightarrow> st
     | Some (t, key) \<Rightarrow> snd (allow t key (key_limit cfg key) (auth_rate_limit_window_seconds cfg) st))"






lemma limiter_state_None [simp]: "limiter_state cfg allow None st = st"
  by (simp add: limiter_state_def)





section \<open>Runs of requests\<close>









section \<open>Guessing passwords\<close>





end
