(* ===== verification/Interrupted_Promotion.thy ===== *)
theory Interrupted_Promotion
  imports Beat System Scenario
begin

text \<open>
  Promotions that come late or never. A promotion is a transaction of its own, after the one that freed
  the slot (\<^verbatim>\<open>api/v1/bookings.py\<close>, \<^verbatim>\<open>tasks/expirations.py\<close>): other requests can be served in between, and the row
  of the slot may be locked when it starts, which \<open>NOWAIT\<close> turns into an error. A cancellation is cut
  here into the transaction that cancels and the one that promotes; a run of the expiry task is
  followed when its first promotion meets a lock.
\<close>

section \<open>A cancellation in two transactions\<close>

text \<open>
  The first one returns the booking it has changed, or \<open>None\<close> when there was nothing to cancel; the second
  one promotes and answers.
\<close>

definition cancel_commit :: "env \<Rightarrow> int \<Rightarrow> user \<Rightarrow> db \<Rightarrow> booking option res \<times> db" where
  "cancel_commit e booking_id current_user d =
     (case find_by b_id booking_id (bookings d) of
        None \<Rightarrow> (Inl (http 404 ''Booking not found''), d)
      | Some b \<Rightarrow>
        (case find_by ts_id (slot_id b) (time_slots d) of
           None \<Rightarrow> (Inl (http 404 ''Slot not found''), d)
         | Some slot \<Rightarrow>
           if \<not> allowed_on current_user b slot d then (Inl (http 403 ''Not enough permissions''), d)
           else if status b \<noteq> CANCELLED then (Inr (Some b), release (cancel (now e)) b d)
           else (Inr None, d)))"

definition cancel_promote :: "env \<Rightarrow> int \<Rightarrow> booking option \<Rightarrow> db \<Rightarrow> booking_response res \<times> db" where
  "cancel_promote e booking_id cancelled_now d =
     (case (case cancelled_now of
              None \<Rightarrow> (Inr None, d)
            | Some b \<Rightarrow> serve_promote e (slot_id b) d) of
        (Inl err, d) \<Rightarrow> (Inl err, d)
      | (Inr _, d) \<Rightarrow>
        (case find_by b_id booking_id (bookings d) of
           None \<Rightarrow> (Inl InvalidRequestError, d)
         | Some refreshed \<Rightarrow> (Inr (booking_view refreshed), d)))"

lemma cancel_halves:
  assumes "schema_ok d"
  shows "serve_cancel e (i, u) d =
    (case cancel_commit e i u d of
       (Inl err, d) \<Rightarrow> (Inl err, d)
     | (Inr b, d) \<Rightarrow> cancel_promote e i b d)"
proof (cases "find_by b_id i (bookings d)")
  case None
  then show ?thesis
    by (simp add: serve_cancel_eq [OF assms] cancel_ref_def cancel_commit_def)
next
  case (Some b)
  have b: "b \<in> set (bookings d)" "b_id b = i"
    using find_by_SomeD [OF Some] by simp_all
  have slot: "find_by ts_id (slot_id b) (time_slots d) = Some (slot_of d b)"
    using slot_of_mem(1) [OF assms b(1)] .
  let ?d = "release (cancel (now e)) b d"
  obtain r d' where p: "serve_promote e (slot_id b) ?d = (r, d')"
    by (rule prod.exhaust)
  have "find_by b_id i (bookings ?d) = Some (cancel (now e) b)"
    using find_booking_release [of "cancel (now e)" b d] Some b(2) by simp
  moreover obtain new where "bookings d' = bookings ?d @ new"
    using serve_promote_bookings [OF _ p] assms by (auto simp: schema_ok_release)
  ultimately have "find_by b_id i (bookings d') = Some (cancel (now e) b)"
    using find_by_prefix by metis
  then show ?thesis
    using Some slot p
    by (cases r) (simp_all add: serve_cancel_eq [OF assms] cancel_ref_def cancel_commit_def cancel_promote_def)
qed

lemma cancel_commit_cases:
  assumes "cancel_commit e i u d = (r, d1)"
  obtains err where "r = Inl err" "d1 = d"
  | "r = Inr None" "d1 = d"
  | b where "r = Inr (Some b)" "d1 = release (cancel (now e)) b d" "find_by b_id i (bookings d) = Some b"
      "status b \<noteq> CANCELLED"
  using assms by (auto simp: cancel_commit_def split: option.splits if_splits)

lemma cancel_commit_safe:
  assumes "base_inv d" and "exclusive d" and "cancel_safe (i, u) d" and "cancel_commit e i u d = (r, d1)"
  shows "base_inv d1 \<and> exclusive d1"
  using assms(4)
proof (cases rule: cancel_commit_cases)
  case (3 b)
  have mem: "b \<in> set (bookings d)"
    using find_by_SomeD [OF 3(3)] by simp
  have "status b = CONFIRMED \<or> confirmed_on (slot_id b) d = []"
    using assms(3) 3(3,4) not_confirmed_cases holder_None_confirmed by (auto simp: cancel_safe_def)
  then show ?thesis
    using 3(2) release_base [OF assms(1) closing_cancel mem]
      release_exclusive [OF assms(1,2) closing_cancel mem] by simp
qed (use assms in auto)

text \<open>A promotion of a slot that is held meets the conditional update, which finds no free slot.\<close>

lemma promote_held_slot:
  assumes "base_inv d" and "exclusive d" and "generated_ok e" and "no_faults e"
    and "holder_of d s \<noteq> None" and "queue_of d s \<noteq> []" and "s \<noteq> 0"
  shows "serve_promote e s d = (Inl (http 409 SLOT_ALREADY_BOOKED_DETAIL), d)"
proof -
  note ok = base_inv_schema [OF assms(1)]
  obtain w ws where q: "slot_queue s d = w # ws"
    using assms(6) by (cases "slot_queue s d") (simp_all add: queue_of_def)
  have "s \<in> ts_id ` set (time_slots d)"
    using slot_queue_head(1,2) [OF q] schema_ok_references(3) [OF ok] by blast
  then obtain t where t: "find_by ts_id s (time_slots d) = Some t"
    by (metis find_by_mem_None not_None_eq)
  then have "is_booked t"
    using exclusive_holder [OF assms(2) t] assms(5) by simp
  then have "promote_ref e s d = (Inl (http 409 SLOT_ALREADY_BOOKED_DETAIL), d)"
    using q t assms(7) by (simp add: promote_ref_def create_booking_ref_def replay_def)
  then show ?thesis
    using promote_open [OF ok assms(3,4), of s] by (simp add: serve_promote_def get_db_def)
qed

section \<open>Locked slots\<close>

text \<open>Another transaction holds the row of the slot: PostgreSQL refuses the locking statement.\<close>

definition slot_locked :: "env \<Rightarrow> bool" where
  "slot_locked e \<longleftrightarrow> (\<exists>err. fault e (Select_Slot (postgresql e)) = Some err \<and> is_pg_lock_not_available err)"

lemma promote_locked:
  assumes "slot_locked e" and "queue_of d s \<noteq> []"
  shows "promote_next_wait_list_entry e s (open_session d) = (Inl (http 409 LOCK_CONFLICT_DETAIL), open_session d)"
  using assms
  by (cases "slot_queue s d")
    (auto simp: slot_locked_def queue_of_def promote_next_wait_list_entry_def create_booking_for_slot_def
      create_booking_try_def key_given_def claim_and_insert_def)

text \<open>Runs of the expiry task leave a slot alone that nobody holds.\<close>

lemma idle_runs:
  assumes "drainable s start d" and "holder_of d s = None" and "\<forall>run \<in> set runs. run_env_ok run"
  shows "holder_of (fold (expire_run cfg) runs d) s = None \<and> queue_of (fold (expire_run cfg) runs d) s = queue_of d s"
  using assms
proof (induction runs arbitrary: d)
  case Nil
  then show ?case by simp
next
  case (Cons run runs)
  then show ?case
    using expire_run_idle [of s start d run cfg] by auto
qed

end
