(* ===== verification/Promotion_Properties.thy ===== *)
theory Promotion_Properties
  imports Interrupted_Promotion Wait_List_Properties
begin

text \<open>
  What a client who waits for a slot can rely on when the promotion of its slot is late or refused.
\<close>

section \<open>Overtaken cancellations\<close>

lemma cancel_commit_keeps:
  assumes "base_inv d" and "exclusive d" and "cancel_safe (i, u) d" and "cancel_commit e i u d = (Inr (Some b), d1)"
  shows "base_inv d1 \<and> exclusive d1 \<and> find_by b_id i (bookings d) = Some b \<and> d1 = release (cancel (now e)) b d"
  using cancel_commit_safe [OF assms] cancel_commit_cases [OF assms(4)] by blast

text \<open>The second half answers as its promotion did.\<close>

lemma cancel_promote_result:
  assumes "schema_ok d" and "i \<in> b_id ` set (bookings d)" and "serve_promote e (slot_id b) d = (x, p)"
    and "cancel_promote e i (Some b) d = (r, d')"
  shows "d' = p \<and> is_ok r = is_ok x \<and> (\<forall>err. x = Inl err \<longrightarrow> r = Inl err)"
proof -
  obtain b2 where "find_by b_id i (bookings d) = Some b2"
    using assms(2) find_by_mem_None by (metis not_None_eq)
  then have "find_by b_id i (bookings p) = Some b2"
    using serve_promote_bookings [OF assms(1,3)] find_by_prefix by metis
  then show ?thesis
    using assms(3,4) by (auto simp: cancel_promote_def split: sum.splits)
qed

text \<open>C10: A cancellation that others overtake between its two commits never books a slot twice, and its outcome
  is decided by what they did: if the slot is still free, the head of the queue gets it; if somebody
  booked it and nobody waits, nothing more happens; and if somebody booked it while clients wait, the
  canceller is told that the slot is already booked although the cancellation stands, and the queue
  has been passed over.\<close>

theorem overtaken_cancellation_exact:
  assumes "base_inv d" and "exclusive d" and "cancel_safe (i, u) d"
    and "cancel_commit e i u d = (Inr (Some b), d1)"
    and "safe_run c cfg ops d1" and "d2 = fold (exec_op c cfg) ops d1" and "i \<in> b_id ` set (bookings d2)"
    and "generated_ok e" and "no_faults e" and "s = slot_id b" and "s \<noteq> 0"
    and "cancel_promote e i (Some b) d2 = (r, d')"
  shows "base_inv d' \<and> exclusive d' \<and>
    (if holder_of d2 s = None
     then is_ok r \<and> holder_of d' = (holder_of d2)(s := next_holder (queue_of d2 s)) \<and>
       queue_of d' = (queue_of d2)(s := tl (queue_of d2 s))
     else d' = d2 \<and> (if queue_of d2 s = [] then is_ok r else r = Inl (http 409 SLOT_ALREADY_BOOKED_DETAIL)))"
proof -
  have "base_inv d1" "exclusive d1"
    using cancel_commit_keeps [OF assms(1-4)] by blast+
  then have d2: "base_inv d2" "exclusive d2"
    using safe_run_keeps assms(5,6) by blast+
  note ok = base_inv_schema [OF d2(1)]
  obtain x p where p: "serve_promote e s d2 = (x, p)"
    by (rule prod.exhaust)
  have result: "d' = p" "is_ok r = is_ok x" "x = Inl err \<Longrightarrow> r = Inl err" for err
    using cancel_promote_result [OF ok assms(7) p [unfolded assms(10)] assms(12)] by blast+
  have keeps: "base_inv p" "exclusive p"
    using promote.keeps_base [OF d2(1), of e s] promote.keeps_exclusive [OF d2, where e = e and a = s] p by simp_all
  show ?thesis
  proof (cases "holder_of d2 s = None")
    case True
    obtain y p' where "promote_next_wait_list_entry e s (open_session d2) = (Inr y, open_session p')"
      "holder_of p' = (holder_of d2)(s := next_holder (queue_of d2 s))"
      "queue_of p' = (queue_of d2)(s := tl (queue_of d2 s))"
      using promote_calendar [OF d2 assms(8,9) True assms(11)] by blast
    then show ?thesis
      using True p keeps result(1,2) by (auto simp: serve_promote_def get_db_def)
  next
    case False
    then show ?thesis
    proof (cases "queue_of d2 s = []")
      case True
      then have "x = Inr None" "p = d2"
        using p by (simp_all add: serve_promote_def get_db_def promote_next_wait_list_entry_def queue_of_def)
      then show ?thesis
        using False True keeps result(1,2) by (simp split del: if_split add: if_not_P [OF False])
    next
      case queue: False
      then show ?thesis
        using False promote_held_slot [OF d2 assms(8,9) False queue assms(11)] p keeps result by simp
    qed
  qed
qed

text \<open>The first client cancels, the third user books the slot at once, and the second client still waits.\<close>

theorem overtaken_cancellation_exact_witness:
  "\<exists>d1 d'. cancel_commit demo_env 1 (demo_user 1 ''a@x'' CLIENT) demo_db = (Inr (Some (demo_booking 1 2 1 CONFIRMED)), d1) \<and>
     cancel_promote demo_env 1 (Some (demo_booking 1 2 1 CONFIRMED))
       (exec_op plain_crypto default_settings (Op_Book demo_env 2 None (demo_user 4 ''r@x'' ADMIN)) d1)
     = (Inl (http 409 SLOT_ALREADY_BOOKED_DETAIL), d') \<and> queue_of d' 2 = [2] \<and> holder_of d' 2 = Some 4"
proof -
  let ?u = "demo_user 1 ''a@x'' CLIENT" and ?b = "demo_booking 1 2 1 CONFIRMED"
    and ?q = "Op_Book demo_env 2 None (demo_user 4 ''r@x'' ADMIN)"
  let ?d1 = "release (cancel (now demo_env)) ?b demo_db"
  let ?d2 = "exec_op plain_crypto default_settings ?q ?d1"
  have first: "cancel_commit demo_env 1 ?u demo_db = (Inr (Some ?b), ?d1)"
    by code_simp
  have facts: "cancel_safe (1, ?u) demo_db" "map b_id (bookings ?d2) = [1, 2]" "holder_of ?d2 2 = Some 4"
    "queue_of ?d2 2 = [2]" "slot_id ?b = 2"
    by code_simp+
  then have "b_id ` set (bookings ?d2) = {1, 2}"
    by (metis list.set(1,2) set_map)
  then have mem: "1 \<in> b_id ` set (bookings ?d2)"
    by simp
  obtain r d' where last: "cancel_promote demo_env 1 (Some ?b) ?d2 = (r, d')"
    by (rule prod.exhaust)
  have "safe_run plain_crypto default_settings [?q] ?d1" "?d2 = fold (exec_op plain_crypto default_settings) [?q] ?d1"
    by simp_all
  from overtaken_cancellation_exact [OF demo_base_inv demo_exclusive facts(1) first this mem demo_generated_ok
      demo_no_faults _ _ last, of 2]
  have "d' = ?d2" "r = Inl (http 409 SLOT_ALREADY_BOOKED_DETAIL)"
    using facts(3-5) by simp_all
  then show ?thesis
    using first last facts(3,4) by blast
qed

section \<open>Interrupted expiries\<close>




end
