(* ===== verification/Lock_Order.thy ===== *)
theory Lock_Order
  imports Tasks Scenario
begin

text \<open>
  The row locks that the writing transactions take on bookings and slots under PostgreSQL, in the order in
  which their statements take them: \<open>with_for_update()\<close> waits, \<open>with_for_update(nowait=True)\<close> fails at
  once, an \<open>UPDATE\<close> or \<open>DELETE\<close> waits, and a lock is kept until the transaction ends. A lock that a transaction has
  is not listed again, and the wait for a unique key (\<open>Concurrent_Booking\<close>) is the last one of its transaction. Several transactions run at the same time; a deadlock is a set of them that wait
  for each other. The interface \<open>ordered_locks\<close> says when there is none.

  The expiry task takes no lock before its flush, which sends the updates. SQLAlchemy documents that a unit of work
  sorts them by the dependencies between tables, a parent before what references it, and by
  primary key within a table; which table comes first is the argument \<open>slots_first\<close>.
\<close>

section \<open>Locks\<close>

datatype row_lock = Booking_Row int | Slot_Row int

text \<open>All bookings come before all slots, and rows are ordered by their ids.\<close>

instantiation row_lock :: linorder
begin

fun less_eq_row_lock :: "row_lock \<Rightarrow> row_lock \<Rightarrow> bool" where
  "less_eq_row_lock (Booking_Row i) (Booking_Row j) = (i \<le> j)"
| "less_eq_row_lock (Slot_Row i) (Slot_Row j) = (i \<le> j)"
| "less_eq_row_lock (Booking_Row i) (Slot_Row j) = True"
| "less_eq_row_lock (Slot_Row i) (Booking_Row j) = False"

definition less_row_lock :: "row_lock \<Rightarrow> row_lock \<Rightarrow> bool" where
  "less_row_lock x y \<longleftrightarrow> x \<le> y \<and> \<not> y \<le> x"

instance
proof
  fix x y z :: row_lock
  show "x < y \<longleftrightarrow> x \<le> y \<and> \<not> y \<le> x"
    by (rule less_row_lock_def)
  show "x \<le> x"
    by (cases x) simp_all
  show "x \<le> y \<Longrightarrow> y \<le> z \<Longrightarrow> x \<le> z"
    by (cases x; cases y; cases z) simp_all
  show "x \<le> y \<Longrightarrow> y \<le> x \<Longrightarrow> x = y"
    by (cases x; cases y) simp_all
  show "x \<le> y \<or> y \<le> x"
    by (cases x; cases y) auto
qed

end

lemma row_lock_less [simp]:
  "Booking_Row i < Booking_Row j \<longleftrightarrow> i < j" "Slot_Row i < Slot_Row j \<longleftrightarrow> i < j"
  "Booking_Row i < Slot_Row j" "\<not> Slot_Row i < Booking_Row j"
  by (auto simp: less_row_lock_def)

datatype lock_request = Wait_For (lock_of: row_lock) | No_Wait (lock_of: row_lock)

section \<open>The transactions of the program\<close>

text \<open>
  \<open>cancel_booking\<close>: the booking, then its slot. \<open>reschedule_booking\<close>: the booking, then both slots in
  the order of their ids, all \<open>NOWAIT\<close>. \<open>create_booking_for_slot\<close>: the slot. \<open>delete_slot_for_me\<close>: the
  slot. \<open>add_client_to_wait_list\<close>: the foreign key of the new row locks the slot. A promotion is
  \<open>create_booking_for_slot\<close> again. \<open>expire_started_slots\<close>: the rows of its flush.
\<close>

definition cancel_locks :: "booking \<Rightarrow> lock_request list" where
  "cancel_locks b = [Wait_For (Booking_Row (b_id b)), Wait_For (Slot_Row (slot_id b))]"

definition move_locks :: "booking \<Rightarrow> int \<Rightarrow> lock_request list" where
  "move_locks b new_slot_id =
     No_Wait (Booking_Row (b_id b)) #
     (if slot_id b = new_slot_id then []
      else map (\<lambda>i. No_Wait (Slot_Row i)) (sort [slot_id b, new_slot_id]))"

definition booking_locks :: "int \<Rightarrow> lock_request list" where
  "booking_locks slot = [No_Wait (Slot_Row slot)]"

definition delete_locks :: "int \<Rightarrow> lock_request list" where
  "delete_locks slot = [Wait_For (Slot_Row slot)]"

definition join_locks :: "int \<Rightarrow> lock_request list" where
  "join_locks slot = [Wait_For (Slot_Row slot)]"

definition expiry_locks :: "bool \<Rightarrow> booking list \<Rightarrow> lock_request list" where
  "expiry_locks slots_first stale =
     (let slot_updates = map (\<lambda>i. Wait_For (Slot_Row i)) (sort (remdups (map slot_id stale)));
          booking_updates = map (\<lambda>i. Wait_For (Booking_Row i)) (sort (remdups (map b_id stale)))
      in if slots_first then slot_updates @ booking_updates else booking_updates @ slot_updates)"

datatype locking_call =
    Locks_Of_Cancel booking
  | Locks_Of_Move booking int
  | Locks_Of_Booking int
  | Locks_Of_Delete int
  | Locks_Of_Join int
  | Locks_Of_Expiry "booking list"

fun call_locks :: "bool \<Rightarrow> locking_call \<Rightarrow> lock_request list" where
  "call_locks slots_first (Locks_Of_Cancel b) = cancel_locks b"
| "call_locks slots_first (Locks_Of_Move b new_slot_id) = move_locks b new_slot_id"
| "call_locks slots_first (Locks_Of_Booking slot) = booking_locks slot"
| "call_locks slots_first (Locks_Of_Delete slot) = delete_locks slot"
| "call_locks slots_first (Locks_Of_Join slot) = join_locks slot"
| "call_locks slots_first (Locks_Of_Expiry stale) = expiry_locks slots_first stale"

lemmas lock_lists = cancel_locks_def move_locks_def booking_locks_def delete_locks_def join_locks_def
  expiry_locks_def

fun is_expiry :: "locking_call \<Rightarrow> bool" where
  "is_expiry (Locks_Of_Expiry stale) = True"
| "is_expiry _ = False"

section \<open>Lock states\<close>

text \<open>A state is the owner of each locked row and what each transaction still has to lock.\<close>

record lock_state =
  owner :: "row_lock \<Rightarrow> nat option"
  todo :: "nat \<Rightarrow> lock_request list"

definition end_transaction :: "nat \<Rightarrow> lock_state \<Rightarrow> lock_state" where
  "end_transaction t s = s\<lparr>owner := (\<lambda>l. if owner s l = Some t then None else owner s l), todo := (todo s)(t := [])\<rparr>"

inductive lock_step :: "lock_state \<Rightarrow> lock_state \<Rightarrow> bool" where
  grant: "todo s t = r # rs \<Longrightarrow> owner s (lock_of r) = None \<Longrightarrow>
    lock_step s (s\<lparr>owner := (owner s)(lock_of r := Some t), todo := (todo s)(t := rs)\<rparr>)"
| refuse: "todo s t = No_Wait l # rs \<Longrightarrow> owner s l = Some t' \<Longrightarrow> t' \<noteq> t \<Longrightarrow>
    lock_step s (end_transaction t s)"
| finish: "todo s t = [] \<Longrightarrow> lock_step s (end_transaction t s)"

definition initial_locks :: "(nat \<Rightarrow> lock_request list) \<Rightarrow> lock_state" where
  "initial_locks programs = \<lparr>owner = (\<lambda>_. None), todo = programs\<rparr>"

text \<open>A transaction waits for another one; in a deadlock each of finitely many waits for one of them.\<close>

definition waits_for :: "lock_state \<Rightarrow> nat \<Rightarrow> nat option" where
  "waits_for s t = (case todo s t of Wait_For l # rs \<Rightarrow> owner s l | _ \<Rightarrow> None)"

definition deadlocked :: "nat list \<Rightarrow> lock_state \<Rightarrow> bool" where
  "deadlocked ts s \<longleftrightarrow> ts \<noteq> [] \<and>
     list_all (\<lambda>t. case waits_for s t of None \<Rightarrow> False | Some t' \<Rightarrow> t' \<in> set ts) ts"

section \<open>Ordered locking\<close>

fun ascending :: "lock_request list \<Rightarrow> bool" where
  "ascending [] = True"
| "ascending (r # rs) =
     (list_all (\<lambda>q. case q of Wait_For l \<Rightarrow> lock_of r < l | No_Wait l \<Rightarrow> True) rs \<and> ascending rs)"

definition locks_ordered :: "lock_state \<Rightarrow> bool" where
  "locks_ordered s \<longleftrightarrow>
     (\<forall>t. ascending (todo s t) \<and> (\<forall>l l'. owner s l = Some t \<longrightarrow> Wait_For l' \<in> set (todo s t) \<longrightarrow> l < l'))"

lemma locks_orderedD: "locks_ordered s \<Longrightarrow> owner s l = Some t \<Longrightarrow> Wait_For l' \<in> set (todo s t) \<Longrightarrow> l < l'"
  by (auto simp: locks_ordered_def)

lemma end_transaction_ordered: "locks_ordered s \<Longrightarrow> locks_ordered (end_transaction t s)"
  by (auto simp: locks_ordered_def end_transaction_def)

lemma lock_step_ordered:
  assumes "lock_step s s'" and "locks_ordered s"
  shows "locks_ordered s'"
  using assms
proof cases
  case (grant t r rs)
  have rs: "ascending (r # rs)"
    using assms(2) grant(2) by (metis locks_ordered_def)
  then have "lock_of r < l" if "Wait_For l \<in> set rs" for l
    using that by (auto simp: list_all_iff)
  then show ?thesis
    using assms(2) rs grant by (auto simp: locks_ordered_def)
qed (use assms(2) in \<open>simp_all add: end_transaction_ordered\<close>)

lemma ordered_no_deadlock:
  assumes "locks_ordered s"
  shows "\<not> deadlocked ts s"
proof
  assume dead: "deadlocked ts s"
  have waiting: "\<exists>t' \<in> set ts. waits_for s t = Some t'" if "t \<in> set ts" for t
  proof -
    have "case waits_for s t of None \<Rightarrow> False | Some t' \<Rightarrow> t' \<in> set ts"
      using dead that by (simp add: deadlocked_def list_all_iff)
    then show ?thesis
      by (cases "waits_for s t") simp_all
  qed
  define wanted where "wanted t = lock_of (hd (todo s t))" for t
  have higher: "\<exists>t' \<in> set ts. wanted t < wanted t'" if t: "t \<in> set ts" for t
  proof -
    obtain t' where t': "waits_for s t = Some t'" "t' \<in> set ts"
      using waiting [OF t] by blast
    then obtain l rs where l: "todo s t = Wait_For l # rs" "owner s l = Some t'"
      by (auto simp: waits_for_def split: list.splits lock_request.splits)
    obtain u where "waits_for s t' = Some u"
      using waiting [OF t'(2)] by blast
    then obtain l' rs' where "todo s t' = Wait_For l' # rs'"
      by (auto simp: waits_for_def split: list.splits lock_request.splits)
    then have "wanted t < wanted t'"
      using locks_orderedD [OF assms l(2), of l'] l(1) by (simp add: wanted_def)
    then show ?thesis
      using t'(2) by blast
  qed
  have "wanted ` set ts \<noteq> {}" "finite (wanted ` set ts)"
    using dead by (auto simp: deadlocked_def)
  then have "Max (wanted ` set ts) \<in> wanted ` set ts"
    by (simp add: Max_in)
  then obtain t where t: "t \<in> set ts" "wanted t = Max (wanted ` set ts)"
    by auto
  then obtain t' where "t' \<in> set ts" "wanted t < wanted t'"
    using higher by blast
  then show False
    using t(2) by (metis List.finite_set Max_ge finite_imageI image_eqI not_less)
qed

text \<open>Transactions that never wait for a row below one they have locked do not deadlock.\<close>

locale ordered_locks =
  fixes programs :: "nat \<Rightarrow> lock_request list"
  assumes programs_ascending: "ascending (programs t)"
begin

lemma reachable_ordered: "lock_step\<^sup>*\<^sup>* (initial_locks programs) s \<Longrightarrow> locks_ordered s"
proof (induction rule: rtranclp_induct)
  case base
  then show ?case
    by (simp add: locks_ordered_def initial_locks_def programs_ascending)
next
  case (step s1 s2)
  then show ?case
    using lock_step_ordered by blast
qed

lemma no_deadlock: "lock_step\<^sup>*\<^sup>* (initial_locks programs) s \<Longrightarrow> \<not> deadlocked ts s"
  using reachable_ordered ordered_no_deadlock by blast

end

section \<open>The order of the program\<close>

definition lock_programs :: "bool \<Rightarrow> locking_call list \<Rightarrow> nat \<Rightarrow> lock_request list" where
  "lock_programs slots_first calls t = (if t < length calls then call_locks slots_first (calls ! t) else [])"

lemma ascending_append:
  "ascending (xs @ ys) \<longleftrightarrow> ascending xs \<and> ascending ys \<and>
     list_all (\<lambda>r. list_all (\<lambda>q. case q of Wait_For l \<Rightarrow> lock_of r < l | No_Wait l \<Rightarrow> True) ys) xs"
  by (induction xs) auto

lemma ascending_waits:
  assumes "sorted_wrt (<) js" and "\<And>i j. i < j \<Longrightarrow> f i < f j"
  shows "ascending (map (\<lambda>i. Wait_For (f i)) js)"
  using assms by (induction js) (auto simp: list_all_iff)

lemma strict_sort: "sorted_wrt (<) (sort (remdups xs))" for xs :: "int list"
  by (simp add: strict_sorted_iff)

text \<open>Every call of a client is ordered; the expiry task is, if its updates begin with the bookings.\<close>

lemma call_locks_ascending:
  assumes "\<not> is_expiry q \<or> \<not> slots_first"
  shows "ascending (call_locks slots_first q)"
proof (cases q)
  case (Locks_Of_Expiry stale)
  then show ?thesis
    using assms ascending_waits [OF strict_sort, of Slot_Row] ascending_waits [OF strict_sort, of Booking_Row]
    by (simp add: ascending_append list_all_iff expiry_locks_def)
qed (use assms in \<open>auto simp: lock_lists\<close>)



interpretation bookings_first: ordered_locks "lock_programs False calls"
  by unfold_locales (simp add: lock_programs_def call_locks_ascending)

section \<open>Deadlocks\<close>


text \<open>With the expiry task among them there is none either, if its flush updates bookings before slots.\<close>

lemma bookings_first_never_deadlocks:
  "lock_step\<^sup>*\<^sup>* (initial_locks (lock_programs False calls)) s \<Longrightarrow> \<not> deadlocked ts s"
  by (rule bookings_first.no_deadlock)

text \<open>The expiry task can deadlock with a cancellation: when its flush updates slots before bookings, a
  cancellation of a booking that expires can lock the booking while the task has locked the slot, and
  each waits for the other.\<close>

lemma expiry_deadlocks_with_cancellation:
  shows "\<exists>s. lock_step\<^sup>*\<^sup>* (initial_locks (lock_programs True [Locks_Of_Cancel b, Locks_Of_Expiry [b]])) s \<and>
    deadlocked [0, 1] s"
proof -
  let ?s0 = "initial_locks (lock_programs True [Locks_Of_Cancel b, Locks_Of_Expiry [b]])"
  let ?s1 = "?s0\<lparr>owner := (owner ?s0)(lock_of (Wait_For (Booking_Row (b_id b))) := Some 0),
    todo := (todo ?s0)(0 := [Wait_For (Slot_Row (slot_id b))])\<rparr>"
  let ?s2 = "?s1\<lparr>owner := (owner ?s1)(lock_of (Wait_For (Slot_Row (slot_id b))) := Some 1),
    todo := (todo ?s1)(1 := [Wait_For (Booking_Row (b_id b))])\<rparr>"
  have "lock_step ?s0 ?s1"
    by (rule lock_step.grant) (simp_all add: initial_locks_def lock_programs_def lock_lists)
  moreover have "lock_step ?s1 ?s2"
    by (rule lock_step.grant) (simp_all add: initial_locks_def lock_programs_def lock_lists)
  moreover have "deadlocked [0, 1] ?s2"
    by (simp add: deadlocked_def waits_for_def initial_locks_def)
  ultimately show ?thesis
    by (meson converse_rtranclp_into_rtranclp r_into_rtranclp)
qed


end
