(* ===== verification/Commits.thy ===== *)
theory Commits
  imports Interrupted_Promotion Stale_Rows
begin

text \<open>
  The program at the granularity of its transactions. Cancelling a booking (\<^verbatim>\<open>api/v1/bookings.py\<close>), a
  promotion (\<^verbatim>\<open>services/wait_list_service.py\<close>) and a run of the expiry task (\<^verbatim>\<open>tasks/expirations.py\<close>) commit
  more than once; moves and the requests that open and delete slots load rows before they write. Each of these steps
  sees what the others have committed. A thread is such a request or
  task between two of its commits; a system is a list of threads on one database, of which one takes
  a step at a time. The booking of a slot is one step: its statements are serialised by the
  lock on the slot (\<open>Concurrent_Booking\<close>).
\<close>

section \<open>Threads\<close>

text \<open>
  The slot of a promotion is the slot the cancellation has freed, or what the row of an expired booking
  says at the time: the task reads \<open>booking.slot_id\<close> again, since each commit expires the loaded objects.
\<close>

datatype freed = Freed_Slot int | Expired_Booking int

type_synonym promotions = "(env \<times> freed) list"

text \<open>What a thread does when its promotions are over, and what came of it.\<close>

datatype goal = Show_Booking int | Count_Bookings int

datatype outcome =
    Cancel_Outcome "booking_response res"
  | Expiry_Outcome "int res"
  | Move_Outcome "booking res"
  | Other_Outcome

datatype thread =
    Single operation
  | Cancelling env int user
  | Expiring env "int \<Rightarrow> env" "instant option"
  | Writing_Expired "int \<Rightarrow> env" instant "booking list"
  | Promoting goal promotions
  | Taking goal env int wait_list_entry promotions
  | Dropping goal wait_list_entry promotions
  | Loading_Move int int user
  | Moving int int "booking \<times> time_slot"
  | Checking_Slot env slot_create_request user
  | Adding_Slot env slot_create_request user "bool \<times> specialist_profile"
  | Checking_Delete int user
  | Deleting int
  | Over outcome

fun reached :: "goal \<Rightarrow> db \<Rightarrow> outcome" where
  "reached (Show_Booking i) d = Cancel_Outcome
     (case find_by b_id i (bookings d) of None \<Rightarrow> Inl InvalidRequestError | Some b \<Rightarrow> Inr (booking_view b))"
| "reached (Count_Bookings n) d = Expiry_Outcome (Inr n)"

fun missed :: "goal \<Rightarrow> py_exc \<Rightarrow> outcome" where
  "missed (Show_Booking i) err = Cancel_Outcome (Inl err)"
| "missed (Count_Bookings n) err = Expiry_Outcome (Inl err)"

fun freed_slot :: "freed \<Rightarrow> db \<Rightarrow> int option" where
  "freed_slot (Freed_Slot s) d = Some s"
| "freed_slot (Expired_Booking i) d = map_option slot_id (find_by b_id i (bookings d))"

definition expired_promotions :: "(int \<Rightarrow> env) \<Rightarrow> booking list \<Rightarrow> promotions" where
  "expired_promotions ep stale = map (\<lambda>b. (ep (b_id b), Expired_Booking (b_id b))) stale"

text \<open>
  What SQLAlchemy does with the rows of others. \<open>gone_row\<close>: of a deletion that matches no row it documents a
  warning; an object whose row is gone may also raise when it is refreshed, and this is the exception, if
  any. \<open>populate_existing\<close>: whether a query overwrites an object that is loaded already (\<open>Stale_Rows\<close>).
\<close>

record orm =
  gone_row :: "py_exc option"
  populate_existing :: bool

text \<open>\<open>expire_started_slots\<close>: the query, and the loop with its commit.\<close>

fun expire_query :: "settings \<Rightarrow> env \<Rightarrow> (int \<Rightarrow> env) \<Rightarrow> instant option \<Rightarrow> db \<Rightarrow> thread \<times> db" where
  "expire_query cfg e ep arg d =
     (let t = (case arg of None \<Rightarrow> now e | Some t \<Rightarrow> t);
          stale = expire_read cfg t d
      in (if stale = [] then Over (Expiry_Outcome (Inr 0)) else Writing_Expired ep t stale, d))"

fun expire_commit :: "(int \<Rightarrow> env) \<Rightarrow> instant \<Rightarrow> booking list \<Rightarrow> db \<Rightarrow> thread \<times> db" where
  "expire_commit ep t stale d =
     (case commit (modify (expire_write t stale) (open_session d)) of
        (Inl err, s) \<Rightarrow> (Over (Expiry_Outcome (Inl err)), committed s)
      | (Inr _, s) \<Rightarrow> (Promoting (Count_Bookings (int (length stale))) (expired_promotions ep stale), committed s))"

text \<open>
  \<open>promote_next_wait_list_entry\<close>: the query for the head of the queue, its booking (one commit), and the deletion of
  the entry (another commit).
\<close>

fun promote_query :: "goal \<Rightarrow> env \<Rightarrow> freed \<Rightarrow> promotions \<Rightarrow> db \<Rightarrow> thread \<times> db" where
  "promote_query g e f ps d =
     (case freed_slot f d of
        None \<Rightarrow> (Over (missed g InvalidRequestError), d)
      | Some s \<Rightarrow>
        (case slot_queue s d of
           [] \<Rightarrow> (Promoting g ps, d)
         | entry # _ \<Rightarrow> (Taking g e s entry ps, d)))"

fun promote_book :: "goal \<Rightarrow> env \<Rightarrow> int \<Rightarrow> wait_list_entry \<Rightarrow> promotions \<Rightarrow> db \<Rightarrow> thread \<times> db" where
  "promote_book g e s entry ps d =
     (case serve_create e (s, w_client_id entry, None) d of
        (Inl err, d) \<Rightarrow> (Over (missed g err), d)
      | (Inr _, d) \<Rightarrow> (Dropping g entry ps, d))"

fun promote_delete :: "orm \<Rightarrow> goal \<Rightarrow> wait_list_entry \<Rightarrow> promotions \<Rightarrow> db \<Rightarrow> thread \<times> db" where
  "promote_delete orm g entry ps d =
     (if w_id entry \<in> w_id ` set (wait_list_entries d) then (Promoting g ps, remove_entry (w_id entry) d)
      else case gone_row orm of
             None \<Rightarrow> (Promoting g ps, d)
           | Some err \<Rightarrow> (Over (missed g err), d))"

text \<open>
  One step, up to the next commit or the next query that reads what others may have committed. Moving a
  booking, opening a slot and deleting one load and check first, and write at their commit.
\<close>

fun thread_step :: "orm \<Rightarrow> 'tok crypto \<Rightarrow> settings \<Rightarrow> thread \<Rightarrow> db \<Rightarrow> thread \<times> db" where
  "thread_step orm c cfg (Single q) d = (Over Other_Outcome, exec_op c cfg q d)"
| "thread_step orm c cfg (Cancelling e i u) d =
     (case cancel_commit e i u d of
        (Inl err, d) \<Rightarrow> (Over (Cancel_Outcome (Inl err)), d)
      | (Inr None, d) \<Rightarrow> (Promoting (Show_Booking i) [], d)
      | (Inr (Some b), d) \<Rightarrow> (Promoting (Show_Booking i) [(e, Freed_Slot (slot_id b))], d))"
| "thread_step orm c cfg (Expiring e ep arg) d = expire_query cfg e ep arg d"
| "thread_step orm c cfg (Writing_Expired ep t stale) d = expire_commit ep t stale d"
| "thread_step orm c cfg (Promoting g []) d = (Over (reached g d), d)"
| "thread_step orm c cfg (Promoting g ((e, f) # ps)) d = promote_query g e f ps d"
| "thread_step orm c cfg (Taking g e s entry ps) d = promote_book g e s entry ps d"
| "thread_step orm c cfg (Dropping g entry ps) d = promote_delete orm g entry ps d"
| "thread_step orm c cfg (Loading_Move i n u) d =
     (case move_look i u d of
        None \<Rightarrow> (Over Other_Outcome, d)
      | Some loaded \<Rightarrow> (Moving i n loaded, d))"
| "thread_step orm c cfg (Moving i n loaded) d =
     (case move_finish (populate_existing orm) i n loaded d of (r, d) \<Rightarrow> (Over (Move_Outcome r), d))"
| "thread_step orm c cfg (Checking_Slot e payload u) d =
     (case slot_look (e, payload, u) d of
        None \<Rightarrow> (Over Other_Outcome, d)
      | Some v \<Rightarrow> (Adding_Slot e payload u v, d))"
| "thread_step orm c cfg (Adding_Slot e payload u v) d = (Over Other_Outcome, slot_finish (e, payload, u) v d)"
| "thread_step orm c cfg (Checking_Delete slot u) d =
     (case delete_look (slot, u) d of
        None \<Rightarrow> (Over Other_Outcome, d)
      | Some i \<Rightarrow> (Deleting i, d))"
| "thread_step orm c cfg (Deleting i) d = (Over Other_Outcome, delete_finish i d)"
| "thread_step orm c cfg (Over r) d = (Over r, d)"

fun is_over :: "thread \<Rightarrow> bool" where
  "is_over (Over r) = True"
| "is_over _ = False"

lemma is_over_iff: "is_over t \<longleftrightarrow> (\<exists>r. t = Over r)"
  by (cases t) simp_all

fun outcome_of :: "thread \<Rightarrow> outcome option" where
  "outcome_of (Over r) = Some r"
| "outcome_of _ = None"

section \<open>Systems\<close>

type_synonym threads = "thread list \<times> db"

inductive commit_step :: "orm \<Rightarrow> 'tok crypto \<Rightarrow> settings \<Rightarrow> threads \<Rightarrow> threads \<Rightarrow> bool"
  for orm c cfg where
  "i < length ts \<Longrightarrow> \<not> is_over (ts ! i) \<Longrightarrow> thread_step orm c cfg (ts ! i) d = (t, d') \<Longrightarrow>
     commit_step orm c cfg (ts, d) (ts[i := t], d')"

inductive_cases commit_stepE: "commit_step orm c cfg (ts, d) s'"

text \<open>
  A step is safe when it cancels no expired booking of a slot that is held again, when the bookings that
  the expiry task is about to write are still confirmed on their slots, when the rows of a move are as they
  were loaded or queried again, and when the interval of a new slot is still free.
\<close>

fun thread_safe :: "orm \<Rightarrow> thread \<Rightarrow> db \<Rightarrow> bool" where
  "thread_safe orm (Single q) d = op_safe q d"
| "thread_safe orm (Cancelling e i u) d = cancel_safe (i, u) d"
| "thread_safe orm (Writing_Expired ep t stale) d = (distinct (map b_id stale) \<and>
     list_all (\<lambda>b. b \<in> set (bookings d) \<and> status b = CONFIRMED) stale)"
| "thread_safe orm (Moving i n loaded) d = move_fresh (populate_existing orm) i loaded d"
| "thread_safe orm (Adding_Slot e payload u v) d = slot_fresh (e, payload, u) v d"
| "thread_safe orm _ d = True"

inductive safe_step :: "orm \<Rightarrow> 'tok crypto \<Rightarrow> settings \<Rightarrow> threads \<Rightarrow> threads \<Rightarrow> bool"
  for orm c cfg where
  "i < length ts \<Longrightarrow> \<not> is_over (ts ! i) \<Longrightarrow> thread_safe orm (ts ! i) d \<Longrightarrow>
     thread_step orm c cfg (ts ! i) d = (t, d') \<Longrightarrow> safe_step orm c cfg (ts, d) (ts[i := t], d')"

inductive_cases safe_stepE: "safe_step orm c cfg (ts, d) s'"

lemma safe_step_commits: "safe_step orm c cfg s s' \<Longrightarrow> commit_step orm c cfg s s'"
  by (auto elim!: safe_step.cases intro: commit_step.intros)

section \<open>Steps keep the invariants\<close>

lemma expire_fresh_safe: "expire_fresh (cfg, t) stale d \<longleftrightarrow> thread_safe orm (Writing_Expired ep t stale) d"
  by (auto simp: expire_fresh_def list_all_iff)

lemma create_step_keeps:
  assumes "base_inv d" and "serve_create e a d = (r, d')"
  shows "base_inv d' \<and> (exclusive d \<longrightarrow> exclusive d')"
  using create.keeps_base [OF assms(1), of e a] create.keeps_exclusive [OF assms(1), where e = e and a = a] assms(2)
  by simp

lemma thread_step_keeps:
  assumes "base_inv d" and "exclusive d" and "thread_safe orm t d" and "thread_step orm c cfg t d = (t', d')"
  shows "base_inv d' \<and> exclusive d'"
proof (cases t)
  case (Single q)
  then show ?thesis
    using assms exec_op_base exec_op_exclusive by auto
next
  case (Cancelling e i u)
  then show ?thesis
    using assms cancel_commit_safe [of d i u e "fst (cancel_commit e i u d)" "snd (cancel_commit e i u d)"]
    by (auto split: prod.splits sum.splits option.splits)
next
  case (Writing_Expired ep u stale)
  then have "base_inv (expire_write u stale d) \<and> exclusive (expire_write u stale d)"
    using assms late_expire.late [of d "(cfg, u)" stale] expire_fresh_safe [of cfg u stale d orm ep] by simp
  then show ?thesis
    using assms Writing_Expired by (auto simp: commit_def modify_def split: if_splits)
next
  case (Promoting g ps)
  then show ?thesis
    using assms by (cases ps) (auto split: option.splits list.splits)
next
  case (Taking g e s entry ps)
  then show ?thesis
    using assms create_step_keeps [of d e "(s, w_client_id entry, None)"]
    by (auto split: prod.splits sum.splits)
next
  case (Dropping g entry ps)
  then show ?thesis
    using assms base_inv_remove_entry by (auto split: if_splits option.splits)
next
  case (Moving i n loaded)
  then show ?thesis
    using assms late_move.late [of d "populate_existing orm" "(i, n, undefined)" loaded] by (auto split: prod.splits)
next
  case (Adding_Slot e payload u v)
  then show ?thesis
    using assms late_slot.late [of d "(e, payload, u)" v] by auto
next
  case (Deleting i)
  then show ?thesis
    using assms late_delete.late [of d i] by auto
qed (use assms in \<open>auto simp: Let_def split: if_splits option.splits\<close>)

section \<open>A thread on its own\<close>

definition own_step :: "orm \<Rightarrow> 'tok crypto \<Rightarrow> settings \<Rightarrow> thread \<times> db \<Rightarrow> thread \<times> db" where
  "own_step orm c cfg s = (case s of (t, d) \<Rightarrow> thread_step orm c cfg t d)"

definition leads_to :: "('s \<Rightarrow> 's) \<Rightarrow> 's \<Rightarrow> 's \<Rightarrow> bool" where
  "leads_to f x y \<longleftrightarrow> (\<exists>n. (f ^^ n) x = y)"

lemma leads_to_refl [simp]: "leads_to f x x"
  by (auto simp: leads_to_def intro: exI [of _ 0])

lemma leads_to_first: "leads_to f (f x) y \<Longrightarrow> leads_to f x y"
  unfolding leads_to_def by (metis comp_apply funpow_Suc_right)

lemma leads_to_trans: "leads_to f x y \<Longrightarrow> leads_to f y z \<Longrightarrow> leads_to f x z"
proof -
  assume "leads_to f x y" "leads_to f y z"
  then obtain m n where "(f ^^ m) x = y" "(f ^^ n) y = z"
    by (auto simp: leads_to_def)
  then have "(f ^^ (n + m)) x = z"
    by (simp add: funpow_add)
  then show ?thesis
    by (auto simp: leads_to_def)
qed

lemma leads_to_step:
  "thread_step orm c cfg t d = s \<Longrightarrow> leads_to (own_step orm c cfg) s s' \<Longrightarrow> leads_to (own_step orm c cfg) (t, d) s'"
  by (rule leads_to_first) (simp add: own_step_def)

text \<open>The steps of one promotion, undisturbed, are the promotion of the service.\<close>

lemma promotion_alone:
  assumes "schema_ok d" and "freed_slot f d = Some s" and "serve_promote e s d = (r, d')"
  shows "leads_to (own_step orm c cfg) (Promoting g ((e, f) # ps), d)
    (case r of Inl err \<Rightarrow> Over (missed g err) | Inr _ \<Rightarrow> Promoting g ps, d')"
proof (cases "slot_queue s d")
  case Nil
  then have "r = Inr None" "d' = d"
    using assms(3) by (auto simp: serve_promote_def get_db_def promote_next_wait_list_entry_def)
  then show ?thesis
    using leads_to_step [of orm c cfg "Promoting g ((e, f) # ps)" d, OF _ leads_to_refl] assms(2) Nil by simp
next
  case (Cons w ws)
  obtain r1 s1 where call: "create_booking_for_slot e s (w_client_id w) None (open_session d) = (r1, s1)"
    by (rule prod.exhaust)
  then have created: "serve_create e (s, w_client_id w, None) d = (r1, committed s1)"
    by (simp add: serve_create_def get_db_def)
  have look: "leads_to (own_step orm c cfg) (Taking g e s w ps, d) y \<Longrightarrow>
      leads_to (own_step orm c cfg) (Promoting g ((e, f) # ps), d) y" for y
    using assms(2) Cons leads_to_step [of orm c cfg "Promoting g ((e, f) # ps)" d] by simp
  note shape = create_booking_shape [OF assms(1) call]
  show ?thesis
  proof (cases r1)
    case (Inl err)
    then have "r = Inl err" "d' = committed s1"
      using assms(3) Cons call by (auto simp: serve_promote_def get_db_def promote_next_wait_list_entry_def)
    then show ?thesis
      using created Inl look leads_to_step [of orm c cfg "Taking g e s w ps" d, OF _ leads_to_refl] by simp
  next
    case (Inr b)
    then have c1: "claims e s (w_client_id w) None d (Inr b) (committed s1)" and s1: "s1 = open_session (committed s1)"
      using shape by (auto simp: replay_def)
    have ok: "schema_ok (remove_entry (w_id w) (committed s1))"
      using c1 by (auto simp: claims_def intro: schema_ok_remove_entry)
    have w: "w \<in> set (wait_list_entries (committed s1))"
      using c1 slot_queue_head(1) [OF Cons] by (auto simp: claims_def booked_db_def)
    have "current s1 = committed s1"
      using s1 by (metis session_simps(1,2))
    then have "commit (modify (remove_entry (w_id w)) s1) = (Inr (), open_session (remove_entry (w_id w) (committed s1)))"
      using ok by (simp add: commit_ok)
    then have "promote_next_wait_list_entry e s (open_session d)
        = (Inr (Some b), open_session (remove_entry (w_id w) (committed s1)))"
      using Cons call Inr by (simp add: promote_next_wait_list_entry_def)
    then have "r = Inr (Some b)" "d' = remove_entry (w_id w) (committed s1)"
      using assms(3) by (simp_all add: serve_promote_def get_db_def)
    then have "leads_to (own_step orm c cfg) (Dropping g w ps, committed s1) (Promoting g ps, d')"
      using w leads_to_step [of orm c cfg "Dropping g w ps" "committed s1", OF _ leads_to_refl] by simp
    then have "leads_to (own_step orm c cfg) (Taking g e s w ps, d) (Promoting g ps, d')"
      using created Inr leads_to_step [of orm c cfg "Taking g e s w ps" d] by simp
    then show ?thesis
      using look \<open>r = Inr (Some b)\<close> by simp
  qed
qed

end
