(* ===== verification/Commit_Properties.thy ===== *)
theory Commit_Properties
  imports Commits
begin

text \<open>
  What holds at the granularity of transactions: the invariants in every interleaving of safe steps,
  the atomic operations of \<open>System\<close> as threads that nobody interrupts, the end of every run, and what a wait list
  can lose between the commits of a promotion.
\<close>

section \<open>Interleavings\<close>

text \<open>C2: Transactions interleave safely: whatever requests and runs of the expiry task are under way, in whatever
  order their commits and queries come, the constraints hold and no slot is booked twice, as long as
  no expired booking of a held slot is cancelled, the expiry task writes only bookings that are still
  confirmed, moves work on fresh rows and new slots on free intervals. A slot that a promotion has looked up may
  be taken, a client who waits may leave, and a process may stop between any two commits.\<close>

theorem interleaved_commits_keep_bookings_exclusive:
  assumes "(safe_step orm c cfg)\<^sup>*\<^sup>* (ts, d) (ts', d')" and "base_inv d" and "exclusive d"
  shows "base_inv d' \<and> exclusive d'"
  using assms(1)
proof (induction rule: rtranclp_induct2)
  case refl
  then show ?case
    using assms(2,3) by simp
next
  case (step ts1 d1 ts2 d2)
  from step.hyps(2) show ?case
    by (rule safe_stepE) (use step.IH thread_step_keeps in blast)
qed

definition warning_orm :: orm where
  "warning_orm = \<lparr>gone_row = None, populate_existing = True\<rparr>"

text \<open>A schedule names the thread that takes each step.\<close>

fun run_threads :: "orm \<Rightarrow> 'tok crypto \<Rightarrow> settings \<Rightarrow> nat list \<Rightarrow> threads \<Rightarrow> threads option" where
  "run_threads orm c cfg [] s = Some s"
| "run_threads orm c cfg (i # sch) (ts, d) =
     (if i < length ts \<and> \<not> is_over (ts ! i) \<and> thread_safe orm (ts ! i) d
      then (case thread_step orm c cfg (ts ! i) d of (t, d) \<Rightarrow> run_threads orm c cfg sch (ts[i := t], d))
      else None)"

lemma run_threads_safe: "run_threads orm c cfg sch s = Some s' \<Longrightarrow> (safe_step orm c cfg)\<^sup>*\<^sup>* s s'"
proof (induction sch arbitrary: s)
  case Nil
  then show ?case by simp
next
  case (Cons i sch)
  obtain ts d where s: "s = (ts, d)"
    by (rule prod.exhaust)
  then show ?case
    using Cons by (auto split: if_splits prod.splits intro: converse_rtranclp_into_rtranclp safe_step.intros)
qed

text \<open>
  The first client cancels; before the promotion takes the slot for the second client, who waits for it,
  the admin books it. Every step is safe.
\<close>

theorem interleaved_commits_keep_bookings_exclusive_witness:
  "\<exists>ts' d'. run_threads warning_orm plain_crypto default_settings [0, 0, 1, 0]
      ([Cancelling demo_env 1 (demo_user 1 ''a@x'' CLIENT), Single (Op_Book demo_env 2 None (demo_user 4 ''r@x'' ADMIN))],
       demo_db) = Some (ts', d') \<and>
     map outcome_of ts' = [Some (Cancel_Outcome (Inl (http 409 SLOT_ALREADY_BOOKED_DETAIL))), Some Other_Outcome] \<and>
     holder_of d' 2 = Some 4 \<and> queue_of d' 2 = [2] \<and> exclusive d'"
proof -
  let ?s = "([Cancelling demo_env 1 (demo_user 1 ''a@x'' CLIENT), Single (Op_Book demo_env 2 None (demo_user 4 ''r@x'' ADMIN))],
       demo_db)"
  have run: "map_option (\<lambda>(ts, d). (map outcome_of ts, holder_of d 2, queue_of d 2))
      (run_threads warning_orm plain_crypto default_settings [0, 0, 1, 0] ?s) =
    Some ([Some (Cancel_Outcome (Inl (http 409 SLOT_ALREADY_BOOKED_DETAIL))), Some Other_Outcome], Some 4, [2])"
    by code_simp
  then obtain ts' d' where s': "run_threads warning_orm plain_crypto default_settings [0, 0, 1, 0] ?s = Some (ts', d')"
    by (auto simp only: map_option_eq_Some split: prod.splits)
  then show ?thesis
    using run interleaved_commits_keep_bookings_exclusive [OF run_threads_safe [OF s'] demo_base_inv demo_exclusive]
    by simp
qed

section \<open>Threads alone\<close>










section \<open>Every run ends\<close>








section \<open>Two runs of the expiry task\<close>

text \<open>
  Steps that are not safe: two runs of the task read the same stale booking. The first one expires it and passes the
  slot to the client who waits; then the second one expires it again and marks the held slot free.
\<close>

lemma overlapping_expiries_free_held_slot:
  "(let run = fst (expire_query default_settings demo_env (\<lambda>_. demo_env) None demo_db);
        d1 = snd ((own_step warning_orm plain_crypto default_settings ^^ 5) (run, demo_db));
        d2 = snd (thread_step warning_orm plain_crypto default_settings run d1)
    in (holder_of d1 2, map is_booked (time_slots d1), holder_of d2 2, map is_booked (time_slots d2)))
   = (Some 2, [False, True, False], Some 2, [False, False, False])"
  by code_simp

section \<open>Between the two commits of a promotion\<close>

lemma create_free:
  assumes "base_inv d" and "exclusive d" and "generated_ok e" and "no_faults e" and "holder_of d s = None"
    and "s \<noteq> 0" and "s \<in> ts_id ` set (time_slots d)" and "client \<in> u_id ` set (users d)"
  shows "\<exists>d'. serve_create e (s, client, None) d = (Inr (new_booking e s client None d), d') \<and>
    claims e s client None d (Inr (new_booking e s client None d)) d'"
  using create_ref_free [OF assms(1-3,5-8)] get_db_create [OF base_inv_schema [OF assms(1)] assms(3,4,8), of None s]
  by (auto simp: serve_create_def)

lemma leave_effect:
  assumes "schema_ok d" and "serve_leave e (i, u) d = (Inr (), d')"
  shows "d' = remove_entry i d"
  using assms
  by (auto simp: serve_leave_def get_db_def leave_wait_list_def commit_def Let_def dest: find_by_SomeD
      split: option.splits if_splits)

text \<open>C11: A client who leaves the wait list of a slot between the query of a promotion and its booking is told that
  the entry is gone, and gets the slot all the same; so does a promotion that ends with a server error when the
  deletion of the row that is gone raises. The others keep waiting.\<close>

theorem departed_client_is_booked:
  assumes "base_inv d" and "exclusive d" and "generated_ok e" and "no_faults e"
    and "slot_queue s d = w # ws" and "holder_of d s = None" and "s \<noteq> 0"
    and "serve_leave e1 (w_id w, u) d = (Inr (), d1)"
  shows "\<exists>d2. thread_step orm c cfg (Promoting g ((e, Freed_Slot s) # ps)) d = (Taking g e s w ps, d) \<and>
    queue_of d1 s = map w_client_id ws \<and>
    thread_step orm c cfg (Taking g e s w ps) d1 = (Dropping g w ps, d2) \<and>
    holder_of d2 s = Some (w_client_id w) \<and> queue_of d2 s = map w_client_id ws \<and>
    thread_step orm c cfg (Dropping g w ps) d2
      = (case gone_row orm of None \<Rightarrow> Promoting g ps | Some err \<Rightarrow> Over (missed g err), d2)"
proof -
  note ok = base_inv_schema [OF assms(1)]
  have d1: "d1 = remove_entry (w_id w) d"
    using leave_effect [OF ok assms(8)] .
  have inv: "base_inv d1" "exclusive d1" "holder_of d1 s = None"
    using assms(1,2,6) base_inv_remove_entry by (simp_all add: d1)
  have mem: "s \<in> ts_id ` set (time_slots d1)" "w_client_id w \<in> u_id ` set (users d1)"
    using slot_queue_head(1,2) [OF assms(5)] schema_ok_references(3,4) [OF ok] unfolding d1 by auto
  have queue: "queue_of d1 s = map w_client_id ws"
    using queue_of_pop [OF ok assms(5)] by (simp add: d1)
  obtain d2 where d2: "serve_create e (s, w_client_id w, None) d1
      = (Inr (new_booking e s (w_client_id w) None d1), d2)"
    "claims e s (w_client_id w) None d1 (Inr (new_booking e s (w_client_id w) None d1)) d2"
    using create_free [OF inv(1,2) assms(3,4) inv(3) assms(7) mem] by blast
  have "wait_list_entries d2 = delete_by w_id (w_id w) (wait_list_entries d)"
    using d2(2) by (simp add: claims_def booked_db_def d1)
  then have "w_id w \<notin> w_id ` set (wait_list_entries d2)"
    by (auto simp: set_delete_by)
  then show ?thesis
    using assms(5) d2(1) queue claims_holder [OF inv(2) d2(2)] by (cases "gone_row orm") simp_all
qed

text \<open>The scenario after its first client has cancelled: slot 2 is free, and the second client waits for it.\<close>

definition demo_freed :: db where
  "demo_freed = release (cancel 1000) (demo_booking 1 2 1 CONFIRMED) demo_db"

lemma demo_freed_facts:
  "base_inv demo_freed" "exclusive demo_freed"
  "slot_queue 2 demo_freed = [\<lparr>w_id = 1, w_slot_id = 2, w_client_id = 2, w_created_at = 1\<rparr>]"
  "holder_of demo_freed 2 = None"
proof -
  have b: "demo_booking 1 2 1 CONFIRMED \<in> set (bookings demo_db)" "status (demo_booking 1 2 1 CONFIRMED) = CONFIRMED"
    by (simp_all add: demo_defs)
  show "base_inv demo_freed" "exclusive demo_freed"
    using release_base [OF demo_base_inv closing_cancel b(1)] b(2)
      release_exclusive [OF demo_base_inv demo_exclusive closing_cancel b(1)] by (simp_all add: demo_freed_def)
qed code_simp+

theorem departed_client_is_booked_witness:
  "\<exists>d1 d2. serve_leave demo_env (1, demo_user 2 ''b@x'' CLIENT) demo_freed = (Inr (), d1) \<and> queue_of d1 2 = [] \<and>
     thread_step warning_orm plain_crypto default_settings (Taking (Show_Booking 1) demo_env 2
       \<lparr>w_id = 1, w_slot_id = 2, w_client_id = 2, w_created_at = 1\<rparr> []) d1
     = (Dropping (Show_Booking 1) \<lparr>w_id = 1, w_slot_id = 2, w_client_id = 2, w_created_at = 1\<rparr> [], d2) \<and>
     holder_of d2 2 = Some 2"
proof -
  have "fst (serve_leave demo_env (1, demo_user 2 ''b@x'' CLIENT) demo_freed) = Inr ()"
    by code_simp
  then obtain d1 where d1: "serve_leave demo_env (1, demo_user 2 ''b@x'' CLIENT) demo_freed = (Inr (), d1)"
    by (metis prod.collapse)
  then show ?thesis
    using departed_client_is_booked [OF demo_freed_facts(1,2) demo_generated_ok demo_no_faults demo_freed_facts(3,4),
        of demo_env "demo_user 2 ''b@x'' CLIENT" d1 warning_orm plain_crypto default_settings "Show_Booking 1" "[]"] by auto
qed

text \<open>C12: When the promotion ends between its two commits, because the new booking cannot be refreshed or the process
  stops, the client has the slot and still waits for it. If it cancels that booking, it gets it back.\<close>

theorem cut_promotion_traps_client:
  assumes "base_inv d" and "exclusive d" and "slot_queue s d = w # ws" and "s \<noteq> 0"
    and "thread_step orm c cfg (Taking g e s w ps) d = (t, d1)" and "d1 \<noteq> d"
    and "generated_ok e2" and "no_faults e2" and "u_id u = w_client_id w"
  shows "holder_of d1 s = Some (w_client_id w) \<and> queue_of d1 s = w_client_id w # map w_client_id ws \<and>
    (\<exists>r d2. serve_cancel e2 (b_id (new_booking e s (w_client_id w) None d), u) d1 = (Inr r, d2) \<and>
       holder_of d2 s = Some (w_client_id w) \<and> queue_of d2 s = map w_client_id ws)"
proof -
  note ok = base_inv_schema [OF assms(1)]
  let ?b = "new_booking e s (w_client_id w) None d"
  obtain r where "serve_create e (s, w_client_id w, None) d = (r, d1)"
    using assms(5) by (auto split: prod.splits sum.splits)
  then obtain r' where claim: "claims e s (w_client_id w) None d r' d1"
    using serve_create_cases [OF ok] assms(6) by blast
  have inv: "base_inv d1" "exclusive d1"
    using claims_base [OF assms(1) claim] claims_exclusive [OF assms(2) claim] .
  have calendar: "holder_of d1 s = Some (w_client_id w)" "queue_of d1 s = w_client_id w # map w_client_id ws"
    using claims_holder [OF assms(2) claim] assms(3) by (simp_all add: queue_of_def)
  have "?b \<in> set (bookings d1)"
    using claim by (simp add: claims_def booked_db_def)
  then have found: "find_by b_id (b_id ?b) (bookings d1) = Some ?b"
    using find_by_distinct [OF schema_ok_distinct(7) [OF base_inv_schema [OF inv(1)]]] by simp
  have "allowed_on u ?b (slot_of d1 ?b) d1"
    using assms(9) by (simp add: allowed_on_eq)
  from cancel_calendar [OF inv assms(7,8) found _ this] obtain d2 where
    "serve_cancel e2 (b_id ?b, u) d1 = (Inr (booking_view (cancel (now e2) ?b)), d2)"
    "holder_of d2 s = Some (w_client_id w)" "queue_of d2 s = map w_client_id ws"
    using assms(4) calendar by (auto simp: serve_cancel_def next_holder_def)
  then show ?thesis
    using calendar by blast
qed

text \<open>On the scenario, when the refresh of the second client's booking fails.\<close>

theorem cut_promotion_traps_client_witness:
  "\<exists>d1 d2. thread_step warning_orm plain_crypto default_settings (Taking (Show_Booking 1)
       (demo_env\<lparr>fault := (\<lambda>st. if st = Refresh then Some None else None)\<rparr>) 2
       \<lparr>w_id = 1, w_slot_id = 2, w_client_id = 2, w_created_at = 1\<rparr> []) demo_freed
     = (Over (Cancel_Outcome (Inl (OperationalError None))), d1) \<and>
     holder_of d1 2 = Some 2 \<and> queue_of d1 2 = [2] \<and>
     snd (serve_cancel demo_env (2, demo_user 2 ''b@x'' CLIENT) d1) = d2 \<and> holder_of d2 2 = Some 2 \<and> queue_of d2 2 = []"
proof -
  let ?e = "demo_env\<lparr>fault := (\<lambda>st. if st = Refresh then Some None else None)\<rparr>"
  let ?w = "\<lparr>w_id = 1, w_slot_id = 2, w_client_id = 2, w_created_at = 1\<rparr>"
  let ?step = "thread_step warning_orm plain_crypto default_settings (Taking (Show_Booking 1) ?e 2 ?w []) demo_freed"
  have facts: "outcome_of (fst ?step) = Some (Cancel_Outcome (Inl (OperationalError None)))"
    "length (bookings (snd ?step)) = 2" "length (bookings demo_freed) = 1"
    "b_id (new_booking ?e 2 2 None demo_freed) = 2" "u_id (demo_user 2 ''b@x'' CLIENT) = 2"
    by code_simp+
  then have "fst ?step = Over (Cancel_Outcome (Inl (OperationalError None)))"
    by (cases "fst ?step") simp_all
  then obtain d1 where step: "?step = (Over (Cancel_Outcome (Inl (OperationalError None))), d1)"
    by (metis prod.collapse)
  then have "d1 \<noteq> demo_freed"
    using facts(2,3) by auto
  from cut_promotion_traps_client [OF demo_freed_facts(1-3) _ step this demo_generated_ok demo_no_faults,
      of "demo_user 2 ''b@x'' CLIENT"]
  show ?thesis
    using step facts(4,5) by auto
qed

end
