(* ===== verification/Alembic_Env.thy ===== *)
theory Alembic_Env
  imports Calendar_Service Config Migrations
begin

text \<open>
  \<^verbatim>\<open>migrations/env.py\<close>: the database URL of the settings becomes an option of Alembic's configuration, which is
  a \<open>configparser\<close> of Python with interpolation; then the migrations run, either on a connection or, in
  offline mode, as a script. \<open>fileConfig\<close> sets up logging and is left out.
\<close>

section \<open>Interpolation\<close>

text \<open>
  \<open>configparser\<close>: in a value, \<open>%%\<close> stands for a percent sign and \<open>%(name)s\<close> for the value of another option,
  interpolated in its turn, at most ten values deep. Names of options are kept in lower case.
\<close>

type_synonym options = "(string \<times> string) list"

datatype config_error = Invalid_Value | Bad_Syntax | Missing_Option | Too_Deep

abbreviation percent :: char where
  "percent \<equiv> CHR 0x25"

text \<open>The pattern \<open>%\(([^)]+)\)s\<close> at the start of a text: the name, and what follows.\<close>

definition match_key :: "string \<Rightarrow> (string \<times> string) option" where
  "match_key s =
     (let name = takeWhile (\<lambda>c. c \<noteq> CHR 0x29) (drop 2 s);
          rest = dropWhile (\<lambda>c. c \<noteq> CHR 0x29) (drop 2 s)
      in if take 2 s = [percent, CHR 0x28] \<and> name \<noteq> [] \<and> take 2 rest = [CHR 0x29, CHR ''s'']
         then Some (name, drop 2 rest) else None)"

lemma match_key_shorter: "match_key s = Some (name, rest) \<Longrightarrow> length rest < length s"
proof -
  assume "match_key s = Some (name, rest)"
  then have s: "take 2 s = [percent, CHR 0x28]" "rest = drop 2 (dropWhile (\<lambda>c. c \<noteq> CHR 0x29) (drop 2 s))"
    by (auto simp: match_key_def Let_def split: if_splits)
  have "length (dropWhile (\<lambda>c. c \<noteq> CHR 0x29) (drop 2 s)) \<le> length (drop 2 s)"
    by (rule length_dropWhile_le)
  moreover have "s \<noteq> []"
    using s(1) by auto
  ultimately show ?thesis
    using s(2) by (cases s) auto
qed

function without_references :: "string \<Rightarrow> string" where
  "without_references [] = []"
| "without_references (c # cs) =
     (case match_key (c # cs) of
        Some (name, rest) \<Rightarrow> without_references rest
      | None \<Rightarrow> c # without_references cs)"
  by pat_completeness auto
termination
  by (relation "measure length") (auto dest: match_key_shorter)

text \<open>\<open>BasicInterpolation.before_set\<close>: what may be set.\<close>

definition before_set :: "string \<Rightarrow> config_error + string" where
  "before_set v = (if percent \<in> set (without_references (py_replace [percent, percent] [] v))
     then Inl Invalid_Value else Inr v)"

text \<open>\<open>BasicInterpolation._interpolate_some\<close>, with the depth that is left.\<close>

function (sequential) interpolate :: "nat \<Rightarrow> options \<Rightarrow> string \<Rightarrow> config_error + string" where
  "interpolate 0 opts v = Inl Too_Deep"
| "interpolate (Suc n) opts [] = Inr []"
| "interpolate (Suc n) opts (c # cs) =
     (if c \<noteq> percent then map_sum id ((#) c) (interpolate (Suc n) opts cs)
      else if take 1 cs = [percent] then map_sum id ((#) percent) (interpolate (Suc n) opts (drop 1 cs))
      else
        (case match_key (c # cs) of
           None \<Rightarrow> Inl Bad_Syntax
         | Some (name, rest) \<Rightarrow>
           (case map_of opts (py_lower name) of
              None \<Rightarrow> Inl Missing_Option
            | Some v \<Rightarrow>
              (case (if percent \<in> set v then interpolate n opts v else Inr v) of
                 Inl err \<Rightarrow> Inl err
               | Inr v \<Rightarrow> map_sum id ((@) v) (interpolate (Suc n) opts rest)))))"
  by pat_completeness auto
termination
  by (relation "measures [\<lambda>(n, opts, v). n, \<lambda>(n, opts, v). length v]") (auto dest: match_key_shorter)

definition max_depth :: nat where
  "max_depth = 10"

section \<open>Alembic's configuration\<close>

definition set_main_option :: "string \<Rightarrow> string \<Rightarrow> options \<Rightarrow> config_error + options" where
  "set_main_option name v opts =
     (case before_set v of
        Inl err \<Rightarrow> Inl err
      | Inr v \<Rightarrow> Inr ((py_lower name, v) # filter (\<lambda>(k, _). k \<noteq> py_lower name) opts))"

definition get_main_option :: "string \<Rightarrow> options \<Rightarrow> config_error + string option" where
  "get_main_option name opts =
     (case map_of opts (py_lower name) of
        None \<Rightarrow> Inr None
      | Some v \<Rightarrow> map_sum id Some (interpolate max_depth opts v))"

text \<open>\<open>get_section\<close> interpolates every option.\<close>

fun interpolated :: "options \<Rightarrow> options \<Rightarrow> config_error + options" where
  "interpolated opts [] = Inr []"
| "interpolated opts ((k, v) # kvs) =
     (case interpolate max_depth opts v of
        Inl err \<Rightarrow> Inl err
      | Inr v \<Rightarrow> map_sum id ((#) (k, v)) (interpolated opts kvs))"

definition get_section :: "options \<Rightarrow> config_error + options" where
  "get_section opts = interpolated opts opts"

section \<open>The script of the offline mode\<close>

text \<open>
  \<open>upgrade head --sql\<close> has no connection and begins at the base: it prints the table of versions, then the statements
  of every revision with the stamp that follows it. The script is one transaction, as the server supports
  for DDL. Here it is run on databases that are not stamped.
\<close>

fun head_script :: "revision list \<Rightarrow> nat \<Rightarrow> string option \<Rightarrow> revision list" where
  "head_script rs 0 v = []"
| "head_script rs (Suc n) v =
     (case find (\<lambda>r. down_revision r = v) rs of
        None \<Rightarrow> []
      | Some r \<Rightarrow> r # head_script rs n (Some (revision_id r)))"



section \<open>The module\<close>

text \<open>The databases are named by their URLs. The result is the script, in offline mode, or nothing.\<close>

type_synonym servers = "string \<Rightarrow> migration_state"

definition SQLALCHEMY_URL :: string where
  "SQLALCHEMY_URL = ''sqlalchemy.url''"

definition run_migrations_offline :: "engine \<Rightarrow> options \<Rightarrow> config_error + revision list" where
  "run_migrations_offline p opts =
     (case get_main_option SQLALCHEMY_URL opts of
        Inl err \<Rightarrow> Inl err
      | Inr url \<Rightarrow> Inr (head_script (versions p) (length (versions p)) None))"

definition run_migrations_online :: "engine \<Rightarrow> options \<Rightarrow> servers \<Rightarrow> config_error + servers" where
  "run_migrations_online p opts dbs =
     (case get_section opts of
        Inl err \<Rightarrow> Inl err
      | Inr section \<Rightarrow>
        (case map_of section SQLALCHEMY_URL of
           None \<Rightarrow> Inl Missing_Option
         | Some url \<Rightarrow> Inr (dbs(url := upgrade_head p (dbs url)))))"

definition env_module ::
  "engine \<Rightarrow> settings \<Rightarrow> options \<Rightarrow> bool \<Rightarrow> servers \<Rightarrow> (config_error + revision list option) \<times> servers" where
  "env_module p cfg ini offline dbs =
     (case set_main_option SQLALCHEMY_URL (database_url cfg) ini of
        Inl err \<Rightarrow> (Inl err, dbs)
      | Inr opts \<Rightarrow>
        if offline then (map_sum id Some (run_migrations_offline p opts), dbs)
        else
          (case run_migrations_online p opts dbs of
             Inl err \<Rightarrow> (Inl err, dbs)
           | Inr dbs \<Rightarrow> (Inr None, dbs)))"

section \<open>Values without percent signs\<close>

lemma match_key_percent: "match_key s = Some x \<Longrightarrow> \<exists>cs. s = percent # cs"
  by (cases s) (auto simp: match_key_def Let_def split: if_splits)


lemma py_replace_plain:
  assumes "percent \<notin> set v"
  shows "py_replace (percent # old) new v = v"
  using assms by (induction v) auto

lemma interpolate_plain: "percent \<notin> set v \<Longrightarrow> interpolate (Suc n) opts v = Inr v"
  by (induction v) auto

lemma interpolate_max_plain [simp]: "percent \<notin> set v \<Longrightarrow> interpolate max_depth opts v = Inr v"
  using interpolate_plain [of v 9 opts] by (simp add: max_depth_def)


text \<open>One percent sign, not of a reference.\<close>

lemma match_key_none: "take 1 v \<noteq> [CHR 0x28] \<Longrightarrow> match_key (percent # v) = None"
  by (cases v) (auto simp: match_key_def Let_def)

lemma before_set_percent:
  assumes "percent \<notin> set a" and "percent \<notin> set b" and "take 1 b \<noteq> [CHR 0x28]"
  shows "before_set (a @ percent # b) = Inl Invalid_Value"
proof -
  have kept: "py_replace [percent, percent] [] (a @ percent # b) = a @ percent # b"
    using assms(1)
  proof (induction a)
    case Nil
    have "take 1 b \<noteq> [percent]"
      using assms(2) by (cases b) auto
    then show ?case
      using py_replace_plain [OF assms(2)] by simp
  qed auto
  have "percent \<in> set (without_references (a @ percent # b))"
    using assms(1)
  proof (induction a)
    case Nil
    then show ?case
      using match_key_none [OF assms(3)] by simp
  next
    case (Cons c a)
    then show ?case
      by (auto dest: match_key_percent split: option.split)
  qed
  then show ?thesis
    by (simp add: before_set_def kept)
qed


section \<open>Which URLs migrate\<close>

text \<open>A database URL with a percent escape, as a password with a special character needs, stops every migration: the
  configuration takes the percent sign for an interpolation and refuses the value, in both modes and
  whatever Alembic was asked to do. The application itself connects with the same URL.\<close>

theorem percent_url_stops_migrations:
  assumes "database_url cfg = a @ percent # b" and "percent \<notin> set a" and "percent \<notin> set b" and "take 1 b \<noteq> [CHR 0x28]"
  shows "env_module p cfg ini offline dbs = (Inl Invalid_Value, dbs)"
  using before_set_percent [OF assms(2-4)] assms(1) by (simp add: env_module_def set_main_option_def)

theorem percent_url_stops_migrations_witness:
  "fst (env_module documented_postgres (default_settings\<lparr>database_url := ''postgresql+psycopg://u:p%40ss@db/booking''\<rparr>)
     [] False (\<lambda>_. (None, empty_catalog))) = Inl Invalid_Value"
  using percent_url_stops_migrations [of "default_settings\<lparr>database_url := ''postgresql+psycopg://u:p%40ss@db/booking''\<rparr>"
      "''postgresql+psycopg://u:p''" "''40ss@db/booking''"] by simp



end
