(* ===== verification/Flaky_Redis.thy ===== *)
theory Flaky_Redis
  imports Redis_Limiter "HOL-Library.Sublist"
begin

text \<open>
  The limiter of the application while Redis comes and goes (\<open>FallbackRateLimiter\<close> of \<^verbatim>\<open>core/rate_limiter.py\<close>): the
  Redis limiter before the in-memory one, when some calls do not reach the server and the replies to
  others are lost. Each limiter only knows the calls it has served.
\<close>

section \<open>Outages\<close>

text \<open>A call reaches the server and is answered, does not reach it, or is served and its last reply times out. What
  the server has stored stays there.\<close>

datatype contact = Answered | Unreachable | Reply_Lost

definition contacted :: "contact \<Rightarrow> 'p allow_op \<Rightarrow> 'p allow_op" where
  "contacted k primary t key limit window p =
     (case k of
        Answered \<Rightarrow> primary t key limit window p
      | Unreachable \<Rightarrow> (Inl ServiceError, p)
      | Reply_Lost \<Rightarrow> (Inl ServiceError, snd (primary t key limit window p)))"

type_synonym contacts = "(contact \<times> instant \<times> string) list"

fun run_flaky ::
  "int \<Rightarrow> 'p allow_op \<Rightarrow> 'f allow_op \<Rightarrow> (string \<Rightarrow> int) \<Rightarrow> contacts \<Rightarrow> 'p \<times> 'f \<Rightarrow> bool list" where
  "run_flaky window primary fb limits [] st = []"
| "run_flaky window primary fb limits ((k, t, key) # calls) st =
     (case fallback_allow (contacted k primary) fb t key (limits key) window st of
        (Inr (b, _), st) \<Rightarrow> b # run_flaky window primary fb limits calls st
      | (Inl _, st) \<Rightarrow> False # run_flaky window primary fb limits calls st)"

text \<open>The calls each limiter serves, and the times of those it has accepted.\<close>

definition primary_calls :: "contacts \<Rightarrow> (instant \<times> string) list" where
  "primary_calls calls = map snd (filter (\<lambda>(k, _). k \<noteq> Unreachable) calls)"

definition fallback_calls :: "contacts \<Rightarrow> (instant \<times> string) list" where
  "fallback_calls calls = map snd (filter (\<lambda>(k, _). k \<noteq> Answered) calls)"

definition accepted_by :: "bool \<Rightarrow> string \<Rightarrow> contacts \<Rightarrow> bool list \<Rightarrow> instant list" where
  "accepted_by primary key calls answers =
     map (\<lambda>((k, t, _), _). t)
       (filter (\<lambda>((k, _, x), b). b \<and> x = key \<and> (k = Answered \<longleftrightarrow> primary)) (zip calls answers))"

lemma accepted_by_Nil [simp]: "accepted_by primary key [] bs = []"
  by (simp add: accepted_by_def)

lemma accepted_by_Cons [simp]:
  "accepted_by primary key ((k, t, x) # calls) (b # bs)
    = (if b \<and> x = key \<and> (k = Answered \<longleftrightarrow> primary) then [t] else []) @ accepted_by primary key calls bs"
  by (simp add: accepted_by_def)

lemma calls_Nil [simp]: "primary_calls [] = []" "fallback_calls [] = []"
  by (simp_all add: primary_calls_def fallback_calls_def)

lemma calls_Cons [simp]:
  "primary_calls ((k, c) # calls) = (if k = Unreachable then [] else [c]) @ primary_calls calls"
  "fallback_calls ((k, c) # calls) = (if k = Answered then [] else [c]) @ fallback_calls calls"
  by (simp_all add: primary_calls_def fallback_calls_def)

lemma contacted_simps [simp]:
  "contacted Answered primary t key limit window p = primary t key limit window p"
  "contacted Unreachable primary t key limit window p = (Inl ServiceError, p)"
  "contacted Reply_Lost primary t key limit window p = (Inl ServiceError, snd (primary t key limit window p))"
  by (simp_all add: contacted_def)

lemma in_window_subseq: "subseq xs ys \<Longrightarrow> in_window window y xs \<le> in_window window y ys"
  unfolding in_window_def by (rule list_emb_length, rule subseq_filter)

section \<open>Each limiter on its own calls\<close>

context clocked_limiter
begin

text \<open>
  The limiter as the primary: its accepted calls are among those it would accept of the calls that reach it,
  and the fallback answers as on its calls alone.
\<close>

lemma flaky_primary:
  assumes "represents p h t0" and "sorted (t0 # map (fst \<circ> snd) calls)" and "\<forall>key. 0 < limits key"
  shows "subseq (map clock (accepted_by True key calls (run_flaky window allow fb limits calls (p, f))))
      (accepted_times key (seen clock (primary_calls calls)) (run_calls window allow limits (primary_calls calls) p)) \<and>
    accepted_by False key calls (run_flaky window allow fb limits calls (p, f))
      = accepted_times key (fallback_calls calls) (run_calls window fb limits (fallback_calls calls) f)"
  using assms
proof (induction calls arbitrary: p f h t0)
  case Nil
  then show ?case
    by (simp add: accepted_times_def seen_def)
next
  case (Cons call calls)
  obtain k t x where call: "call = (k, t, x)"
    by (rule prod_cases3)
  have t: "t0 \<le> t" "sorted (t # map (fst \<circ> snd) calls)" "sorted (t0 # map (fst \<circ> snd) calls)" "0 < limits x"
    using Cons.prems call by (auto simp: comp_def)
  from allow_clocked [OF Cons.prems(1) t(1,4), of x] obtain retry p' where
    step: "allow t x (limits x) window p = (Inr (fst (history_step window (clock t) x (limits x) h), retry), p')"
    and rep: "represents p' (snd (history_step window (clock t) x (limits x) h)) t"
    by blast
  obtain r f' where fb: "fb t x (limits x) window f = (r, f')"
    by (rule prod.exhaust)
  have seen: "seen clock ((t, x) # cs) = (clock t, x) # seen clock cs" for cs
    by (simp add: seen_def)
  show ?case
  proof (cases k)
    case Answered
    then show ?thesis
      using Cons.IH [OF rep t(2) Cons.prems(3), of f] step
      by (auto simp: call fallback_allow_def accepted_times_Cons seen)
  next
    case Unreachable
    then show ?thesis
      using Cons.IH [OF Cons.prems(1) t(3) Cons.prems(3), of f'] fb
      by (cases r) (auto simp: call fallback_allow_def accepted_times_Cons)
  next
    case Reply_Lost
    then show ?thesis
      using Cons.IH [OF rep t(2) Cons.prems(3), of f'] step fb
      by (cases r) (auto simp: call fallback_allow_def accepted_times_Cons seen)
  qed
qed

lemma primary_bounded:
  assumes "sorted (map (fst \<circ> snd) calls)" and "\<forall>key. 0 < limits key" and "\<forall>c \<in> set calls. valid (fst (snd c))"
  shows "int (in_window window y (map clock (accepted_by True key calls (run_flaky window allow fb limits calls (start, f)))))
      \<le> limits key \<and>
    accepted_by False key calls (run_flaky window allow fb limits calls (start, f))
      = accepted_times key (fallback_calls calls) (run_calls window fb limits (fallback_calls calls) f)"
proof (cases calls)
  case Nil
  then show ?thesis
    using assms(2) by (simp add: in_window_def accepted_times_def less_imp_le)
next
  case (Cons call rest)
  obtain k t x where call: "call = (k, t, x)"
    by (rule prod_cases3)
  have "represents start no_events t" "sorted (t # map (fst \<circ> snd) calls)"
    using assms(1,3) Cons call by (auto intro: start_valid)
  note split = flaky_primary [OF this assms(2), of key fb f]
  have "sorted (map fst (primary_calls calls))"
    using sorted_filter [OF assms(1), of "\<lambda>(k, _). k \<noteq> Unreachable"] by (simp add: primary_calls_def comp_def)
  moreover have "\<forall>c \<in> set (primary_calls calls). valid (fst c)"
    using assms(3) by (auto simp: primary_calls_def)
  ultimately have "int (in_window window y (accepted_times key (seen clock (primary_calls calls))
      (run_calls window allow limits (primary_calls calls) start))) \<le> limits key"
    using accepted_clocked assms(2) by blast
  then show ?thesis
    using split in_window_subseq [of _ _ window y] by (meson of_nat_mono order_trans)
qed

end

section \<open>The limiter of the application\<close>

text \<open>C31: However Redis comes and goes, each of the two limiters keeps the limit for the calls it accepts: in no span of
  time as long as the window does Redis accept more calls of a key than the limit, at the milliseconds of its clock,
  and neither does the memory of the process. So an outage at most doubles the limit.\<close>

theorem outages_at_most_double_limit:
  assumes "redis_server_ok execute zset" and "uuids_ok uuids" and "0 < window" and "zset r0 = (\<lambda>_. [])"
    and "sorted (map (fst \<circ> snd) calls)" and "\<forall>key. 0 < limits key" and "list_all (\<lambda>c. 0 \<le> fst (snd c)) calls"
    and "answers = run_flaky window (numbered_allow execute pre uuids) memory_allow limits calls ((r0, 0), no_events)"
  shows "int (in_window window y (map ms_clock (accepted_by True key calls answers))) \<le> limits key \<and>
    int (in_window window y (accepted_by False key calls answers)) \<le> limits key"
proof -
  have valid: "\<forall>c \<in> set calls. 0 \<le> fst (snd c)"
    using assms(7) by (simp add: list_all_iff)
  note primary = clocked_limiter.primary_bounded [OF redis_clocked_limiter [where prefix = pre, OF assms(1-4)] assms(5,6) valid,
      where key = key and fb = memory_allow and f = no_events, folded assms(8)]
  have "sorted (map fst (fallback_calls calls))"
    using sorted_filter [OF assms(5), of "\<lambda>(k, _). k \<noteq> Answered"] by (simp add: fallback_calls_def comp_def)
  from window_limiter.accepted_bounded [OF memory_window_limiter [OF assms(3)] this assms(6)]
  show ?thesis
    using primary by simp
qed

text \<open>Both at once: with a limit of one, two calls of the same second are accepted when the server is lost in between.\<close>

theorem outages_at_most_double_limit_witness:
  "run_flaky 60 (numbered_allow store_execute ''rl'' example_uuids) memory_allow (\<lambda>_. 1)
     [(Answered, 0, ''k''), (Unreachable, 1000, ''k''), (Reply_Lost, 2000, ''k'')] ((\<lambda>_. [], 0), no_events) = [True, True, False] \<and>
   int (in_window 60 2000 (accepted_by False ''k'' [(Answered, 0, ''k''), (Unreachable, 1000, ''k''), (Reply_Lost, 2000, ''k'')]
     [True, True, False])) \<le> 1"
proof -
  let ?calls = "[(Answered, 0, ''k''), (Unreachable, 1000, ''k''), (Reply_Lost, 2000, ''k'')] :: contacts"
  have run: "run_flaky 60 (numbered_allow store_execute ''rl'' example_uuids) memory_allow (\<lambda>_. 1) ?calls
      ((\<lambda>_. [], 0), no_events) = [True, True, False]"
    by code_simp
  have "sorted (map (fst \<circ> snd) ?calls)" "list_all (\<lambda>c. 0 \<le> fst (snd c)) ?calls"
    by simp_all
  from outages_at_most_double_limit [OF store_server_ok example_uuids_ok _ _ this(1) _ this(2), where window = 60 and limits = "\<lambda>_. 1"
      and y = 2000 and key = "''k''",
      OF _ _ _ run [symmetric]]
  have "int (in_window 60 2000 (accepted_by False ''k'' ?calls [True, True, False])) \<le> 1"
    by simp
  then show ?thesis
    using run by blast
qed

end
