(* ===== verification/Spec2Isabelle.thy ===== *)
theory Spec2Isabelle
  imports System Booking_Properties Wait_List_Properties Api_Properties Specialist_Properties
    Access_Properties Calendar_Properties Migration_Properties Application_Properties
    Concurrency_Properties Redis_Limiter Race_Properties Beat_Properties
    Web_Limits Promotion_Properties Lock_Order Calendar_Refinement Alembic_Env
    Flaky_Redis
begin

text \<open>
  A verification development of the Booking API (\<^verbatim>\<open>src/app\<close>): specialists publish time slots, clients
  book, move and cancel them and wait for slots that are taken, two periodic tasks expire bookings
  and count reminders, and a rate limiter guards the accounts. The revisions of \<^verbatim>\<open>src/migrations\<close>
  make the tables. The models are translated from the Python sources; the properties are numbered C1
  and on in the theories that end in \<open>_Properties\<close>, in \<open>Expiry_Race\<close>, \<open>Flaky_Redis\<close>, \<open>Lock_Order\<close>, \<open>Web_Limits\<close>,
  \<open>Calendar_Refinement\<close>, \<open>Alembic_Env\<close> and in this one.

  The parts, bottom up, and the theory of each.
    \<^item> \<open>Prelude\<close>: exceptions as values (\<open>py_exc\<close>, a result is \<open>py_exc + 'a\<close>), Python strings and \<open>int\<close>,
      and operations on the rows of a table: lookup, update and deletion by key, pages.
    \<^item> \<open>Models\<close> (\<^verbatim>\<open>db/models\<close>): a record per table with its columns, the enumerations, the database as
      six lists of rows, and its constraints \<open>schema_ok\<close>: primary keys, unique columns, foreign keys.
    \<^item> \<open>Session\<close> (\<^verbatim>\<open>db/session.py\<close>): a session is the committed and the pending database; \<open>flush\<close>,
      \<open>commit\<close>, \<open>rollback\<close>; \<open>get_db\<close> drops what is pending at the end. The record \<open>env\<close> is what a call
      gets from outside: the clock, the columns the server generates, and which statements fail
      with which driver error. \<open>db_machine\<close> is the interface of a set of operations that keep an
      invariant.
    \<^item> \<open>Slot_Calendar\<close>: the meaning of the tables, \<open>holder_of\<close> a slot and \<open>queue_of\<close> a slot; the
      invariants \<open>base_inv\<close>, which always holds, and \<open>exclusive\<close>, that \<open>is_booked\<close> is true exactly of
      slots with one confirmed booking; \<open>calendar_op\<close> is the interface of an operation that keeps
      them. It is interpreted on every writing service and handler.
    \<^item> \<open>Booking_Service\<close>, \<open>Wait_List_Service\<close> (\<^verbatim>\<open>services\<close>): creating and moving a booking, joining a
      wait list, promoting its head. Each has a reference function on the committed database, and
      a lemma on the shape of its outcomes when any statement may fail.
    \<^item> \<open>Release\<close>, \<open>Joins\<close>: closing a booking and freeing its slot; the inner joins of the queries.
    \<^item> \<open>Tasks\<close>, \<open>Expiry_Runs\<close> (\<^verbatim>\<open>tasks\<close>): the expiry and the reminder task, and repeated expiries.
    \<^item> \<open>Config\<close>, \<open>Security\<close>, \<open>Auth_Service\<close>, \<open>Rate_Limiter\<close>, \<open>Auth_Api\<close> (\<^verbatim>\<open>core\<close>, \<^verbatim>\<open>api/deps.py\<close>,
      \<^verbatim>\<open>services/auth_service.py\<close>, \<^verbatim>\<open>api/v1/auth.py\<close>): settings, tokens and passwords over the libraries
      jose and passlib as parameters, registration, login, the current user, the limiters with
      \<open>window_limiter\<close> as their interface, and the handlers that use them.
    \<^item> \<open>Bookings_Api\<close>, \<open>Booking_Cancellation\<close>, \<open>Bookings_Handlers\<close> (\<^verbatim>\<open>api/v1/bookings.py\<close>): every handler of the
      router, and what it does to holders, queues and listings.
    \<^item> \<open>Specialists_Api\<close>, \<open>Slot_Management\<close>, \<open>Availability\<close> (\<^verbatim>\<open>api/v1/specialists.py\<close>,
      \<^verbatim>\<open>api/v1/users.py\<close>): profiles, services, slots, listings, the count of slots by day.
    \<^item> \<open>Calendar_Service\<close> (\<^verbatim>\<open>services/calendar_service.py\<close>): the iCalendar file of a booking.
    \<^item> \<open>Concurrent_Booking\<close>: calls of \<open>create_booking_for_slot\<close> that run at the same time, as a
      transition system. A transaction is a program counter per statement (\<open>advance\<close>), the system is
      the committed database and the transactions; row locks, \<open>NOWAIT\<close>, the wait for a unique key and
      failing statements are steps. \<open>simulation\<close> is the interface of a system that refines another one.
    \<^item> \<open>Expiry_Race\<close>, \<open>Stale_Rows\<close>, \<open>Lost_Slots\<close>: requests that query without a lock, cut in two so that
      any run of others comes in between: the expiry task, moving a booking, opening and deleting a
      slot. \<open>split_request\<close> is their interface: what is loaded, what is written, and when that is still
      right. A slot booked without a booking is lost, an invariant of every run.
    \<^item> \<open>Interrupted_Promotion\<close>: promotions that come late or fail: the cancellation as two transactions with
      others in between, and the expiry task when the row of a slot is locked.
    \<^item> \<open>Commits\<close>, \<open>Commit_Properties\<close>: the program transaction by transaction. A thread is a request or a run of the
      expiry task between two of its commits or queries (\<open>thread_step\<close>), a system is a list of threads on one
      database (\<open>commit_step\<close>), and \<open>safe_step\<close> says which steps keep bookings exclusive. A thread on its own is
      the atomic operation of \<open>System\<close>. \<open>Calendar_Refinement\<close>: what the steps do to the holders of the slots, as
      a refinement of a calendar with three kinds of steps.
    \<^item> \<open>Lock_Order\<close>: the row locks of every writing transaction in the order it takes them, and transactions
      that run at the same time; \<open>ordered_locks\<close> is the interface of programs that cannot deadlock.
    \<^item> \<open>Beat\<close> (\<^verbatim>\<open>tasks/celery_app.py\<close>): the configuration of Celery, the registered tasks, and the ticks
      of the schedule.
    \<^item> \<open>Redis_Limiter\<close>: the commands of the Redis limiter over a server that stores scores, and two
      calls that overlap. \<open>Flaky_Redis\<close>: the limiter of the application when some calls do not reach the
      server, or its replies are lost.
    \<^item> \<open>Application\<close> (\<^verbatim>\<open>main.py\<close>, \<^verbatim>\<open>core/exceptions.py\<close>, \<^verbatim>\<open>core/metrics.py\<close>,
      \<^verbatim>\<open>core/request_context.py\<close>, \<^verbatim>\<open>core/logging.py\<close>): the error handlers, the middleware that counts, times and logs
      requests, the root logger, and the health check, around the handlers of the routers.
    \<^item> \<open>Routes\<close>: a route per decorator of \<^verbatim>\<open>api/v1\<close> and \<^verbatim>\<open>main.py\<close>, with who may call it, and their order.
    \<^item> \<open>Web_App\<close>, \<open>Web_Operations\<close>: the application behind the socket. A request is routed, its dependencies are
      solved, its arguments are read and validated, its handler runs, and the result becomes a response;
      FastAPI is the parameter \<open>framework\<close>, with its documentation as \<open>framework_ok\<close>. Every request is one
      operation of \<open>System\<close> or none, so the runs of the application are runs of the machine.
      \<open>Web_Limits\<close> follows the state of the limiter through such a run.
    \<^item> \<open>Catalog\<close>, \<open>Migrations\<close> (\<^verbatim>\<open>src/migrations\<close>), \<open>Schema\<close> (\<^verbatim>\<open>db/models\<close>, \<^verbatim>\<open>db/base.py\<close>): DDL statements on a catalog of tables,
      types, sequences and indexes; every revision as its two lists of statements; the tables the mapped
      classes declare, and the meaning of what they declare on the rows of \<open>Models\<close>.
    \<^item> \<open>Alembic_Env\<close> (\<^verbatim>\<open>migrations/env.py\<close>): the URL of the settings as an option of a \<open>configparser\<close> with
      interpolation, and the migrations on a connection or, offline, as a script.
    \<^item> \<open>System\<close>: all writing requests and tasks as the operations of one machine, and its runs.
    \<^item> \<open>Scenario\<close>: a small database and environment, where the hypotheses of the properties hold.

  How a handler is modelled. A handler is a function of its arguments, the environment and the
  session; it returns a result and the session, with one branch for each raise, each early return
  and each \<open>except\<close> clause. Statements of the services that handle driver errors may fail, each by
  the environment's choice (\<open>exec\<close>). Handlers run one after the other on the committed database:
  a row lock that another transaction holds is the failure of the locking statement. That this is
  enough for the requests that book a slot is proved in \<open>Concurrency_Properties\<close>: their interleaved
  transactions look as if each call had run alone, some with a failing statement. What the
  framework does before a handler (parsing, the bounds of query parameters, the length of
  fields) restricts the arguments; \<open>limit_param\<close>, \<open>offset_param\<close>, \<open>service_request_ok\<close> and
  \<open>check_interval\<close> say how, and \<open>validate_call\<close> of \<open>Web_App\<close> puts them together. The times of a new slot
  have a zone or not; those that have none are read in the zone of the server, at a fixed offset. What
  a handler gives to \<open>JSONResponse\<close> may hold an exception, which JSON cannot encode.

  What the groups of lemmas show. For the services and the cancellation: they compute their
  reference functions, they commit all of a change or nothing, and on holders and queues they are
  simple updates: take a free slot, move a holder, hand a slot to the head of its queue, append to
  a queue. For the machine: constraints and disjoint slots hold in every run, bookings are exclusive
  in every run that cancels no expired booking of a held slot, and a run that does so books a slot
  twice. For the limiter: it answers as the one that remembers every call, so a window never has
  more accepted calls than the limit; with Redis, an outage at most doubles it. For accounts: a token obtained with the password
  authenticates its user, and nobody else. For requests that others overtake: a late deletion is safe, a
  late slot is safe when its interval is still free, a late move is safe when its queries overwrite
  what was loaded and loses a slot for good otherwise. For the schedule: a started slot with \<open>n\<close>
  waiting clients is free after \<open>n + 1\<close> intervals, and a slot whose promotion failed is left to itself.
  For the web: every URL reaches its function, strangers get 401, only admitted requests write, nobody guesses
  more passwords than the limit allows, and what is proved of the machine holds for whatever requests arrive. For row locks: requests of clients never
  deadlock; the expiry task can, with a cancellation. For transactions: every interleaving ends, is safe as
  long as each step is, and moves slots only from nobody to a client or back; between the commits of a
  promotion a client can be booked who has left the queue, or stay in it with his booking made.

  Bounds. No definition uses fuel: loops over rows are folds or recursions over lists. Of the recursions that
  are not structural, \<open>year_of\<close> terminates because a year has at least 365 days, \<open>without_references\<close> and
  \<open>interpolate\<close> because they take off a part of the text; the depth of \<open>interpolate\<close> is the ten of \<open>configparser\<close>.
  Integers are Python's. Instants are microseconds since year 1 and dates are days, with the
  overflow after 9999-12-31 as an exception. Strings hold code points below 256. Clock readings of
  the limiter are whole microseconds instead of floating point numbers. The number of steps of a schedule is
  bounded by the statements its transactions have left. \<open>steps_up\<close> and \<open>steps_down\<close> follow
  the \<open>down_revision\<close> links with the number of revisions as bound, which is enough: the links are a
  chain (\<open>migration_chain_taken_back\<close> goes through all of them).

  Not modelled: the interleaving of single statements of requests other than those that book a slot,
  beyond the points where \<open>Stale_Rows\<close> and \<open>Commits\<close> cut them, which are their commits and the queries without
  a lock that they rely on; a server zone with daylight saving; a failing statement in a handler that has no code
  for it; the servers: Redis is a parameter with \<open>redis_server_ok\<close> as its documented behaviour (the
  expiry of whole keys left out), what PostgreSQL does with defaults of identity columns is a parameter
  of the second revision, and what SQLAlchemy does with loaded objects whose rows others have changed or
  deleted is the record \<open>orm\<close>; the text of the log lines and of the metrics page; what the framework answers to unknown paths and methods, and
  how it reads and renders values; the order of statements of SQLAlchemy's flush, a parameter of \<open>Lock_Order\<close>;
  the commands of Alembic other than upgrades and downgrades, and its logging (\<open>fileConfig\<close>); the scheduler and the broker of Celery.
\<close>

section \<open>Every run of the program\<close>

text \<open>C13: Whatever requests and task runs are executed, in whatever order, at whatever times, by whatever
  users and with whatever statements failing, the database satisfies its constraints, every slot ends
  after it starts, slots of one specialist never overlap, and a slot marked booked has a confirmed
  booking.\<close>

theorem every_run_keeps_constraints:
  shows "schema_ok (fold (exec_op c cfg) ops empty_db) \<and> slots_disjoint (fold (exec_op c cfg) ops empty_db) \<and>
    backed (fold (exec_op c cfg) ops empty_db)"
  using program.run_good [OF empty_db_inv(1), of c cfg ops] by (simp add: base_inv_def)

text \<open>C1: In every run in which no expired booking is cancelled while somebody holds its slot, no slot is
  ever booked twice: a slot has one confirmed booking when it is marked booked and none otherwise.\<close>

theorem safe_runs_never_book_twice:
  assumes "safe_run c cfg ops empty_db" and "t \<in> set (time_slots (fold (exec_op c cfg) ops empty_db))"
  shows "length (confirmed_on (ts_id t) (fold (exec_op c cfg) ops empty_db)) = (if is_booked t then 1 else 0)"
  using safe_run_keeps [OF empty_db_inv assms(1)] assms(2) by (simp add: exclusive_def list_all_iff)

theorem safe_runs_never_book_twice_witness:
  "length (confirmed_on 1 (fold (exec_op plain_crypto default_settings) opening_trace empty_db)) = 1"
proof -
  let ?d = "fold (exec_op plain_crypto default_settings) opening_trace empty_db"
  have "safe_run plain_crypto default_settings opening_trace empty_db"
    by (rule no_cancel_safe) (simp add: opening_trace_def)
  moreover have "hd (time_slots ?d) \<in> set (time_slots ?d)" "ts_id (hd (time_slots ?d)) = 1"
    "is_booked (hd (time_slots ?d))"
    by (simp_all add: opening_state)
  ultimately show ?thesis
    using safe_runs_never_book_twice [of plain_crypto default_settings opening_trace "hd (time_slots ?d)"]
    by simp
qed


end
